theory Spec2Isabelle
  imports Complex_Main
begin

section \<open>Numbers, vectors, planes and boxes\<close>

text \<open>
  The section box of the viewer (class \<open>SectionBox\<close>) is modelled as a record of its
  fields together with the part of the host viewer it writes to; every method is a
  function on that record. JavaScript numbers are modelled as real numbers; \<open>NaN\<close> and
  the infinities are outside the model. The drag update (\<open>UpdateDrag\<close>) is modelled
  with the rounding of double precision, because the margin its clamp keeps is as small
  as a rounding error; the other methods compute with exact arithmetic.

  The value types below are those of the three.js library the class imports
  (\<open>Vector3\<close>, \<open>Plane\<close>, \<open>Box3\<close>), with the library functions the class calls.
\<close>

datatype axis = AxisX | AxisY | AxisZ

datatype side = SideMin | SideMax

text \<open>
  The property keys \<open>'minX'\<close>, ..., \<open>'maxZ'\<close> of \<open>this.bounds\<close>. The code only ever
  forms them from the face table of \<open>CreateFaceHandles\<close>, so the six keys are a datatype.
\<close>

datatype face = MinX | MaxX | MinY | MaxY | MinZ | MaxZ

record vec3 =
  vx :: real
  vy :: real
  vz :: real

definition Vector3 :: "real \<Rightarrow> real \<Rightarrow> real \<Rightarrow> vec3" where
  "Vector3 a b c = \<lparr>vx = a, vy = b, vz = c\<rparr>"

text \<open>\<open>v[axis]\<close> and \<open>v[axis] = a\<close> for \<open>axis\<close> one of \<open>'x'\<close>, \<open>'y'\<close>, \<open>'z'\<close>.\<close>

fun get_comp :: "vec3 \<Rightarrow> axis \<Rightarrow> real" where
  "get_comp v AxisX = vx v"
| "get_comp v AxisY = vy v"
| "get_comp v AxisZ = vz v"

fun set_comp :: "axis \<Rightarrow> real \<Rightarrow> vec3 \<Rightarrow> vec3" where
  "set_comp AxisX a v = v\<lparr>vx := a\<rparr>"
| "set_comp AxisY a v = v\<lparr>vy := a\<rparr>"
| "set_comp AxisZ a v = v\<lparr>vz := a\<rparr>"

definition dot :: "vec3 \<Rightarrow> vec3 \<Rightarrow> real" where
  "dot a b = vx a * vx b + vy a * vy b + vz a * vz b"

definition negate :: "vec3 \<Rightarrow> vec3" where
  "negate v = Vector3 (- vx v) (- vy v) (- vz v)"

record plane =
  p_normal :: vec3
  p_constant :: real

text \<open>\<open>new THREE.Plane ()\<close>: normal \<open>(1, 0, 0)\<close>, constant \<open>0\<close>.\<close>

definition new_Plane :: plane where
  "new_Plane = \<lparr>p_normal = Vector3 1 0 0, p_constant = 0\<rparr>"

definition setComponents :: "real \<Rightarrow> real \<Rightarrow> real \<Rightarrow> real \<Rightarrow> plane" where
  "setComponents a b c w = \<lparr>p_normal = Vector3 a b c, p_constant = w\<rparr>"

definition setFromNormalAndCoplanarPoint :: "vec3 \<Rightarrow> vec3 \<Rightarrow> plane" where
  "setFromNormalAndCoplanarPoint n p = \<lparr>p_normal = n, p_constant = - dot p n\<rparr>"

text \<open>The left-hand side of the plane equation: \<open>dot (normal, p) + constant\<close>.\<close>

definition distanceToPoint :: "plane \<Rightarrow> vec3 \<Rightarrow> real" where
  "distanceToPoint pl p = dot (p_normal pl) p + p_constant pl"

record box3 =
  bmin :: vec3
  bmax :: vec3

text \<open>
  \<open>Box3.isEmpty\<close> of three.js: the box holds no point, that is, its maximum lies below
  its minimum on some axis. A box whose corners coincide holds one point and is not empty.
  \<open>getSize\<close> and \<open>getCenter\<close> answer the zero vector for an empty box.
\<close>

definition isEmpty :: "box3 \<Rightarrow> bool" where
  "isEmpty b \<longleftrightarrow>
     vx (bmax b) < vx (bmin b) \<or> vy (bmax b) < vy (bmin b) \<or> vz (bmax b) < vz (bmin b)"

definition getSize :: "box3 \<Rightarrow> vec3" where
  "getSize b =
     (if isEmpty b then Vector3 0 0 0
      else Vector3 (vx (bmax b) - vx (bmin b)) (vy (bmax b) - vy (bmin b))
             (vz (bmax b) - vz (bmin b)))"

definition getCenter :: "box3 \<Rightarrow> vec3" where
  "getCenter b =
     (if isEmpty b then Vector3 0 0 0
      else Vector3 ((vx (bmin b) + vx (bmax b)) * 0.5) ((vy (bmin b) + vy (bmax b)) * 0.5)
             ((vz (bmin b) + vz (bmax b)) * 0.5))"

section \<open>Double precision\<close>

text \<open>
  A JavaScript number is an IEEE 754 double: an integer multiple \<open>m * 2 ^ e\<close> of a
  power of two with \<open>\<bar>m\<bar> < 2 ^ 53\<close> and \<open>- 1074 \<le> e \<le> 971\<close>. Every arithmetic
  operation and every number literal gives the double nearest to the exact value, and of
  two equally near doubles the one with the even multiple.

  \<open>roundTiesToEven\<close> is that rounding for the integers. \<open>ulp_exp x\<close> is the exponent
  of the doubles next to \<open>x\<close>: the least \<open>e\<close> from \<open>- 1074\<close> (the exponent of the
  subnormal numbers) with \<open>\<bar>x\<bar> < 2 ^ (e + 53)\<close>, and at most \<open>971\<close>; the search
  for it starts at \<open>- 1074\<close> and has the \<open>2045\<close> steps that lead to \<open>971\<close>.
  \<open>fl x\<close> is the double nearest to \<open>x\<close>. A result beyond the largest double is
  \<open>Infinity\<close> in JavaScript and outside the model.
\<close>

definition roundTiesToEven :: "real \<Rightarrow> int" where
  "roundTiesToEven y =
     (let n = \<lfloor>y\<rfloor>; r = y - of_int n
      in if r < 1/2 then n else if 1/2 < r then n + 1 else if even n then n else n + 1)"

fun ulp_search :: "nat \<Rightarrow> int \<Rightarrow> real \<Rightarrow> int" where
  "ulp_search 0 e x = e"
| "ulp_search (Suc n) e x = (if \<bar>x\<bar> < 2 powi (e + 53) then e else ulp_search n (e + 1) x)"

definition ulp_exp :: "real \<Rightarrow> int" where
  "ulp_exp x = ulp_search 2045 (- 1074) x"

definition fl :: "real \<Rightarrow> real" where
  "fl x = of_int (roundTiesToEven (x / 2 powi ulp_exp x)) * 2 powi ulp_exp x"

text \<open>
  The numbers that rounding leaves as they are: up to the largest double these are the
  doubles.
\<close>

definition is_double :: "real \<Rightarrow> bool" where
  "is_double x \<longleftrightarrow> fl x = x"

section \<open>The data model\<close>

record bounds =
  minX :: real
  maxX :: real
  minY :: real
  maxY :: real
  minZ :: real
  maxZ :: real

text \<open>\<open>this.bounds[key]\<close> and \<open>this.bounds[key] = a\<close>.\<close>

fun get_bound :: "bounds \<Rightarrow> face \<Rightarrow> real" where
  "get_bound b MinX = minX b"
| "get_bound b MaxX = maxX b"
| "get_bound b MinY = minY b"
| "get_bound b MaxY = maxY b"
| "get_bound b MinZ = minZ b"
| "get_bound b MaxZ = maxZ b"

fun set_bound :: "face \<Rightarrow> real \<Rightarrow> bounds \<Rightarrow> bounds" where
  "set_bound MinX a b = b\<lparr>minX := a\<rparr>"
| "set_bound MaxX a b = b\<lparr>maxX := a\<rparr>"
| "set_bound MinY a b = b\<lparr>minY := a\<rparr>"
| "set_bound MaxY a b = b\<lparr>maxY := a\<rparr>"
| "set_bound MinZ a b = b\<lparr>minZ := a\<rparr>"
| "set_bound MaxZ a b = b\<lparr>maxZ := a\<rparr>"

text \<open>The key \<open>side + axis.toUpperCase ()\<close>, as \<open>UpdateDrag\<close> builds it.\<close>

fun key :: "side \<Rightarrow> axis \<Rightarrow> face" where
  "key SideMin AxisX = MinX"
| "key SideMax AxisX = MaxX"
| "key SideMin AxisY = MinY"
| "key SideMax AxisY = MaxY"
| "key SideMin AxisZ = MinZ"
| "key SideMax AxisZ = MaxZ"

text \<open>A face handle: its \<open>userData\<close>, its material colour and its transform.\<close>

record handle =
  faceName :: face
  faceNormal :: vec3
  axis_of :: axis
  side_of :: side
  h_color :: nat
  h_position :: vec3
  h_scale :: vec3
  h_visible :: bool

text \<open>The wireframe object \<open>edgesHelper\<close>.\<close>

record edges =
  e_position :: vec3
  e_scale :: vec3
  e_visible :: bool

text \<open>
  The children of the overlay scene are the very objects held in \<open>edgesHelper\<close> and
  \<open>faceHandles\<close>; the scene refers to them, a handle by its index in \<open>faceHandles\<close>.
\<close>

datatype obj_ref = EdgesRef | HandleRef nat

text \<open>
  The values \<open>viewer.Render\<close> takes: the host's own draw method, a function bound to the
  viewer (\<open>f.bind (this.viewer)\<close>), and the wrapper \<open>HookRender\<close> installs.
\<close>

datatype render_fn = HostRender | Bound render_fn | OverlayWrapper

text \<open>
  \<open>renderer.clippingPlanes\<close> is either the array \<open>this.planes\<close> itself (shared, so that
  \<open>UpdatePlanes\<close> is seen by the renderer) or an array of its own.
\<close>

datatype clip = SharedPlanes | OwnPlanes "plane list"

text \<open>What the renderer drew, with the clip planes in force during the pass.\<close>

datatype pass = MainPass "plane list" | OverlayPass "plane list"

datatype error = TypeError | RangeError | ForeignObject

record section_box =
  enabled :: bool
  bounds :: bounds
  box :: box3
  planes :: "plane list"
  edgesHelper :: "edges option"
  faceHandles :: "handle list"
  overlayChildren :: "obj_ref list"
  overlayVisible :: bool
  activeFace :: "face option"
  isDragging :: bool
  dragStartPoint :: "vec3 option"
  dragPlane :: "plane option"
  dragStartBound :: "real option"
  originalRender :: "render_fn option"
  viewerRender :: render_fn
  localClippingEnabled :: bool
  clippingPlanes :: clip
  autoClear :: bool
  frames :: "pass list"

text \<open>The visual settings of the constructor; no method writes them.\<close>

definition edgeColor :: nat where "edgeColor = 0x0088cc"
definition handleColor :: nat where "handleColor = 0x0088ff"
definition handleHoverColor :: nat where "handleHoverColor = 0xffaa00"
definition handleActiveColor :: nat where "handleActiveColor = 0xff5500"
definition handleSize :: real where "handleSize = 0.06"

text \<open>Sequencing of steps that may throw.\<close>

definition seq :: "error + 'a \<Rightarrow> ('a \<Rightarrow> error + 'b) \<Rightarrow> error + 'b" where
  "seq r f = (case r of Inl e \<Rightarrow> Inl e | Inr a \<Rightarrow> f a)"

section \<open>The render path\<close>

text \<open>The clip planes the renderer holds at this moment.\<close>

definition current_clip :: "section_box \<Rightarrow> plane list" where
  "current_clip s = (case clippingPlanes s of SharedPlanes \<Rightarrow> planes s | OwnPlanes ps \<Rightarrow> ps)"

text \<open>
  Modelled from the spec: the host's draw entry point (\<open>Viewer.Render\<close>, not under the
  sources at hand) draws the main scene once under the renderer's clip planes.
\<close>

definition host_render :: "section_box \<Rightarrow> section_box" where
  "host_render s = s\<lparr>frames := frames s @ [MainPass (current_clip s)]\<rparr>"

text \<open>Whether calling a function value reaches the wrapper; \<open>bind\<close> only fixes \<open>this\<close>.\<close>

fun calls_wrapper :: "render_fn \<Rightarrow> bool" where
  "calls_wrapper HostRender = False"
| "calls_wrapper (Bound f) = calls_wrapper f"
| "calls_wrapper OverlayWrapper = True"

text \<open>
  \<open>self.originalRender ()\<close> inside the wrapper: calling \<open>null\<close> throws, and an
  \<open>originalRender\<close> that is the wrapper again would call itself without end.
\<close>

definition call_original :: "section_box \<Rightarrow> error + section_box" where
  "call_original s =
     (case originalRender s of
        None \<Rightarrow> Inl TypeError
      | Some f \<Rightarrow> if calls_wrapper f then Inl RangeError else Inr (host_render s))"

definition overlay_pass :: "section_box \<Rightarrow> section_box" where
  "overlay_pass s =
     (if enabled s \<and> length (overlayChildren s) > 0 then
        (let savedClippingPlanes = clippingPlanes s;
             s1 = s\<lparr>clippingPlanes := OwnPlanes []\<rparr>;
             s2 = s1\<lparr>autoClear := False\<rparr>;
             s3 = s2\<lparr>frames := frames s2 @ [OverlayPass (current_clip s2)]\<rparr>;
             s4 = s3\<lparr>autoClear := True\<rparr>
         in s4\<lparr>clippingPlanes := savedClippingPlanes\<rparr>)
      else s)"

definition wrapper :: "section_box \<Rightarrow> error + section_box" where
  "wrapper s = seq (call_original s) (\<lambda>s1. Inr (overlay_pass s1))"

text \<open>\<open>this.viewer.Render ()\<close>.\<close>

definition Render :: "section_box \<Rightarrow> error + section_box" where
  "Render s = (if calls_wrapper (viewerRender s) then wrapper s else Inr (host_render s))"

definition HookRender :: "section_box \<Rightarrow> section_box" where
  "HookRender s =
     (if originalRender s \<noteq> None then s
      else s\<lparr>originalRender := Some (Bound (viewerRender s)), viewerRender := OverlayWrapper\<rparr>)"

definition UnhookRender :: "section_box \<Rightarrow> section_box" where
  "UnhookRender s =
     (case originalRender s of
        None \<Rightarrow> s
      | Some f \<Rightarrow> s\<lparr>viewerRender := f, originalRender := None\<rparr>)"

section \<open>Box, planes and visuals\<close>

definition SyncBoxFromBounds :: "section_box \<Rightarrow> section_box" where
  "SyncBoxFromBounds s =
     s\<lparr>box := \<lparr>bmin = Vector3 (minX (bounds s)) (minY (bounds s)) (minZ (bounds s)),
               bmax = Vector3 (maxX (bounds s)) (maxY (bounds s)) (maxZ (bounds s))\<rparr>\<rparr>"

definition SyncBoundsFromBox :: "section_box \<Rightarrow> section_box" where
  "SyncBoundsFromBox s =
     s\<lparr>bounds := \<lparr>minX = vx (bmin (box s)), maxX = vx (bmax (box s)),
                  minY = vy (bmin (box s)), maxY = vy (bmax (box s)),
                  minZ = vz (bmin (box s)), maxZ = vz (bmax (box s))\<rparr>\<rparr>"

text \<open>
  \<open>UpdatePlanes\<close> writes \<open>this.planes[0]\<close> to \<open>this.planes[5]\<close>; on a shorter array the
  method call on \<open>undefined\<close> throws.
\<close>

definition UpdatePlanes :: "section_box \<Rightarrow> error + section_box" where
  "UpdatePlanes s =
     (if \<not> enabled s then Inr s
      else if length (planes s) < 6 then Inl TypeError
      else
        (let mn = bmin (box s); mx = bmax (box s)
         in Inr (s\<lparr>planes := (planes s)
              [0 := setComponents 1 0 0 (- vx mn),
               1 := setComponents (- 1) 0 0 (vx mx),
               2 := setComponents 0 1 0 (- vy mn),
               3 := setComponents 0 (- 1) 0 (vy mx),
               4 := setComponents 0 0 1 (- vz mn),
               5 := setComponents 0 0 (- 1) (vz mx)]\<rparr>)))"

text \<open>The body of the loop over the handles in \<open>UpdateVisuals\<close>.\<close>

definition place_handle :: "box3 \<Rightarrow> vec3 \<Rightarrow> real \<Rightarrow> handle \<Rightarrow> handle" where
  "place_handle b center actualRadius h =
     (let pos = (if side_of h = SideMin
                 then set_comp (axis_of h) (get_comp (bmin b) (axis_of h)) center
                 else set_comp (axis_of h) (get_comp (bmax b) (axis_of h)) center)
      in h\<lparr>h_position := pos, h_scale := Vector3 actualRadius actualRadius actualRadius\<rparr>)"

text \<open>The minimum size of \<open>UpdateVisuals\<close>, and the radius it gives the handles.\<close>

definition floor_size :: "vec3 \<Rightarrow> vec3" where
  "floor_size sz =
     Vector3 (if vx sz < 0.001 then 0.001 else vx sz)
       (if vy sz < 0.001 then 0.001 else vy sz)
       (if vz sz < 0.001 then 0.001 else vz sz)"

definition actualRadius :: "vec3 \<Rightarrow> real" where
  "actualRadius sz =
     (let handleRadius = min (vx sz) (min (vy sz) (vz sz)) * handleSize;
          minHandleRadius = 0.1
      in max handleRadius minHandleRadius)"

text \<open>
  \<open>UpdateVisuals\<close>. Its guard on \<open>this.overlayScene === null\<close> never fires: the scene
  is made by the constructor and no method clears the field.
\<close>

definition UpdateVisuals :: "section_box \<Rightarrow> section_box" where
  "UpdateVisuals s =
     (let center = getCenter (box s);
          sz = floor_size (getSize (box s))
      in s\<lparr>edgesHelper := map_option (\<lambda>e. e\<lparr>e_position := center, e_scale := sz\<rparr>)
              (edgesHelper s),
           faceHandles := map (place_handle (box s) center (actualRadius sz))
              (faceHandles s)\<rparr>)"

text \<open>The face table of \<open>CreateFaceHandles\<close>.\<close>

record face_def =
  fd_name :: face
  fd_normal :: vec3
  fd_axis :: axis
  fd_side :: side

definition faces :: "face_def list" where
  "faces =
     [\<lparr>fd_name = MinX, fd_normal = Vector3 (- 1) 0 0, fd_axis = AxisX, fd_side = SideMin\<rparr>,
      \<lparr>fd_name = MaxX, fd_normal = Vector3 1 0 0, fd_axis = AxisX, fd_side = SideMax\<rparr>,
      \<lparr>fd_name = MinY, fd_normal = Vector3 0 (- 1) 0, fd_axis = AxisY, fd_side = SideMin\<rparr>,
      \<lparr>fd_name = MaxY, fd_normal = Vector3 0 1 0, fd_axis = AxisY, fd_side = SideMax\<rparr>,
      \<lparr>fd_name = MinZ, fd_normal = Vector3 0 0 (- 1), fd_axis = AxisZ, fd_side = SideMin\<rparr>,
      \<lparr>fd_name = MaxZ, fd_normal = Vector3 0 0 1, fd_axis = AxisZ, fd_side = SideMax\<rparr>]"

text \<open>A new mesh sits at the origin with unit scale and is visible.\<close>

definition new_handle :: "face_def \<Rightarrow> handle" where
  "new_handle fd =
     \<lparr>faceName = fd_name fd, faceNormal = fd_normal fd, axis_of = fd_axis fd,
      side_of = fd_side fd, h_color = handleColor, h_position = Vector3 0 0 0,
      h_scale = Vector3 1 1 1, h_visible = True\<rparr>"

definition new_edges :: edges where
  "new_edges = \<lparr>e_position = Vector3 0 0 0, e_scale = Vector3 1 1 1, e_visible = True\<rparr>"

definition add_handle :: "face_def \<Rightarrow> section_box \<Rightarrow> section_box" where
  "add_handle fd s =
     s\<lparr>faceHandles := faceHandles s @ [new_handle fd],
       overlayChildren := overlayChildren s @ [HandleRef (length (faceHandles s))]\<rparr>"

definition CreateFaceHandles :: "section_box \<Rightarrow> section_box" where
  "CreateFaceHandles s = fold add_handle faces s"

definition CreateVisuals :: "section_box \<Rightarrow> section_box" where
  "CreateVisuals s =
     (if edgesHelper s \<noteq> None then s
      else UpdateVisuals (CreateFaceHandles
             (s\<lparr>edgesHelper := Some new_edges,
                overlayChildren := overlayChildren s @ [EdgesRef]\<rparr>)))"

text \<open>\<open>overlayScene.traverse\<close> visits the scene itself and then each child.\<close>

fun set_visible :: "bool \<Rightarrow> obj_ref \<Rightarrow> section_box \<Rightarrow> section_box" where
  "set_visible v EdgesRef s =
     s\<lparr>edgesHelper := map_option (\<lambda>e. e\<lparr>e_visible := v\<rparr>) (edgesHelper s)\<rparr>"
| "set_visible v (HandleRef i) s =
     s\<lparr>faceHandles := (faceHandles s)[i := (faceHandles s ! i)\<lparr>h_visible := v\<rparr>]\<rparr>"

definition ShowVisuals :: "bool \<Rightarrow> section_box \<Rightarrow> section_box" where
  "ShowVisuals visible s = fold (set_visible visible) (overlayChildren s) (s\<lparr>overlayVisible := visible\<rparr>)"

text \<open>The \<open>visible\<close> flag of the object a child of the scene refers to.\<close>

fun obj_visible :: "section_box \<Rightarrow> obj_ref \<Rightarrow> bool option" where
  "obj_visible s EdgesRef = map_option e_visible (edgesHelper s)"
| "obj_visible s (HandleRef i) =
     (if i < length (faceHandles s) then Some (h_visible (faceHandles s ! i)) else None)"

section \<open>The camera and the raycaster\<close>

text \<open>
  The camera and the raycaster belong to the host engine. The model takes the answers
  of their queries as functions of the pointer position: the hits of the pointer ray on
  the handles (nearest first, each the index of the handle hit and the world point of
  the hit), its intersection with a plane (if any), and the view direction.
\<close>

record vec2 =
  nx :: real
  ny :: real

record camera =
  intersectObjects :: "vec2 \<Rightarrow> handle list \<Rightarrow> (nat \<times> vec3) list"
  intersectPlane :: "vec2 \<Rightarrow> plane \<Rightarrow> vec3 option"
  getWorldDirection :: vec3

section \<open>The data model interface\<close>

text \<open>
  The constructor. \<open>new THREE.Box3 ()\<close> is three.js's empty box, whose corners are
  infinite and so not real numbers: the initial box is the parameter \<open>box0\<close>. The host
  starts with its own draw method, no clip planes and \<open>autoClear\<close> set.
\<close>

definition InitPlanes :: "section_box \<Rightarrow> section_box" where
  "InitPlanes s = fold (\<lambda>i s1. s1\<lparr>planes := planes s1 @ [new_Plane]\<rparr>) [0..<6] s"

definition SectionBox :: "box3 \<Rightarrow> section_box" where
  "SectionBox box0 =
     InitPlanes
       \<lparr>enabled = False,
        bounds = \<lparr>minX = 0, maxX = 1, minY = 0, maxY = 1, minZ = 0, maxZ = 1\<rparr>,
        box = box0,
        planes = [],
        edgesHelper = None,
        faceHandles = [],
        overlayChildren = [],
        overlayVisible = True,
        activeFace = None,
        isDragging = False,
        dragStartPoint = None,
        dragPlane = None,
        dragStartBound = None,
        originalRender = None,
        viewerRender = HostRender,
        localClippingEnabled = False,
        clippingPlanes = OwnPlanes [],
        autoClear = True,
        frames = []\<rparr>"

record box_info =
  i_enabled :: bool
  i_minX :: real
  i_maxX :: real
  i_minY :: real
  i_maxY :: real
  i_minZ :: real
  i_maxZ :: real

definition GetSectionBox :: "section_box \<Rightarrow> box_info" where
  "GetSectionBox s =
     \<lparr>i_enabled = enabled s,
      i_minX = minX (bounds s), i_maxX = maxX (bounds s),
      i_minY = minY (bounds s), i_maxY = maxY (bounds s),
      i_minZ = minZ (bounds s), i_maxZ = maxZ (bounds s)\<rparr>"

definition SetSectionBox :: "bounds \<Rightarrow> section_box \<Rightarrow> error + section_box" where
  "SetSectionBox b s =
     (let s1 = s\<lparr>bounds := \<lparr>minX = minX b, maxX = maxX b, minY = minY b, maxY = maxY b,
                            minZ = minZ b, maxZ = maxZ b\<rparr>\<rparr>
      in seq (UpdatePlanes (UpdateVisuals (SyncBoxFromBounds s1))) Render)"

definition FitToBox :: "box3 option \<Rightarrow> real \<Rightarrow> section_box \<Rightarrow> error + section_box" where
  "FitToBox boundingBox marginFactor s =
     (case boundingBox of
        None \<Rightarrow> Inr s
      | Some bb \<Rightarrow>
          if isEmpty bb then Inr s
          else
            (let sz = getSize bb;
                 margin = Vector3 (vx sz * marginFactor) (vy sz * marginFactor)
                            (vz sz * marginFactor);
                 s1 = s\<lparr>bounds :=
                        \<lparr>minX = vx (bmin bb) - vx margin, maxX = vx (bmax bb) + vx margin,
                         minY = vy (bmin bb) - vy margin, maxY = vy (bmax bb) + vy margin,
                         minZ = vz (bmin bb) - vz margin, maxZ = vz (bmax bb) + vz margin\<rparr>\<rparr>
             in seq (UpdatePlanes (UpdateVisuals (SyncBoxFromBounds s1))) Render))"

text \<open>The default \<open>marginFactor = 0.05\<close>.\<close>

definition FitToBox_default :: "box3 option \<Rightarrow> section_box \<Rightarrow> error + section_box" where
  "FitToBox_default boundingBox s = FitToBox boundingBox 0.05 s"

definition IsEnabled :: "section_box \<Rightarrow> bool" where
  "IsEnabled s = enabled s"

definition Enable :: "bool \<Rightarrow> section_box \<Rightarrow> error + section_box" where
  "Enable isEnabled s =
     (let s1 = s\<lparr>enabled := isEnabled\<rparr>
      in if enabled s1 then
           (let s2 = s1\<lparr>localClippingEnabled := True\<rparr>;
                s3 = s2\<lparr>clippingPlanes := SharedPlanes\<rparr>;
                s4 = ShowVisuals True (CreateVisuals s3)
            in seq (UpdatePlanes s4) (\<lambda>s5. Render (HookRender s5)))
         else
           (let s2 = s1\<lparr>clippingPlanes := OwnPlanes []\<rparr>;
                s3 = ShowVisuals False s2;
                s4 = s3\<lparr>isDragging := False\<rparr>;
                s5 = s4\<lparr>activeFace := None\<rparr>
            in Render (UnhookRender s5)))"

definition EnableSectionBox :: "bool \<Rightarrow> section_box \<Rightarrow> error + section_box" where
  "EnableSectionBox e s = Enable e (s\<lparr>enabled := e\<rparr>)"

definition SetBox :: "box3 option \<Rightarrow> section_box \<Rightarrow> error + section_box" where
  "SetBox b s =
     (case b of
        None \<Rightarrow> Inr s
      | Some bb \<Rightarrow>
          if isEmpty bb then Inr s
          else
            (let s1 = s\<lparr>box := \<lparr>bmin = bmin bb, bmax = bmax bb\<rparr>\<rparr>
             in seq (UpdatePlanes (UpdateVisuals (SyncBoundsFromBox s1))) Render))"

section \<open>Mouse interaction\<close>

text \<open>
  \<open>StartDrag\<close> receives the handle the raycaster hit, here its index in \<open>faceHandles\<close>.
  The raycaster only answers objects of the list it is given; an index outside the
  list stands for an object that is not a handle.
\<close>

definition StartDrag :: "camera \<Rightarrow> nat \<Rightarrow> vec3 \<Rightarrow> section_box \<Rightarrow> error + section_box" where
  "StartDrag cam i hitPoint s =
     (if \<not> i < length (faceHandles s) then Inl ForeignObject
      else
        (let h = faceHandles s ! i;
             s1 = s\<lparr>isDragging := True\<rparr>;
             s2 = s1\<lparr>activeFace := Some (faceName h)\<rparr>;
             s3 = s2\<lparr>dragStartPoint := Some hitPoint\<rparr>;
             cameraDir = getWorldDirection cam;
             s4 = s3\<lparr>dragPlane :=
                    Some (setFromNormalAndCoplanarPoint (negate cameraDir) hitPoint)\<rparr>;
             s5 = s4\<lparr>dragStartBound := Some (get_bound (bounds s4) (faceName h))\<rparr>;
             s6 = s5\<lparr>faceHandles := (faceHandles s5)[i := h\<lparr>h_color := handleActiveColor\<rparr>]\<rparr>
         in Render s6))"

text \<open>
  The constraint step of \<open>UpdateDrag\<close>: the new value of the dragged bound is held
  against the opposite bound of the same axis. The literal \<open>0.01\<close> is the double
  nearest to one hundredth, and the difference and the sum are rounded.
\<close>

definition clamp_bound :: "handle \<Rightarrow> real \<Rightarrow> bounds \<Rightarrow> real" where
  "clamp_bound h newValue bs =
     (let oppositeKey = (if side_of h = SideMin then key SideMax (axis_of h)
                         else key SideMin (axis_of h))
      in if side_of h = SideMin then min newValue (fl (get_bound bs oppositeKey - fl 0.01))
         else max newValue (fl (get_bound bs oppositeKey + fl 0.01)))"

text \<open>
  \<open>UpdateDrag\<close>. A \<open>null\<close> drag plane or start point makes the property read on it
  throw; a \<open>null\<close> start bound counts as \<open>0\<close> in the sum. The difference \<open>delta\<close>
  and the sum \<open>newValue\<close> are rounded.
\<close>

definition UpdateDrag :: "camera \<Rightarrow> vec2 \<Rightarrow> section_box \<Rightarrow> error + section_box" where
  "UpdateDrag cam mouseCoords s =
     (if \<not> isDragging s then Inr s
      else case activeFace s of
        None \<Rightarrow> Inr s
      | Some active \<Rightarrow>
         (case dragPlane s of
            None \<Rightarrow> Inl TypeError
          | Some pl \<Rightarrow>
             (case intersectPlane cam mouseCoords pl of
                None \<Rightarrow> Inr s
              | Some intersection \<Rightarrow>
                 (case find (\<lambda>h. faceName h = active) (faceHandles s) of
                    None \<Rightarrow> Inr s
                  | Some h \<Rightarrow>
                     (case dragStartPoint s of
                        None \<Rightarrow> Inl TypeError
                      | Some startPoint \<Rightarrow>
                         (let ax = axis_of h;
                              delta = fl (get_comp intersection ax - get_comp startPoint ax);
                              newValue = fl ((case dragStartBound s of None \<Rightarrow> 0 | Some b \<Rightarrow> b)
                                               + delta);
                              s1 = s\<lparr>bounds := set_bound active
                                     (clamp_bound h newValue (bounds s)) (bounds s)\<rparr>
                          in seq (UpdatePlanes (UpdateVisuals (SyncBoxFromBounds s1)))
                               Render))))))"

text \<open>\<open>find\<close> answers the first match, and the method then writes to that object.\<close>

fun update_first :: "('a \<Rightarrow> bool) \<Rightarrow> ('a \<Rightarrow> 'a) \<Rightarrow> 'a list \<Rightarrow> 'a list" where
  "update_first P f [] = []"
| "update_first P f (x # xs) = (if P x then f x # xs else x # update_first P f xs)"

definition EndDrag :: "section_box \<Rightarrow> error + section_box" where
  "EndDrag s =
     (let s1 = (case activeFace s of
                  None \<Rightarrow> s
                | Some active \<Rightarrow>
                    s\<lparr>faceHandles := update_first (\<lambda>h. faceName h = active)
                         (\<lambda>h. h\<lparr>h_color := handleColor\<rparr>) (faceHandles s)\<rparr>);
          s2 = s1\<lparr>isDragging := False\<rparr>;
          s3 = s2\<lparr>activeFace := None\<rparr>;
          s4 = s3\<lparr>dragStartPoint := None\<rparr>;
          s5 = s4\<lparr>dragPlane := None\<rparr>;
          s6 = s5\<lparr>dragStartBound := None\<rparr>
      in Render s6)"

text \<open>The handlers answer whether they consumed the event, with the new state.\<close>

definition OnMouseDown ::
  "camera \<Rightarrow> vec2 \<Rightarrow> nat \<Rightarrow> section_box \<Rightarrow> error + (bool \<times> section_box)" where
  "OnMouseDown cam mouseCoords button s =
     (if \<not> enabled s \<or> length (faceHandles s) = 0 \<or> button \<noteq> 1 then Inr (False, s)
      else case intersectObjects cam mouseCoords (faceHandles s) of
        [] \<Rightarrow> Inr (False, s)
      | (i, point) # _ \<Rightarrow> seq (StartDrag cam i point s) (\<lambda>s1. Inr (True, s1)))"

definition OnMouseMove ::
  "camera \<Rightarrow> vec2 \<Rightarrow> section_box \<Rightarrow> error + (bool \<times> section_box)" where
  "OnMouseMove cam mouseCoords s =
     (if \<not> enabled s \<or> length (faceHandles s) = 0 then Inr (False, s)
      else if isDragging s then seq (UpdateDrag cam mouseCoords s) (\<lambda>s1. Inr (True, s1))
      else
        (let intersects = intersectObjects cam mouseCoords (faceHandles s);
             s1 = s\<lparr>faceHandles := map (\<lambda>h. h\<lparr>h_color := handleColor\<rparr>) (faceHandles s)\<rparr>
         in case intersects of
              [] \<Rightarrow> seq (Render s1) (\<lambda>s2. Inr (False, s2))
            | (i, point) # _ \<Rightarrow>
                if \<not> i < length (faceHandles s1) then Inl ForeignObject
                else seq (Render (s1\<lparr>faceHandles := (faceHandles s1)
                            [i := (faceHandles s1 ! i)\<lparr>h_color := handleHoverColor\<rparr>]\<rparr>))
                       (\<lambda>s2. Inr (False, s2))))"

definition OnMouseUp :: "section_box \<Rightarrow> error + (bool \<times> section_box)" where
  "OnMouseUp s =
     (if isDragging s then seq (EndDrag s) (\<lambda>s1. Inr (True, s1)) else Inr (False, s))"

text \<open>
  \<open>ScreenToNDC\<close>. A canvas of width or height \<open>0\<close> gives coordinates that are
  infinite or \<open>NaN\<close>, which are outside the model.
\<close>

definition ScreenToNDC :: "vec2 \<Rightarrow> real \<Rightarrow> real \<Rightarrow> vec2 option" where
  "ScreenToNDC screenCoords width height =
     (if width = 0 \<or> height = 0 then None
      else Some \<lparr>nx = (nx screenCoords / width) * 2 - 1,
                 ny = - (ny screenCoords / height) * 2 + 1\<rparr>)"

section \<open>Cleanup\<close>

text \<open>
  \<open>Dispose\<close> removes the hook, takes the wireframe and the handles out of the overlay
  scene and forgets them. The geometries and materials it releases are not modelled.
\<close>

definition Dispose :: "section_box \<Rightarrow> section_box" where
  "Dispose s =
     (let s1 = UnhookRender s;
          s2 = (case edgesHelper s1 of
                  None \<Rightarrow> s1
                | Some e \<Rightarrow> s1\<lparr>overlayChildren := remove1 EdgesRef (overlayChildren s1),
                                edgesHelper := None\<rparr>);
          s3 = s2\<lparr>overlayChildren :=
                 fold (\<lambda>i cs. remove1 (HandleRef i) cs) [0..<length (faceHandles s2)]
                   (overlayChildren s2)\<rparr>
      in s3\<lparr>faceHandles := []\<rparr>)"

section \<open>Consistent states\<close>

text \<open>
  The states the class can be in keep some facts that the methods rely on without
  checking them. The handles are either absent or the six of the face table, each with
  the \<open>userData\<close> of its face; the children of the overlay scene are the wireframe and
  the handles, in that order; the render hook is either absent or installed once over a
  function that is not the wrapper; and a drag in progress has its face, start point,
  drag plane and start bound.
\<close>

definition ident :: "handle \<Rightarrow> face_def" where
  "ident h = \<lparr>fd_name = faceName h, fd_normal = faceNormal h, fd_axis = axis_of h, fd_side = side_of h\<rparr>"

definition scene_children :: "section_box \<Rightarrow> obj_ref list" where
  "scene_children s =
     (if edgesHelper s = None then [] else [EdgesRef]) @
     map HandleRef [0..<length (faceHandles s)]"

definition hook_ok :: "section_box \<Rightarrow> bool" where
  "hook_ok s \<longleftrightarrow>
     (originalRender s = None \<longrightarrow> \<not> calls_wrapper (viewerRender s)) \<and>
     (originalRender s \<noteq> None \<longrightarrow> viewerRender s = OverlayWrapper) \<and>
     (\<forall>f \<in> set_option (originalRender s). \<not> calls_wrapper f)"

definition handles_ok :: "section_box \<Rightarrow> bool" where
  "handles_ok s \<longleftrightarrow>
     (faceHandles s = [] \<and> edgesHelper s = None) \<or>
     (map ident (faceHandles s) = faces \<and> edgesHelper s \<noteq> None)"

definition drag_ok :: "section_box \<Rightarrow> bool" where
  "drag_ok s \<longleftrightarrow>
     (isDragging s \<longleftrightarrow> activeFace s \<noteq> None) \<and>
     (activeFace s \<noteq> None \<longrightarrow>
        dragStartPoint s \<noteq> None \<and> dragPlane s \<noteq> None \<and> dragStartBound s \<noteq> None)"

definition consistent :: "section_box \<Rightarrow> bool" where
  "consistent s \<longleftrightarrow>
     length (planes s) = 6 \<and> handles_ok s \<and> overlayChildren s = scene_children s \<and>
     hook_ok s \<and> drag_ok s"

text \<open>
  The raycaster answers only objects of the list it was given.
\<close>

definition raycaster_ok :: "camera \<Rightarrow> bool" where
  "raycaster_ok cam \<longleftrightarrow>
     (\<forall>m hs. \<forall>hit \<in> set (intersectObjects cam m hs). fst hit < length hs)"

text \<open>
  The states the interface of the class reaches from the constructor.
\<close>

inductive reachable :: "section_box \<Rightarrow> bool" where
  construct: "reachable (SectionBox box0)"
| enable_section_box: "reachable s \<Longrightarrow> EnableSectionBox e s = Inr s' \<Longrightarrow> reachable s'"
| enable: "reachable s \<Longrightarrow> Enable e s = Inr s' \<Longrightarrow> reachable s'"
| set_section_box: "reachable s \<Longrightarrow> SetSectionBox b s = Inr s' \<Longrightarrow> reachable s'"
| fit_to_box: "reachable s \<Longrightarrow> FitToBox bb mf s = Inr s' \<Longrightarrow> reachable s'"
| set_box: "reachable s \<Longrightarrow> SetBox bb s = Inr s' \<Longrightarrow> reachable s'"
| mouse_down: "reachable s \<Longrightarrow> raycaster_ok cam \<Longrightarrow>
     OnMouseDown cam m button s = Inr (handled, s') \<Longrightarrow> reachable s'"
| mouse_move: "reachable s \<Longrightarrow> raycaster_ok cam \<Longrightarrow>
     OnMouseMove cam m s = Inr (handled, s') \<Longrightarrow> reachable s'"
| mouse_up: "reachable s \<Longrightarrow> OnMouseUp s = Inr (handled, s') \<Longrightarrow> reachable s'"
| dispose: "reachable s \<Longrightarrow> reachable (Dispose s)"

section \<open>What the methods compute on consistent states\<close>

text \<open>
  On a consistent state no step throws, and the results of the composite steps have
  closed forms: \<open>rendered\<close> for a call of \<open>viewer.Render\<close>, \<open>replan\<close> for
  \<open>UpdatePlanes\<close>, \<open>refreshed\<close> for the common tail of the setters
  (\<open>UpdateVisuals\<close>, \<open>UpdatePlanes\<close>, \<open>Render\<close>), \<open>drag_started\<close> and
  \<open>drag_ended\<close> for the field writes of \<open>StartDrag\<close> and \<open>EndDrag\<close>.
\<close>

definition rendered :: "section_box \<Rightarrow> section_box" where
  "rendered s = (if originalRender s = None then host_render s else overlay_pass (host_render s))"

definition derived_planes :: "box3 \<Rightarrow> plane list" where
  "derived_planes b =
     [setComponents 1 0 0 (- vx (bmin b)), setComponents (- 1) 0 0 (vx (bmax b)),
      setComponents 0 1 0 (- vy (bmin b)), setComponents 0 (- 1) 0 (vy (bmax b)),
      setComponents 0 0 1 (- vz (bmin b)), setComponents 0 0 (- 1) (vz (bmax b))]"

definition replan :: "section_box \<Rightarrow> section_box" where
  "replan s = (if enabled s then s\<lparr>planes := derived_planes (box s)\<rparr> else s)"

definition refreshed :: "section_box \<Rightarrow> section_box" where
  "refreshed s = rendered (replan (UpdateVisuals s))"

definition drag_started :: "camera \<Rightarrow> nat \<Rightarrow> vec3 \<Rightarrow> section_box \<Rightarrow> section_box" where
  "drag_started cam i hitPoint s =
     s\<lparr>isDragging := True,
       activeFace := Some (faceName (faceHandles s ! i)),
       dragStartPoint := Some hitPoint,
       dragPlane := Some (setFromNormalAndCoplanarPoint (negate (getWorldDirection cam)) hitPoint),
       dragStartBound := Some (get_bound (bounds s) (faceName (faceHandles s ! i))),
       faceHandles := (faceHandles s)[i := (faceHandles s ! i)\<lparr>h_color := handleActiveColor\<rparr>]\<rparr>"

definition drag_ended :: "section_box \<Rightarrow> section_box" where
  "drag_ended s =
     s\<lparr>faceHandles := (case activeFace s of None \<Rightarrow> faceHandles s
          | Some active \<Rightarrow> update_first (\<lambda>h. faceName h = active)
              (\<lambda>h. h\<lparr>h_color := handleColor\<rparr>) (faceHandles s)),
       isDragging := False, activeFace := None, dragStartPoint := None, dragPlane := None,
       dragStartBound := None\<rparr>"

text \<open>
  The axis and the side of a face key, and the box \<open>SyncBoxFromBounds\<close> builds.
\<close>

fun face_axis :: "face \<Rightarrow> axis" where
  "face_axis MinX = AxisX"
| "face_axis MaxX = AxisX"
| "face_axis MinY = AxisY"
| "face_axis MaxY = AxisY"
| "face_axis MinZ = AxisZ"
| "face_axis MaxZ = AxisZ"

fun face_side :: "face \<Rightarrow> side" where
  "face_side MinX = SideMin"
| "face_side MaxX = SideMax"
| "face_side MinY = SideMin"
| "face_side MaxY = SideMax"
| "face_side MinZ = SideMin"
| "face_side MaxZ = SideMax"

definition box_of_bounds :: "bounds \<Rightarrow> box3" where
  "box_of_bounds bs =
     \<lparr>bmin = Vector3 (minX bs) (minY bs) (minZ bs), bmax = Vector3 (maxX bs) (maxY bs) (maxZ bs)\<rparr>"

text \<open>
  The value a drag update writes to the bound of the face \<open>f\<close>, from the start bound
  and the start point of the drag, the point where the pointer ray meets the drag plane,
  and the bounds before the update: the start bound moved by the travel of the pointer
  along the axis of the face, then held against the opposite bound of that axis. Each of
  the four operations is rounded.
\<close>

definition dragged_bound :: "face \<Rightarrow> real \<Rightarrow> vec3 \<Rightarrow> vec3 \<Rightarrow> bounds \<Rightarrow> real" where
  "dragged_bound f startBound startPoint intersection bs =
     (let newValue = fl (startBound +
            fl (get_comp intersection (face_axis f) - get_comp startPoint (face_axis f)))
      in if face_side f = SideMin
         then min newValue (fl (get_bound bs (key SideMax (face_axis f)) - fl 0.01))
         else max newValue (fl (get_bound bs (key SideMin (face_axis f)) + fl 0.01)))"

text \<open>
  The geometry of a box: the bound a face lies at, the points of a face, the points
  strictly inside, and the index in \<open>this.planes\<close> of the plane that belongs to a face.
\<close>

definition face_bound :: "box3 \<Rightarrow> face \<Rightarrow> real" where
  "face_bound b f =
     (if face_side f = SideMin then get_comp (bmin b) (face_axis f)
      else get_comp (bmax b) (face_axis f))"

definition in_box :: "box3 \<Rightarrow> vec3 \<Rightarrow> bool" where
  "in_box b p \<longleftrightarrow>
     vx (bmin b) \<le> vx p \<and> vx p \<le> vx (bmax b) \<and>
     vy (bmin b) \<le> vy p \<and> vy p \<le> vy (bmax b) \<and>
     vz (bmin b) \<le> vz p \<and> vz p \<le> vz (bmax b)"

definition on_face :: "box3 \<Rightarrow> face \<Rightarrow> vec3 \<Rightarrow> bool" where
  "on_face b f p \<longleftrightarrow> in_box b p \<and> get_comp p (face_axis f) = face_bound b f"

definition strictly_inside :: "box3 \<Rightarrow> vec3 \<Rightarrow> bool" where
  "strictly_inside b p \<longleftrightarrow>
     vx (bmin b) < vx p \<and> vx p < vx (bmax b) \<and>
     vy (bmin b) < vy p \<and> vy p < vy (bmax b) \<and>
     vz (bmin b) < vz p \<and> vz p < vz (bmax b)"

fun plane_index :: "face \<Rightarrow> nat" where
  "plane_index MinX = 0"
| "plane_index MaxX = 1"
| "plane_index MinY = 2"
| "plane_index MaxY = 3"
| "plane_index MinZ = 4"
| "plane_index MaxZ = 5"

text \<open>
  The drag session of a state together with the colours of the handles.
\<close>

definition drag_session ::
  "section_box \<Rightarrow> bool \<times> face option \<times> vec3 option \<times> plane option \<times> real option \<times> nat list" where
  "drag_session s =
     (isDragging s, activeFace s, dragStartPoint s, dragPlane s, dragStartBound s,
      map h_color (faceHandles s))"

section \<open>Concrete states\<close>

text \<open>
  A run of the interface: the constructor (with an empty initial box), \<open>EnableSectionBox (true)\<close>,
  \<open>SetSectionBox\<close> with the unit bounds, which gives \<open>demo_enabled\<close>, and a
  primary-button press on the handle of the face \<open>minX\<close>, which gives
  \<open>demo_dragging\<close>. The camera looks down the z axis; its pointer ray hits the first
  handle when the pointer is at \<open>x = 0\<close>, and meets the drag plane at the pointer's
  \<open>x\<close> unless the pointer is at \<open>y = 0\<close>. \<open>point_box\<close> is a box of volume zero.
  \<open>thin_bounds\<close> are the bounds of a box that is \<open>0.026\<close> wide along \<open>x\<close>, the
  width being the double that the literal \<open>0.026\<close> denotes.
\<close>

definition empty_box :: box3 where
  "empty_box = \<lparr>bmin = Vector3 1 1 1, bmax = Vector3 (- 1) (- 1) (- 1)\<rparr>"

definition unit_bounds :: bounds where
  "unit_bounds = \<lparr>minX = 0, maxX = 1, minY = 0, maxY = 1, minZ = 0, maxZ = 1\<rparr>"

definition thin_bounds :: bounds where
  "thin_bounds = \<lparr>minX = 0, maxX = fl 0.026, minY = 0, maxY = 1, minZ = 0, maxZ = 1\<rparr>"

definition point_box :: box3 where
  "point_box = \<lparr>bmin = Vector3 2 2 2, bmax = Vector3 2 2 2\<rparr>"

definition demo_cam :: camera where
  "demo_cam =
     \<lparr>intersectObjects = (\<lambda>m hs. if hs = [] \<or> nx m \<noteq> 0 then [] else [(0, Vector3 0 0.5 0.5)]),
      intersectPlane = (\<lambda>m pl. if ny m = 0 then None else Some (Vector3 (nx m) 0.5 0.5)),
      getWorldDirection = Vector3 0 0 (- 1)\<rparr>"

definition demo_enabled :: section_box where
  "demo_enabled =
     (SectionBox empty_box)
       \<lparr>enabled := True,
        box := box_of_bounds unit_bounds,
        planes := derived_planes (box_of_bounds unit_bounds),
        edgesHelper := Some \<lparr>e_position = Vector3 0.5 0.5 0.5, e_scale = Vector3 1 1 1,
                             e_visible = True\<rparr>,
        faceHandles := map (place_handle (box_of_bounds unit_bounds) (Vector3 0.5 0.5 0.5) 0.1)
                         (map new_handle faces),
        overlayChildren := [EdgesRef, HandleRef 0, HandleRef 1, HandleRef 2, HandleRef 3,
                            HandleRef 4, HandleRef 5],
        originalRender := Some (Bound HostRender),
        viewerRender := OverlayWrapper,
        localClippingEnabled := True,
        clippingPlanes := SharedPlanes,
        frames := [MainPass (derived_planes empty_box), OverlayPass [],
                   MainPass (derived_planes (box_of_bounds unit_bounds)), OverlayPass []]\<rparr>"

definition demo_dragging :: section_box where
  "demo_dragging =
     demo_enabled
       \<lparr>isDragging := True,
        activeFace := Some MinX,
        dragStartPoint := Some (Vector3 0 0.5 0.5),
        dragPlane := Some (setFromNormalAndCoplanarPoint (Vector3 0 0 1) (Vector3 0 0.5 0.5)),
        dragStartBound := Some 0,
        faceHandles := (faceHandles demo_enabled)
           [0 := (faceHandles demo_enabled ! 0)\<lparr>h_color := handleActiveColor\<rparr>],
        frames := frames demo_enabled @
           [MainPass (derived_planes (box_of_bounds unit_bounds)), OverlayPass []]\<rparr>"

text \<open>
  A second camera, whose pointer ray hits the second handle, the one of \<open>maxX\<close>, when
  the pointer is at \<open>x = 1\<close>, and the state \<open>demo_dragging_max\<close> after a
  primary-button press on that handle in \<open>demo_enabled\<close>.
\<close>

definition demo_cam_max :: camera where
  "demo_cam_max =
     \<lparr>intersectObjects =
        (\<lambda>m hs. if length hs < 2 \<or> nx m \<noteq> 1 then [] else [(1, Vector3 1 0.5 0.5)]),
      intersectPlane = (\<lambda>m pl. if ny m = 0 then None else Some (Vector3 (nx m) 0.5 0.5)),
      getWorldDirection = Vector3 0 0 (- 1)\<rparr>"

definition demo_dragging_max :: section_box where
  "demo_dragging_max = rendered (drag_started demo_cam_max 1 (Vector3 1 0.5 0.5) demo_enabled)"

section \<open>Rounding to double precision\<close>

lemma roundTiesToEven_of_int [simp]: "roundTiesToEven (of_int n) = n"
  by (simp add: roundTiesToEven_def)

lemma roundTiesToEven_0 [simp]: "roundTiesToEven 0 = 0"
  using roundTiesToEven_of_int [of 0] by simp

lemma roundTiesToEven_bounds:
  "\<lfloor>y\<rfloor> \<le> roundTiesToEven y" "roundTiesToEven y \<le> \<lfloor>y\<rfloor> + 1"
  by (simp_all add: roundTiesToEven_def Let_def)

lemma roundTiesToEven_mono:
  assumes "y \<le> z"
  shows "roundTiesToEven y \<le> roundTiesToEven z"
proof (cases "\<lfloor>y\<rfloor> = \<lfloor>z\<rfloor>")
  case True
  with assms show ?thesis by (simp add: roundTiesToEven_def Let_def)
next
  case False
  with assms have "\<lfloor>y\<rfloor> + 1 \<le> \<lfloor>z\<rfloor>" using floor_mono [of y z] by linarith
  with roundTiesToEven_bounds(2) [of y] roundTiesToEven_bounds(1) [of z]
  show ?thesis by linarith
qed

lemma roundTiesToEven_error: "\<bar>of_int (roundTiesToEven y) - y\<bar> \<le> 1/2"
proof -
  have "of_int \<lfloor>y\<rfloor> \<le> y" "y < of_int \<lfloor>y\<rfloor> + 1" by linarith+
  then show ?thesis by (auto simp: roundTiesToEven_def Let_def)
qed

lemma roundTiesToEven_minus: "roundTiesToEven (- y) = - roundTiesToEven y"
proof (cases "y = of_int \<lfloor>y\<rfloor>")
  case True
  then obtain n where "y = of_int n" ..
  then have "- y = of_int (- n)" by simp
  then show ?thesis using \<open>y = of_int n\<close> by (simp only: roundTiesToEven_of_int)
next
  case False
  then have "y \<notin> \<int>" by (auto elim!: Ints_cases)
  with False have fl: "\<lfloor>- y\<rfloor> = - \<lfloor>y\<rfloor> - 1"
    by (simp add: floor_minus ceiling_altdef)
  show ?thesis
    unfolding roundTiesToEven_def Let_def fl by auto
qed

lemma ulp_search_ge: "e \<le> ulp_search n e x"
proof (induction n arbitrary: e)
  case (Suc n)
  from Suc [of "e + 1"] show ?case by simp
qed simp

lemma ulp_search_le: "ulp_search n e x \<le> e + int n"
proof (induction n arbitrary: e)
  case (Suc n)
  from Suc [of "e + 1"] show ?case by simp
qed simp

lemma ulp_search_stop:
  "ulp_search n e x < e + int n \<Longrightarrow> \<bar>x\<bar> < 2 powi (ulp_search n e x + 53)"
proof (induction n arbitrary: e)
  case (Suc n)
  from Suc.IH [of "e + 1"] Suc.prems show ?case by (simp split: if_splits)
qed simp

lemma ulp_search_lower:
  "e < ulp_search n e x \<Longrightarrow> 2 powi (ulp_search n e x + 52) \<le> \<bar>x\<bar>"
proof (induction n arbitrary: e)
  case (Suc n)
  show ?case
  proof (cases "\<bar>x\<bar> < 2 powi (e + 53)")
    case True
    with Suc.prems show ?thesis by simp
  next
    case False
    show ?thesis
    proof (cases "e + 1 < ulp_search n (e + 1) x")
      case True
      from Suc.IH [OF this] False show ?thesis by simp
    next
      case stop: False
      with ulp_search_ge [of "e + 1" n x] have "ulp_search n (e + 1) x = e + 1" by simp
      with False show ?thesis by (simp add: add.commute)
    qed
  qed
qed simp

lemma ulp_search_mono:
  "\<bar>x\<bar> \<le> \<bar>y\<bar> \<Longrightarrow> ulp_search n e x \<le> ulp_search n e y"
proof (induction n arbitrary: e)
  case (Suc n)
  from Suc.IH [OF Suc.prems, of "e + 1"] Suc.prems ulp_search_ge [of "e + 1" n y]
  show ?case by auto
qed simp

lemma ulp_search_abs: "ulp_search n e (- x) = ulp_search n e x"
  by (induction n arbitrary: e) simp_all

lemma ulp_search_eq:
  assumes "e0 \<le> e" and "e \<le> e0 + int n" and "\<bar>x\<bar> < 2 powi (e + 53)"
    and "e0 < e \<longrightarrow> 2 powi (e + 52) \<le> \<bar>x\<bar>"
  shows "ulp_search n e0 x = e"
  using assms
proof (induction n arbitrary: e0)
  case 0
  then show ?case by simp
next
  case (Suc n)
  show ?case
  proof (cases "e0 = e")
    case True
    with Suc.prems show ?thesis by simp
  next
    case False
    with Suc.prems have lt: "e0 < e" and low: "2 powi (e + 52) \<le> \<bar>x\<bar>" by auto
    from lt have "(2::real) powi (e0 + 53) \<le> 2 powi (e + 52)"
      by (intro power_int_increasing) auto
    with low have "\<not> \<bar>x\<bar> < 2 powi (e0 + 53)" by linarith
    moreover have "ulp_search n (e0 + 1) x = e"
      using Suc.prems lt by (intro Suc.IH) auto
    ultimately show ?thesis by simp
  qed
qed

lemma ulp_exp_range: "- 1074 \<le> ulp_exp x" "ulp_exp x \<le> 971"
  using ulp_search_ge [of "- 1074" 2045 x] ulp_search_le [of 2045 "- 1074" x]
  by (simp_all add: ulp_exp_def)

lemma ulp_exp_stop: "ulp_exp x < 971 \<Longrightarrow> \<bar>x\<bar> < 2 powi (ulp_exp x + 53)"
  using ulp_search_stop [of 2045 "- 1074" x] by (simp add: ulp_exp_def)

lemma ulp_exp_lower: "- 1074 < ulp_exp x \<Longrightarrow> 2 powi (ulp_exp x + 52) \<le> \<bar>x\<bar>"
  using ulp_search_lower [of "- 1074" 2045 x] by (simp add: ulp_exp_def)

lemma ulp_exp_mono: "\<bar>x\<bar> \<le> \<bar>y\<bar> \<Longrightarrow> ulp_exp x \<le> ulp_exp y"
  by (simp add: ulp_exp_def ulp_search_mono)

lemma ulp_exp_minus [simp]: "ulp_exp (- x) = ulp_exp x"
  by (simp add: ulp_exp_def ulp_search_abs)

lemma ulp_exp_eq:
  assumes "- 1074 \<le> e" and "e \<le> 971" and "\<bar>x\<bar> < 2 powi (e + 53)"
    and "- 1074 < e \<longrightarrow> 2 powi (e + 52) \<le> \<bar>x\<bar>"
  shows "ulp_exp x = e"
  unfolding ulp_exp_def using assms by (intro ulp_search_eq) auto

lemma ulp_exp_le:
  assumes "- 1074 \<le> e" and "\<bar>x\<bar> < 2 powi (e + 53)"
  shows "ulp_exp x \<le> e"
proof (rule ccontr)
  assume "\<not> ulp_exp x \<le> e"
  then have lt: "e < ulp_exp x" by simp
  with assms(1) have "- 1074 < ulp_exp x" by simp
  then have "2 powi (ulp_exp x + 52) \<le> \<bar>x\<bar>" by (rule ulp_exp_lower)
  moreover from lt have "(2::real) powi (e + 53) \<le> 2 powi (ulp_exp x + 52)"
    by (intro power_int_increasing) auto
  ultimately show False using assms(2) by linarith
qed

text \<open>
  The value of \<open>fl\<close> at a number whose exponent is known.
\<close>

lemma fl_eq:
  assumes "- 1074 \<le> e" and "e \<le> 971" and "\<bar>x\<bar> < 2 powi (e + 53)"
    and "- 1074 < e \<longrightarrow> 2 powi (e + 52) \<le> \<bar>x\<bar>"
  shows "fl x = of_int (roundTiesToEven (x / 2 powi e)) * 2 powi e"
  by (simp add: fl_def ulp_exp_eq [OF assms])

lemma fl_minus: "fl (- x) = - fl x"
  by (simp add: fl_def roundTiesToEven_minus)

lemma fl_0 [simp]: "fl 0 = 0"
  by (simp add: fl_def)

lemma fl_nonneg:
  assumes "0 \<le> x"
  shows "0 \<le> fl x"
proof -
  have "0 \<le> x / 2 powi ulp_exp x" using assms by simp
  from roundTiesToEven_mono [OF this] have "0 \<le> roundTiesToEven (x / 2 powi ulp_exp x)"
    by simp
  then show ?thesis by (simp add: fl_def zero_less_power_int less_imp_le)
qed

lemma fl_mono_nonneg:
  assumes "0 \<le> x" and "x \<le> y"
  shows "fl x \<le> fl y"
proof -
  let ?a = "ulp_exp x" and ?b = "ulp_exp y"
  have pos: "0 < (2::real) powi e" for e by (simp add: zero_less_power_int)
  from assms have ab: "?a \<le> ?b" by (intro ulp_exp_mono) simp
  show ?thesis
  proof (cases "?a = ?b")
    case True
    from assms(2) have "x / 2 powi ?b \<le> y / 2 powi ?b"
      using pos [of ?b] by (simp add: divide_right_mono)
    from roundTiesToEven_mono [OF this] show ?thesis
      using pos [of ?b] by (simp add: fl_def True)
  next
    case False
    with ab have lt: "?a < ?b" by simp
    with ulp_exp_range(2) [of y] have "?a < 971" by simp
    from ulp_exp_stop [OF this] assms(1) have x: "x \<le> 2 powi (?a + 53)" by simp
    from lt ulp_exp_range(1) [of x] have "- 1074 < ?b" by simp
    from ulp_exp_lower [OF this] assms have y: "2 powi (?b + 52) \<le> y" by simp
    have "x / 2 powi ?a \<le> of_int (2 ^ 53)"
      using x pos [of ?a] by (simp add: power_int_add divide_le_eq mult.commute)
    from roundTiesToEven_mono [OF this] have "roundTiesToEven (x / 2 powi ?a) \<le> 2 ^ 53"
      by (simp only: roundTiesToEven_of_int)
    then have "of_int (roundTiesToEven (x / 2 powi ?a)) \<le> (2::real) ^ 53"
      by (metis of_int_le_iff of_int_numeral of_int_power)
    then have 1: "fl x \<le> 2 powi (?a + 53)"
      using pos [of ?a] by (simp add: fl_def power_int_add)
    have "of_int (2 ^ 52) \<le> y / 2 powi ?b"
      using y pos [of ?b] by (simp add: power_int_add le_divide_eq mult.commute)
    from roundTiesToEven_mono [OF this] have "2 ^ 52 \<le> roundTiesToEven (y / 2 powi ?b)"
      by (simp only: roundTiesToEven_of_int)
    then have "(2::real) ^ 52 \<le> of_int (roundTiesToEven (y / 2 powi ?b))"
      by (metis of_int_le_iff of_int_numeral of_int_power)
    then have 2: "2 powi (?b + 52) \<le> fl y"
      using pos [of ?b] by (simp add: fl_def power_int_add mult.commute)
    from lt have "(2::real) powi (?a + 53) \<le> 2 powi (?b + 52)"
      by (intro power_int_increasing) auto
    with 1 2 show ?thesis by linarith
  qed
qed

text \<open>
  Rounding keeps the order of the numbers.
\<close>

lemma fl_mono:
  assumes "x \<le> y"
  shows "fl x \<le> fl y"
proof (cases "0 \<le> x")
  case True
  then show ?thesis using assms by (rule fl_mono_nonneg)
next
  case False
  show ?thesis
  proof (cases "0 \<le> y")
    case True
    from False have "0 \<le> fl (- x)" by (intro fl_nonneg) simp
    with fl_nonneg [OF True] show ?thesis by (simp add: fl_minus)
  next
    case y: False
    with assms have "fl (- y) \<le> fl (- x)" by (intro fl_mono_nonneg) simp_all
    then show ?thesis by (simp add: fl_minus)
  qed
qed

text \<open>
  The rounding error is at most half a unit in the last place: the fraction
  \<open>2 ^ - 53\<close> of the number, or \<open>2 ^ - 1075\<close> for the subnormal numbers.
\<close>

lemma fl_error: "\<bar>fl x - x\<bar> \<le> max (\<bar>x\<bar> / 2 ^ 53) (2 powi (- 1075))"
proof -
  let ?e = "ulp_exp x"
  have pos: "0 < (2::real) powi ?e" by (simp add: zero_less_power_int)
  have "fl x - x = (of_int (roundTiesToEven (x / 2 powi ?e)) - x / 2 powi ?e) * 2 powi ?e"
    using pos by (simp add: fl_def algebra_simps)
  then have "\<bar>fl x - x\<bar> = \<bar>of_int (roundTiesToEven (x / 2 powi ?e)) - x / 2 powi ?e\<bar> * 2 powi ?e"
    using pos by (simp add: abs_mult)
  also have "\<dots> \<le> 1/2 * 2 powi ?e"
    using roundTiesToEven_error [of "x / 2 powi ?e"] pos by (intro mult_right_mono) simp_all
  also have "\<dots> = 2 powi (?e - 1)"
    by (simp add: power_int_diff)
  finally have half: "\<bar>fl x - x\<bar> \<le> 2 powi (?e - 1)" .
  show ?thesis
  proof (cases "?e = - 1074")
    case True
    then have "?e - 1 = - 1075" by simp
    with half have "\<bar>fl x - x\<bar> \<le> 2 powi (- 1075)" by (simp only:)
    then show ?thesis by (rule max.coboundedI2)
  next
    case False
    with ulp_exp_range(1) [of x] have "- 1074 < ?e" by simp
    from ulp_exp_lower [OF this] have "2 powi (?e + 52) / 2 ^ 53 \<le> \<bar>x\<bar> / 2 ^ 53"
      by (simp add: divide_right_mono)
    moreover have "(2::real) powi (?e + 52) / 2 ^ 53 = 2 powi (?e - 1)"
      by (simp add: power_int_add power_int_diff)
    ultimately show ?thesis using half by simp
  qed
qed

text \<open>
  The doubles: a multiple \<open>n * 2 ^ e\<close> with \<open>\<bar>n\<bar> \<le> 2 ^ 53\<close> is its own rounding, and
  so is every rounded number.
\<close>

lemma fl_multiple:
  assumes "ulp_exp (of_int n * 2 powi e) \<le> e"
  shows "fl (of_int n * 2 powi e) = of_int n * 2 powi e"
proof -
  let ?x = "of_int n * (2::real) powi e"
  let ?u = "ulp_exp ?x"
  from assms have k: "e - ?u = int (nat (e - ?u))" by simp
  have p: "(2::real) powi (e - ?u) = of_int (2 ^ nat (e - ?u))"
    by (subst k) (simp only: power_int_of_nat of_int_power of_int_numeral)
  have "?x / 2 powi ?u = of_int n * 2 powi (e - ?u)"
    by (simp add: power_int_diff)
  also have "\<dots> = of_int (n * 2 ^ nat (e - ?u))"
    by (simp only: p of_int_mult)
  finally have "roundTiesToEven (?x / 2 powi ?u) = n * 2 ^ nat (e - ?u)"
    by (simp only: roundTiesToEven_of_int)
  then have "fl ?x = of_int (n * 2 ^ nat (e - ?u)) * 2 powi ?u"
    by (simp only: fl_def)
  also have "\<dots> = of_int n * (2 powi (e - ?u) * 2 powi ?u)"
    by (simp only: p of_int_mult mult.assoc)
  also have "\<dots> = ?x"
    by (simp add: power_int_diff)
  finally show ?thesis .
qed

lemma fl_double_less:
  assumes "- 1074 \<le> e" and "\<bar>n\<bar> < 2 ^ 53"
  shows "fl (of_int n * 2 powi e) = of_int n * 2 powi e"
proof -
  have pos: "0 < (2::real) powi e" by (simp add: zero_less_power_int)
  from assms(2) have "\<bar>of_int n :: real\<bar> < 2 ^ 53"
    by (metis of_int_abs of_int_less_iff of_int_numeral of_int_power)
  then have "\<bar>of_int n * 2 powi e\<bar> < 2 ^ 53 * (2::real) powi e"
    using pos by (simp add: abs_mult)
  then have "\<bar>of_int n * 2 powi e\<bar> < (2::real) powi (e + 53)"
    by (simp add: power_int_add mult.commute)
  with assms(1) have "ulp_exp (of_int n * 2 powi e) \<le> e" by (rule ulp_exp_le)
  then show ?thesis by (rule fl_multiple)
qed

lemma fl_double:
  assumes "- 1074 \<le> e" and "\<bar>n\<bar> \<le> 2 ^ 53"
  shows "fl (of_int n * 2 powi e) = of_int n * 2 powi e"
proof (cases "\<bar>n\<bar> < 2 ^ 53")
  case True
  with assms(1) show ?thesis by (rule fl_double_less)
next
  case False
  with assms(2) have "n = 2 * 2 ^ 52 \<or> n = 2 * (- (2 ^ 52))" by auto
  then obtain k :: int where n: "n = 2 * k" and k: "\<bar>k\<bar> < 2 ^ 53" by auto
  have "of_int n * (2::real) powi e = of_int k * 2 powi (e + 1)"
    by (simp add: n power_int_add)
  moreover from assms(1) have "- 1074 \<le> e + 1" by simp
  then have "fl (of_int k * 2 powi (e + 1)) = of_int k * 2 powi (e + 1)"
    using k by (rule fl_double_less)
  ultimately show ?thesis by simp
qed

lemma fl_idem [simp]: "fl (fl x) = fl x"
proof (cases "ulp_exp x < 971")
  case True
  let ?u = "ulp_exp x"
  have pos: "0 < (2::real) powi ?u" by (simp add: zero_less_power_int)
  from ulp_exp_stop [OF True] have "\<bar>x\<bar> < 2 ^ 53 * 2 powi ?u"
    by (simp add: power_int_add mult.commute)
  then have "\<bar>x / 2 powi ?u\<bar> < 2 ^ 53"
    using pos by (simp add: abs_divide divide_less_eq abs_mult)
  then have "of_int (- (2 ^ 53)) \<le> x / 2 powi ?u" "x / 2 powi ?u \<le> of_int (2 ^ 53)"
    unfolding of_int_minus of_int_power of_int_numeral by linarith+
  then have "- (2 ^ 53) \<le> roundTiesToEven (x / 2 powi ?u)"
    "roundTiesToEven (x / 2 powi ?u) \<le> 2 ^ 53"
    using roundTiesToEven_mono roundTiesToEven_of_int by metis+
  then have "\<bar>roundTiesToEven (x / 2 powi ?u)\<bar> \<le> 2 ^ 53" by simp
  with ulp_exp_range(1) [of x] show ?thesis
    unfolding fl_def [of x] by (rule fl_double)
next
  case False
  with ulp_exp_range(2) [of x] have u: "ulp_exp x = 971" by simp
  have "ulp_exp (of_int (roundTiesToEven (x / 2 powi 971)) * 2 powi 971) \<le> 971"
    by (rule ulp_exp_range)
  then show ?thesis
    unfolding fl_def [of x] u by (rule fl_multiple)
qed

lemma is_double_fl [simp]: "is_double (fl x)"
  by (simp add: is_double_def)

lemma is_double_min_max:
  "is_double x \<Longrightarrow> is_double y \<Longrightarrow> is_double (min x y)"
  "is_double x \<Longrightarrow> is_double y \<Longrightarrow> is_double (max x y)"
  by (simp_all add: min_def max_def)

text \<open>
  The doubles the examples need: the literals \<open>0.01\<close> and \<open>0.026\<close>, and the clamp
  limits below \<open>1\<close> and below \<open>0.026\<close>. The last is a tie, which goes to the even
  multiple above.
\<close>

lemma fl_hundredth: "fl (1/100) = 5764607523034235 / 2 ^ 59"
  by (subst fl_eq [where e = "- 59"]) (simp_all add: roundTiesToEven_def)

lemma fl_one: "fl 1 = 1"
  by (subst fl_eq [where e = "- 52"]) (simp_all add: roundTiesToEven_def)

lemma fl_quarter: "fl (1/4) = 1/4"
  by (subst fl_eq [where e = "- 54"]) (simp_all add: roundTiesToEven_def)

lemma fl_hundred: "fl 100 = 100"
  by (subst fl_eq [where e = "- 46"]) (simp_all add: roundTiesToEven_def)

lemma fl_thin_reduced: "fl (13/500) = 7493989779944505 / 2 ^ 58"
  by (subst fl_eq [where e = "- 58"]) (simp_all add: roundTiesToEven_def)

lemma fl_thin: "fl 0.026 = 7493989779944505 / 2 ^ 58"
  by (simp add: fl_thin_reduced)

lemma fl_limit_one: "fl (1 - fl 0.01) = 8917127262193582 / 2 ^ 53"
  by (simp add: fl_hundredth) (subst fl_eq [where e = "- 53"]; simp add: roundTiesToEven_def)

lemma fl_limit_thin: "fl (fl 0.026 - fl 0.01) = 4611686018427388 / 2 ^ 58"
  by (simp add: fl_hundredth fl_thin_reduced)
    (subst fl_eq [where e = "- 58"]; simp add: roundTiesToEven_def)

lemma fl_sum_thin: "fl (4611686018427388 / 2 ^ 58 + fl 0.01) = 7493989779944506 / 2 ^ 58"
  by (simp add: fl_hundredth) (subst fl_eq [where e = "- 58"]; simp add: roundTiesToEven_def)

lemma fl_limit_large: "fl (2 ^ 53 - fl 0.01) = 2 ^ 53"
  by (simp add: fl_hundredth) (subst fl_eq [where e = 0]; simp add: roundTiesToEven_def)

section \<open>Rendering, visuals and planes\<close>

lemmas consistent_defs = consistent_def handles_ok_def scene_children_def hook_ok_def drag_ok_def

lemma Render_hook_ok: "hook_ok s \<Longrightarrow> Render s = Inr (rendered s)"
  by (auto simp: hook_ok_def Render_def rendered_def wrapper_def call_original_def seq_def host_render_def
      split: option.splits)

lemma rendered_fields [simp]:
  "enabled (rendered s) = enabled s"
  "bounds (rendered s) = bounds s"
  "box (rendered s) = box s"
  "planes (rendered s) = planes s"
  "edgesHelper (rendered s) = edgesHelper s"
  "faceHandles (rendered s) = faceHandles s"
  "overlayChildren (rendered s) = overlayChildren s"
  "overlayVisible (rendered s) = overlayVisible s"
  "activeFace (rendered s) = activeFace s"
  "isDragging (rendered s) = isDragging s"
  "dragStartPoint (rendered s) = dragStartPoint s"
  "dragPlane (rendered s) = dragPlane s"
  "dragStartBound (rendered s) = dragStartBound s"
  "originalRender (rendered s) = originalRender s"
  "viewerRender (rendered s) = viewerRender s"
  "localClippingEnabled (rendered s) = localClippingEnabled s"
  "clippingPlanes (rendered s) = clippingPlanes s"
  by (simp_all add: rendered_def host_render_def overlay_pass_def Let_def)

lemma consistent_rendered [simp]: "consistent (rendered s) = consistent s"
  by (simp add: consistent_defs)

lemma fold_set_visible_handles:
  "n \<le> length (faceHandles s) \<Longrightarrow>
   fold (set_visible v) (map HandleRef [0..<n]) s =
     s\<lparr>faceHandles := map (\<lambda>h. h\<lparr>h_visible := v\<rparr>) (take n (faceHandles s)) @ drop n (faceHandles s)\<rparr>"
proof (induction n)
  case 0
  then show ?case by simp
next
  case (Suc n)
  then show ?case
    by (simp add: take_Suc_conv_app_nth list_update_append  Cons_nth_drop_Suc[symmetric] nth_append)
qed

lemma ShowVisuals_closed:
  assumes "overlayChildren s = scene_children s"
  shows "ShowVisuals v s =
     s\<lparr>overlayVisible := v,
       edgesHelper := map_option (\<lambda>e. e\<lparr>e_visible := v\<rparr>) (edgesHelper s),
       faceHandles := map (\<lambda>h. h\<lparr>h_visible := v\<rparr>) (faceHandles s)\<rparr>"
proof (cases "edgesHelper s")
  case None
  then show ?thesis
    using assms by (simp add: ShowVisuals_def scene_children_def fold_set_visible_handles)
next
  case (Some e)
  then show ?thesis
    using assms by (simp add: ShowVisuals_def scene_children_def fold_set_visible_handles)
qed

lemma bounds_eta [simp]:
  "\<lparr>minX = minX b, maxX = maxX b, minY = minY b, maxY = maxY b, minZ = minZ b, maxZ = maxZ b\<rparr>
   = (b :: bounds)"
  by (cases b) simp

lemma CreateFaceHandles_closed:
  "CreateFaceHandles s =
     s\<lparr>faceHandles := faceHandles s @ map new_handle faces,
       overlayChildren := overlayChildren s @
          map (\<lambda>i. HandleRef (length (faceHandles s) + i)) [0..<6]\<rparr>"
  by (simp add: CreateFaceHandles_def faces_def add_handle_def eval_nat_numeral)

lemma consistent_SectionBox: "consistent (SectionBox b0)"
  by (simp add: consistent_defs SectionBox_def InitPlanes_def eval_nat_numeral)

lemma place_handle_fields [simp]:
  "faceName (place_handle b c r h) = faceName h"
  "faceNormal (place_handle b c r h) = faceNormal h"
  "axis_of (place_handle b c r h) = axis_of h"
  "side_of (place_handle b c r h) = side_of h"
  "h_color (place_handle b c r h) = h_color h"
  "h_visible (place_handle b c r h) = h_visible h"
  "ident (place_handle b c r h) = ident h"
  by (simp_all add: place_handle_def Let_def ident_def)

lemma UpdateVisuals_fields [simp]:
  "enabled (UpdateVisuals s) = enabled s"
  "bounds (UpdateVisuals s) = bounds s"
  "box (UpdateVisuals s) = box s"
  "planes (UpdateVisuals s) = planes s"
  "overlayChildren (UpdateVisuals s) = overlayChildren s"
  "overlayVisible (UpdateVisuals s) = overlayVisible s"
  "activeFace (UpdateVisuals s) = activeFace s"
  "isDragging (UpdateVisuals s) = isDragging s"
  "dragStartPoint (UpdateVisuals s) = dragStartPoint s"
  "dragPlane (UpdateVisuals s) = dragPlane s"
  "dragStartBound (UpdateVisuals s) = dragStartBound s"
  "originalRender (UpdateVisuals s) = originalRender s"
  "viewerRender (UpdateVisuals s) = viewerRender s"
  "localClippingEnabled (UpdateVisuals s) = localClippingEnabled s"
  "clippingPlanes (UpdateVisuals s) = clippingPlanes s"
  "autoClear (UpdateVisuals s) = autoClear s"
  "frames (UpdateVisuals s) = frames s"
  by (simp_all add: UpdateVisuals_def Let_def)

lemma UpdateVisuals_visuals [simp]:
  "length (faceHandles (UpdateVisuals s)) = length (faceHandles s)"
  "map ident (faceHandles (UpdateVisuals s)) = map ident (faceHandles s)"
  "map faceName (faceHandles (UpdateVisuals s)) = map faceName (faceHandles s)"
  "map h_color (faceHandles (UpdateVisuals s)) = map h_color (faceHandles s)"
  "map h_visible (faceHandles (UpdateVisuals s)) = map h_visible (faceHandles s)"
  "(faceHandles (UpdateVisuals s) = []) = (faceHandles s = [])"
  "(edgesHelper (UpdateVisuals s) = None) = (edgesHelper s = None)"
  "map_option e_visible (edgesHelper (UpdateVisuals s)) = map_option e_visible (edgesHelper s)"
  by (simp_all add: UpdateVisuals_def Let_def option.map_comp o_def)

lemma scene_children_UpdateVisuals [simp]: "scene_children (UpdateVisuals s) = scene_children s"
  by (simp add: scene_children_def)

lemma consistent_UpdateVisuals [simp]: "consistent (UpdateVisuals s) = consistent s"
  by (simp add: consistent_def handles_ok_def hook_ok_def drag_ok_def)

lemma list6:
  assumes "length xs = 6"
  obtains a b c d e f where "xs = [a, b, c, d, e, f]"
proof -
  from assms obtain a b c d e f where "xs = [a, b, c, d, e, f]"
    by (auto simp: length_Suc_conv eval_nat_numeral)
  then show thesis by (rule that)
qed

lemma UpdatePlanes_closed:
  assumes "length (planes s) = 6"
  shows "UpdatePlanes s = Inr (replan s)"
proof -
  from assms obtain a b c d e f where "planes s = [a, b, c, d, e, f]"
    by (rule list6)
  then show ?thesis
    by (simp add: UpdatePlanes_def replan_def derived_planes_def Let_def)
qed

lemma replan_fields [simp]:
  "enabled (replan s) = enabled s"
  "bounds (replan s) = bounds s"
  "box (replan s) = box s"
  "edgesHelper (replan s) = edgesHelper s"
  "faceHandles (replan s) = faceHandles s"
  "overlayChildren (replan s) = overlayChildren s"
  "overlayVisible (replan s) = overlayVisible s"
  "activeFace (replan s) = activeFace s"
  "isDragging (replan s) = isDragging s"
  "dragStartPoint (replan s) = dragStartPoint s"
  "dragPlane (replan s) = dragPlane s"
  "dragStartBound (replan s) = dragStartBound s"
  "originalRender (replan s) = originalRender s"
  "viewerRender (replan s) = viewerRender s"
  "localClippingEnabled (replan s) = localClippingEnabled s"
  "clippingPlanes (replan s) = clippingPlanes s"
  "autoClear (replan s) = autoClear s"
  "frames (replan s) = frames s"
  by (simp_all add: replan_def)

lemma length_planes_replan [simp]:
  "length (planes s) = 6 \<Longrightarrow> length (planes (replan s)) = 6"
  by (simp add: replan_def derived_planes_def)

lemma consistent_replan: "consistent s \<Longrightarrow> consistent (replan s)"
  by (simp add: consistent_def handles_ok_def scene_children_def hook_ok_def drag_ok_def)

lemma refresh_closed:
  assumes "consistent s"
  shows "seq (UpdatePlanes (UpdateVisuals s)) Render = Inr (refreshed s)"
proof -
  have "length (planes (UpdateVisuals s)) = 6"
    using assms by (simp add: consistent_def)
  then have "UpdatePlanes (UpdateVisuals s) = Inr (replan (UpdateVisuals s))"
    by (rule UpdatePlanes_closed)
  moreover have "hook_ok (replan (UpdateVisuals s))"
    using assms by (simp add: consistent_def hook_ok_def)
  ultimately show ?thesis
    by (simp add: seq_def refreshed_def Render_hook_ok)
qed

lemma consistent_refreshed: "consistent s \<Longrightarrow> consistent (refreshed s)"
  by (simp add: refreshed_def consistent_replan)

lemma consistent_frame_updates [simp]:
  "consistent (s\<lparr>enabled := e\<rparr>) = consistent s"
  "consistent (s\<lparr>bounds := b\<rparr>) = consistent s"
  "consistent (s\<lparr>box := bx\<rparr>) = consistent s"
  "consistent (s\<lparr>localClippingEnabled := l\<rparr>) = consistent s"
  "consistent (s\<lparr>clippingPlanes := c\<rparr>) = consistent s"
  "consistent (s\<lparr>overlayVisible := v\<rparr>) = consistent s"
  "consistent (s\<lparr>autoClear := a\<rparr>) = consistent s"
  "consistent (s\<lparr>frames := fr\<rparr>) = consistent s"
  by (simp_all add: consistent_def handles_ok_def scene_children_def hook_ok_def drag_ok_def)

lemma consistent_SyncBoxFromBounds [simp]: "consistent (SyncBoxFromBounds s) = consistent s"
  by (simp add: SyncBoxFromBounds_def)

lemma consistent_SyncBoundsFromBox [simp]: "consistent (SyncBoundsFromBox s) = consistent s"
  by (simp add: SyncBoundsFromBox_def)

lemma SetSectionBox_closed:
  "consistent s \<Longrightarrow> SetSectionBox b s = Inr (refreshed (SyncBoxFromBounds (s\<lparr>bounds := b\<rparr>)))"
  by (simp add: SetSectionBox_def Let_def refresh_closed)

lemma FitToBox_closed:
  "consistent s \<Longrightarrow> \<not> isEmpty bb \<Longrightarrow>
   FitToBox (Some bb) m s =
     Inr (refreshed (SyncBoxFromBounds (s\<lparr>bounds :=
        \<lparr>minX = vx (bmin bb) - vx (getSize bb) * m, maxX = vx (bmax bb) + vx (getSize bb) * m,
         minY = vy (bmin bb) - vy (getSize bb) * m, maxY = vy (bmax bb) + vy (getSize bb) * m,
         minZ = vz (bmin bb) - vz (getSize bb) * m, maxZ = vz (bmax bb) + vz (getSize bb) * m\<rparr>\<rparr>)))"
  by (simp add: FitToBox_def Let_def refresh_closed Vector3_def)

lemma consistent_HookRender: "consistent s \<Longrightarrow> consistent (HookRender s)"
  by (auto simp: consistent_defs HookRender_def)

lemma consistent_UnhookRender: "consistent s \<Longrightarrow> consistent (UnhookRender s)"
  by (auto simp: consistent_defs UnhookRender_def split: option.splits)

lemma ident_visible [simp]: "ident (h\<lparr>h_visible := v\<rparr>) = ident h"
  by (simp add: ident_def)

lemma ident_color [simp]: "ident (h\<lparr>h_color := c\<rparr>) = ident h"
  by (simp add: ident_def)

lemma consistent_ShowVisuals: "consistent s \<Longrightarrow> consistent (ShowVisuals v s)"
  by (auto simp: consistent_def ShowVisuals_closed handles_ok_def scene_children_def hook_ok_def
      drag_ok_def o_def)

lemma ident_new_handle [simp]: "ident (new_handle fd) = fd"
  by (simp add: ident_def new_handle_def)

lemma length_faces [simp]: "length faces = 6"
  by (simp add: faces_def)

lemma UpdateVisuals_closed:
  "UpdateVisuals s =
     s\<lparr>edgesHelper := map_option (\<lambda>e. e\<lparr>e_position := getCenter (box s),
                e_scale := floor_size (getSize (box s))\<rparr>) (edgesHelper s),
       faceHandles := map (place_handle (box s) (getCenter (box s))
                (actualRadius (floor_size (getSize (box s))))) (faceHandles s)\<rparr>"
  by (simp add: UpdateVisuals_def Let_def)

lemma consistent_CreateVisuals: "consistent s \<Longrightarrow> consistent (CreateVisuals s)"
  by (auto simp: consistent_def CreateVisuals_def CreateFaceHandles_closed UpdateVisuals_closed
      handles_ok_def scene_children_def hook_ok_def drag_ok_def o_def eval_nat_numeral)

lemma Enable_True_closed:
  assumes "consistent s"
  shows "Enable True s =
     Inr (rendered (HookRender (replan (ShowVisuals True (CreateVisuals
       (s\<lparr>enabled := True, localClippingEnabled := True, clippingPlanes := SharedPlanes\<rparr>))))))"
proof -
  let ?s3 = "s\<lparr>enabled := True, localClippingEnabled := True, clippingPlanes := SharedPlanes\<rparr>"
  let ?s4 = "ShowVisuals True (CreateVisuals ?s3)"
  have i4: "consistent ?s4"
    using assms by (simp add: consistent_ShowVisuals consistent_CreateVisuals)
  then have "UpdatePlanes ?s4 = Inr (replan ?s4)"
    by (simp add: UpdatePlanes_closed consistent_def)
  moreover have "hook_ok (HookRender (replan ?s4))"
    using consistent_HookRender [OF consistent_replan [OF i4]] by (simp add: consistent_def)
  ultimately show ?thesis
    by (simp add: Enable_def Let_def seq_def Render_hook_ok)
qed

lemma consistent_drag_reset: "consistent s \<Longrightarrow> consistent (s\<lparr>isDragging := False, activeFace := None\<rparr>)"
  by (simp add: consistent_defs)

lemma Enable_False_closed:
  assumes "consistent s"
  shows "Enable False s =
     Inr (rendered (UnhookRender
       ((ShowVisuals False (s\<lparr>enabled := False, clippingPlanes := OwnPlanes []\<rparr>))
          \<lparr>isDragging := False, activeFace := None\<rparr>)))"
proof -
  let ?s3 = "ShowVisuals False (s\<lparr>enabled := False, clippingPlanes := OwnPlanes []\<rparr>)"
  have "consistent (?s3\<lparr>isDragging := False, activeFace := None\<rparr>)"
    using assms by (simp add: consistent_ShowVisuals consistent_drag_reset)
  then have "hook_ok (UnhookRender (?s3\<lparr>isDragging := False, activeFace := None\<rparr>))"
    using consistent_UnhookRender by (simp add: consistent_def)
  then show ?thesis
    by (simp add: Enable_def Let_def Render_hook_ok)
qed

lemma consistent_Enable: "consistent s \<Longrightarrow> \<exists>s'. Enable e s = Inr s' \<and> consistent s'"
  by (cases e)
     (simp_all add: Enable_True_closed Enable_False_closed consistent_HookRender consistent_replan
        consistent_ShowVisuals consistent_CreateVisuals consistent_UnhookRender consistent_drag_reset)

lemma consistent_EnableSectionBox: "consistent s \<Longrightarrow> \<exists>s'. EnableSectionBox e s = Inr s' \<and> consistent s'"
  by (simp add: EnableSectionBox_def consistent_Enable)

lemma consistent_SetSectionBox: "consistent s \<Longrightarrow> \<exists>s'. SetSectionBox b s = Inr s' \<and> consistent s'"
  by (simp add: SetSectionBox_closed consistent_refreshed)

lemma consistent_FitToBox: "consistent s \<Longrightarrow> \<exists>s'. FitToBox bb m s = Inr s' \<and> consistent s'"
  by (cases bb; cases "isEmpty (the bb)") (simp_all add: FitToBox_closed consistent_refreshed, simp_all add: FitToBox_def)

lemma consistent_SetBox: "consistent s \<Longrightarrow> \<exists>s'. SetBox bb s = Inr s' \<and> consistent s'"
  by (cases bb) (simp_all add: SetBox_def Let_def refresh_closed consistent_refreshed)

lemma map_ident_update_color [simp]:
  "map ident (xs[i := (xs ! i)\<lparr>h_color := c\<rparr>]) = map ident xs"
  by (cases "i < length xs") (simp_all add: map_update list_update_same_conv list_update_beyond)

lemma map_ident_update_first [simp]:
  "map ident (update_first P (\<lambda>h. h\<lparr>h_color := c\<rparr>) xs) = map ident xs"
  by (induction xs) simp_all

lemma update_first_Nil [simp]: "(update_first P f xs = []) = (xs = [])"
  by (cases xs) simp_all

lemma length_update_first [simp]: "length (update_first P f xs) = length xs"
  by (induction xs) simp_all

lemma map_ident_map_color [simp]:
  "map ident (map (\<lambda>h. h\<lparr>h_color := c\<rparr>) xs) = map ident xs"
  by (induction xs) simp_all

lemma consistent_drag_started: "consistent s \<Longrightarrow> consistent (drag_started cam i p s)"
  by (simp add: consistent_defs drag_started_def)

lemma StartDrag_closed:
  "consistent s \<Longrightarrow> i < length (faceHandles s) \<Longrightarrow>
   StartDrag cam i p s = Inr (rendered (drag_started cam i p s))"
  using consistent_drag_started [of s cam i p]
  by (simp add: StartDrag_def Let_def drag_started_def Render_hook_ok consistent_def)

lemma consistent_drag_ended: "consistent s \<Longrightarrow> consistent (drag_ended s)"
  by (cases "activeFace s") (simp_all add: consistent_defs drag_ended_def)

lemma EndDrag_closed: "consistent s \<Longrightarrow> EndDrag s = Inr (rendered (drag_ended s))"
  using consistent_drag_ended [of s]
  by (cases "activeFace s") (simp_all add: EndDrag_def Let_def drag_ended_def Render_hook_ok consistent_def)

lemma faces_handles:
  assumes "map ident hs = faces"
  obtains h1 h2 h3 h4 h5 h6 where "hs = [h1, h2, h3, h4, h5, h6]"
    and "ident h1 = faces ! 0" and "ident h2 = faces ! 1" and "ident h3 = faces ! 2"
    and "ident h4 = faces ! 3" and "ident h5 = faces ! 4" and "ident h6 = faces ! 5"
proof -
  have "length hs = 6"
    using assms length_faces by (metis length_map)
  then obtain h1 h2 h3 h4 h5 h6 where hs: "hs = [h1, h2, h3, h4, h5, h6]"
    by (rule list6)
  with assms show thesis
    by (intro that [of h1 h2 h3 h4 h5 h6]) (simp_all add: faces_def)
qed

lemma find_handle:
  assumes "map ident hs = faces"
  shows "\<exists>h. find (\<lambda>h. faceName h = f) hs = Some h \<and> faceName h = f \<and>
              key (side_of h) (axis_of h) = f"
proof -
  from assms obtain h1 h2 h3 h4 h5 h6 where hs: "hs = [h1, h2, h3, h4, h5, h6]"
    and "ident h1 = faces ! 0" and "ident h2 = faces ! 1" and "ident h3 = faces ! 2"
    and "ident h4 = faces ! 3" and "ident h5 = faces ! 4" and "ident h6 = faces ! 5"
    by (rule faces_handles)
  then have
    "faceName h1 = MinX \<and> side_of h1 = SideMin \<and> axis_of h1 = AxisX"
    "faceName h2 = MaxX \<and> side_of h2 = SideMax \<and> axis_of h2 = AxisX"
    "faceName h3 = MinY \<and> side_of h3 = SideMin \<and> axis_of h3 = AxisY"
    "faceName h4 = MaxY \<and> side_of h4 = SideMax \<and> axis_of h4 = AxisY"
    "faceName h5 = MinZ \<and> side_of h5 = SideMin \<and> axis_of h5 = AxisZ"
    "faceName h6 = MaxZ \<and> side_of h6 = SideMax \<and> axis_of h6 = AxisZ"
    by (simp_all add: ident_def faces_def)
  with hs show ?thesis
    by (cases f) simp_all
qed

lemma length_handles: "map ident hs = faces \<Longrightarrow> length hs = 6"
  using length_faces by (metis length_map)

lemma UpdateDrag_closed:
  assumes "consistent s" and "isDragging s" and "activeFace s = Some f"
    and "dragPlane s = Some pl" and "intersectPlane cam m pl = Some p"
    and "find (\<lambda>h. faceName h = f) (faceHandles s) = Some h"
    and "dragStartPoint s = Some sp" and "dragStartBound s = Some sb"
  shows "UpdateDrag cam m s =
     Inr (refreshed (SyncBoxFromBounds (s\<lparr>bounds := set_bound f
        (clamp_bound h (fl (sb + fl (get_comp p (axis_of h) - get_comp sp (axis_of h))))
           (bounds s))
        (bounds s)\<rparr>)))"
  using assms by (simp add: UpdateDrag_def Let_def refresh_closed)

section \<open>Drags and mouse events\<close>

lemma consistent_UpdateDrag:
  assumes "consistent s"
  shows "\<exists>s'. UpdateDrag cam m s = Inr s' \<and> consistent s'"
proof (cases "isDragging s")
  case False
  then show ?thesis using assms by (simp add: UpdateDrag_def)
next
  case True
  with assms obtain f pl sp sb where d: "activeFace s = Some f" "dragPlane s = Some pl"
    "dragStartPoint s = Some sp" "dragStartBound s = Some sb"
    by (auto simp: consistent_def drag_ok_def)
  show ?thesis
  proof (cases "intersectPlane cam m pl")
    case None
    then show ?thesis using assms True d by (simp add: UpdateDrag_def)
  next
    case (Some p)
    show ?thesis
    proof (cases "find (\<lambda>h. faceName h = f) (faceHandles s)")
      case None
      then show ?thesis using assms True d Some by (simp add: UpdateDrag_def)
    next
      case (Some h)
      from UpdateDrag_closed [OF assms True d(1) d(2) \<open>intersectPlane cam m pl = Some p\<close> Some d(3) d(4)]
      show ?thesis using assms by (simp add: consistent_refreshed)
    qed
  qed
qed

lemma consistent_OnMouseMove:
  assumes "consistent s" and "raycaster_ok cam"
  shows "\<exists>r. OnMouseMove cam m s = Inr r \<and> consistent (snd r)"
proof (cases "\<not> enabled s \<or> length (faceHandles s) = 0")
  case True
  then show ?thesis using assms by (auto simp: OnMouseMove_def)
next
  case en: False
  show ?thesis
  proof (cases "isDragging s")
    case True
    obtain s' where "UpdateDrag cam m s = Inr s'" "consistent s'"
      using consistent_UpdateDrag [OF assms(1)] by blast
    then show ?thesis using en True by (simp add: OnMouseMove_def seq_def)
  next
    case False
    let ?s1 = "s\<lparr>faceHandles := map (\<lambda>h. h\<lparr>h_color := handleColor\<rparr>) (faceHandles s)\<rparr>"
    have i1: "consistent ?s1" using assms(1) by (simp add: consistent_defs o_def)
    show ?thesis
    proof (cases "intersectObjects cam m (faceHandles s)")
      case Nil
      from i1 have "hook_ok ?s1" by (simp add: consistent_def)
      then have "Render ?s1 = Inr (rendered ?s1)" by (rule Render_hook_ok)
      then show ?thesis
        using en False i1 Nil by (simp add: OnMouseMove_def Let_def seq_def)
    next
      case (Cons hit hits)
      obtain i p where hit: "hit = (i, p)" by (cases hit)
      have il: "i < length (faceHandles s)"
        using Cons assms(2) hit unfolding raycaster_ok_def by (metis fst_conv list.set_intros(1))
      let ?s2 = "?s1\<lparr>faceHandles := (faceHandles ?s1)
                  [i := (faceHandles ?s1 ! i)\<lparr>h_color := handleHoverColor\<rparr>]\<rparr>"
      have i2: "consistent ?s2" using assms(1) by (simp add: consistent_defs o_def)
      then have "hook_ok ?s2" by (simp add: consistent_def)
      then have "Render ?s2 = Inr (rendered ?s2)" by (rule Render_hook_ok)
      then show ?thesis
        using en False Cons hit il i2
        by (simp add: OnMouseMove_def Let_def seq_def)
    qed
  qed
qed

lemma fold_remove_handles:
  "fold (\<lambda>i cs. remove1 (HandleRef i) cs) [0..<n] (map HandleRef [0..<n]) = []"
  if "n = 0 \<or> n = 6"
  using that by (auto simp: eval_nat_numeral)

lemma consistent_Dispose: "consistent s \<Longrightarrow> consistent (Dispose s)"
  by (auto simp: consistent_defs Dispose_def UnhookRender_def Let_def fold_remove_handles length_handles
      split: option.splits)

lemma seq_Inr: "seq r f = Inr t \<longleftrightarrow> (\<exists>u. r = Inr u \<and> f u = Inr t)"
  by (cases r) (simp_all add: seq_def)

lemma OnMouseUp_result:
  "consistent s \<Longrightarrow> \<exists>s'. OnMouseUp s = Inr (isDragging s, s') \<and> consistent s'"
  by (auto simp: OnMouseUp_def EndDrag_closed seq_def consistent_drag_ended)

lemma OnMouseDown_result:
  assumes "consistent s" and "raycaster_ok cam"
  shows "\<exists>s'. OnMouseDown cam m button s =
           Inr (enabled s \<and> faceHandles s \<noteq> [] \<and> button = 1 \<and>
                intersectObjects cam m (faceHandles s) \<noteq> [], s') \<and> consistent s'"
proof (cases "intersectObjects cam m (faceHandles s)")
  case Nil
  then show ?thesis using assms by (auto simp: OnMouseDown_def)
next
  case (Cons hit hits)
  obtain i p where hit: "hit = (i, p)" by (cases hit)
  have "i < length (faceHandles s)"
    using Cons assms(2) hit unfolding raycaster_ok_def by (metis fst_conv list.set_intros(1))
  then show ?thesis
    using assms(1) Cons hit
    by (auto simp: OnMouseDown_def StartDrag_closed seq_def consistent_drag_started)
qed

lemma OnMouseMove_result:
  assumes "consistent s" and "raycaster_ok cam"
  shows "\<exists>s'. OnMouseMove cam m s =
           Inr (enabled s \<and> faceHandles s \<noteq> [] \<and> isDragging s, s') \<and> consistent s'"
  using consistent_OnMouseMove [OF assms, of m]
  by (auto simp: OnMouseMove_def seq_Inr Let_def split: if_splits list.splits)

text \<open>
  Every reachable state is consistent.
\<close>

lemma reachable_consistent: "reachable s \<Longrightarrow> consistent s"
proof (induction rule: reachable.induct)
  case (construct box0)
  show ?case by (rule consistent_SectionBox)
next
  case (enable_section_box s e s')
  then show ?case using consistent_EnableSectionBox [of s e] by auto
next
  case (enable s e s')
  then show ?case using consistent_Enable [of s e] by auto
next
  case (set_section_box s b s')
  then show ?case using consistent_SetSectionBox [of s b] by auto
next
  case (fit_to_box s bb mf s')
  then show ?case using consistent_FitToBox [of s bb mf] by auto
next
  case (set_box s bb s')
  then show ?case using consistent_SetBox [of s bb] by auto
next
  case (mouse_down s cam m button handled s')
  then show ?case using OnMouseDown_result [of s cam m button] by auto
next
  case (mouse_move s cam m handled s')
  then show ?case using OnMouseMove_result [of s cam m] by auto
next
  case (mouse_up s handled s')
  then show ?case using OnMouseUp_result [of s] by auto
next
  case (dispose s)
  then show ?case by (simp add: consistent_Dispose)
qed

section \<open>Frame lemmas\<close>

lemma key_face [simp]: "key (face_side f) (face_axis f) = f"
  by (cases f) simp_all

lemma face_of_key [simp]: "face_side (key sd ax) = sd" "face_axis (key sd ax) = ax"
  by (cases sd; cases ax; simp)+

lemma key_inject: "key sd ax = f \<Longrightarrow> sd = face_side f \<and> ax = face_axis f"
  by auto

lemma SyncBoxFromBounds_fields [simp]:
  "enabled (SyncBoxFromBounds s) = enabled s"
  "bounds (SyncBoxFromBounds s) = bounds s"
  "box (SyncBoxFromBounds s) = box_of_bounds (bounds s)"
  "planes (SyncBoxFromBounds s) = planes s"
  "edgesHelper (SyncBoxFromBounds s) = edgesHelper s"
  "faceHandles (SyncBoxFromBounds s) = faceHandles s"
  "overlayChildren (SyncBoxFromBounds s) = overlayChildren s"
  "overlayVisible (SyncBoxFromBounds s) = overlayVisible s"
  "activeFace (SyncBoxFromBounds s) = activeFace s"
  "isDragging (SyncBoxFromBounds s) = isDragging s"
  "dragStartPoint (SyncBoxFromBounds s) = dragStartPoint s"
  "dragPlane (SyncBoxFromBounds s) = dragPlane s"
  "dragStartBound (SyncBoxFromBounds s) = dragStartBound s"
  "originalRender (SyncBoxFromBounds s) = originalRender s"
  "viewerRender (SyncBoxFromBounds s) = viewerRender s"
  "localClippingEnabled (SyncBoxFromBounds s) = localClippingEnabled s"
  "clippingPlanes (SyncBoxFromBounds s) = clippingPlanes s"
  "autoClear (SyncBoxFromBounds s) = autoClear s"
  "frames (SyncBoxFromBounds s) = frames s"
  by (simp_all add: SyncBoxFromBounds_def box_of_bounds_def)

lemma refreshed_fields [simp]:
  "enabled (refreshed s) = enabled s"
  "bounds (refreshed s) = bounds s"
  "box (refreshed s) = box s"
  "overlayChildren (refreshed s) = overlayChildren s"
  "overlayVisible (refreshed s) = overlayVisible s"
  "activeFace (refreshed s) = activeFace s"
  "isDragging (refreshed s) = isDragging s"
  "dragStartPoint (refreshed s) = dragStartPoint s"
  "dragPlane (refreshed s) = dragPlane s"
  "dragStartBound (refreshed s) = dragStartBound s"
  "originalRender (refreshed s) = originalRender s"
  "viewerRender (refreshed s) = viewerRender s"
  "localClippingEnabled (refreshed s) = localClippingEnabled s"
  "clippingPlanes (refreshed s) = clippingPlanes s"
  by (simp_all add: refreshed_def)

lemma get_set_bound [simp]:
  "get_bound (set_bound f a bs) g = (if g = f then a else get_bound bs g)"
  by (cases f; cases g; simp)

lemma UnhookRender_fields [simp]:
  "enabled (UnhookRender s) = enabled s"
  "bounds (UnhookRender s) = bounds s"
  "box (UnhookRender s) = box s"
  "planes (UnhookRender s) = planes s"
  "edgesHelper (UnhookRender s) = edgesHelper s"
  "faceHandles (UnhookRender s) = faceHandles s"
  "overlayChildren (UnhookRender s) = overlayChildren s"
  "overlayVisible (UnhookRender s) = overlayVisible s"
  "activeFace (UnhookRender s) = activeFace s"
  "isDragging (UnhookRender s) = isDragging s"
  "dragStartPoint (UnhookRender s) = dragStartPoint s"
  "dragPlane (UnhookRender s) = dragPlane s"
  "dragStartBound (UnhookRender s) = dragStartBound s"
  "localClippingEnabled (UnhookRender s) = localClippingEnabled s"
  "clippingPlanes (UnhookRender s) = clippingPlanes s"
  "autoClear (UnhookRender s) = autoClear s"
  "frames (UnhookRender s) = frames s"
  "originalRender (UnhookRender s) = None"
  by (simp_all add: UnhookRender_def split: option.splits)

lemma HookRender_fields [simp]:
  "enabled (HookRender s) = enabled s"
  "bounds (HookRender s) = bounds s"
  "box (HookRender s) = box s"
  "planes (HookRender s) = planes s"
  "edgesHelper (HookRender s) = edgesHelper s"
  "faceHandles (HookRender s) = faceHandles s"
  "overlayChildren (HookRender s) = overlayChildren s"
  "overlayVisible (HookRender s) = overlayVisible s"
  "activeFace (HookRender s) = activeFace s"
  "isDragging (HookRender s) = isDragging s"
  "dragStartPoint (HookRender s) = dragStartPoint s"
  "dragPlane (HookRender s) = dragPlane s"
  "dragStartBound (HookRender s) = dragStartBound s"
  "localClippingEnabled (HookRender s) = localClippingEnabled s"
  "clippingPlanes (HookRender s) = clippingPlanes s"
  "autoClear (HookRender s) = autoClear s"
  "frames (HookRender s) = frames s"
  by (simp_all add: HookRender_def)

lemma set_visible_fields [simp]:
  "enabled (set_visible v r s) = enabled s"
  "bounds (set_visible v r s) = bounds s"
  "box (set_visible v r s) = box s"
  "planes (set_visible v r s) = planes s"
  "overlayChildren (set_visible v r s) = overlayChildren s"
  "overlayVisible (set_visible v r s) = overlayVisible s"
  "activeFace (set_visible v r s) = activeFace s"
  "isDragging (set_visible v r s) = isDragging s"
  "dragStartPoint (set_visible v r s) = dragStartPoint s"
  "dragPlane (set_visible v r s) = dragPlane s"
  "dragStartBound (set_visible v r s) = dragStartBound s"
  "originalRender (set_visible v r s) = originalRender s"
  "viewerRender (set_visible v r s) = viewerRender s"
  "localClippingEnabled (set_visible v r s) = localClippingEnabled s"
  "clippingPlanes (set_visible v r s) = clippingPlanes s"
  "autoClear (set_visible v r s) = autoClear s"
  "frames (set_visible v r s) = frames s"
  by (cases r; simp)+

lemma fold_set_visible_fields [simp]:
  "enabled (fold (set_visible v) rs s) = enabled s"
  "bounds (fold (set_visible v) rs s) = bounds s"
  "box (fold (set_visible v) rs s) = box s"
  "planes (fold (set_visible v) rs s) = planes s"
  "overlayChildren (fold (set_visible v) rs s) = overlayChildren s"
  "overlayVisible (fold (set_visible v) rs s) = overlayVisible s"
  "activeFace (fold (set_visible v) rs s) = activeFace s"
  "isDragging (fold (set_visible v) rs s) = isDragging s"
  "dragStartPoint (fold (set_visible v) rs s) = dragStartPoint s"
  "dragPlane (fold (set_visible v) rs s) = dragPlane s"
  "dragStartBound (fold (set_visible v) rs s) = dragStartBound s"
  "originalRender (fold (set_visible v) rs s) = originalRender s"
  "viewerRender (fold (set_visible v) rs s) = viewerRender s"
  "localClippingEnabled (fold (set_visible v) rs s) = localClippingEnabled s"
  "clippingPlanes (fold (set_visible v) rs s) = clippingPlanes s"
  "autoClear (fold (set_visible v) rs s) = autoClear s"
  "frames (fold (set_visible v) rs s) = frames s"
  by (induction rs arbitrary: s; simp)+

lemma ShowVisuals_fields [simp]:
  "enabled (ShowVisuals v s) = enabled s"
  "bounds (ShowVisuals v s) = bounds s"
  "box (ShowVisuals v s) = box s"
  "planes (ShowVisuals v s) = planes s"
  "overlayChildren (ShowVisuals v s) = overlayChildren s"
  "overlayVisible (ShowVisuals v s) = v"
  "activeFace (ShowVisuals v s) = activeFace s"
  "isDragging (ShowVisuals v s) = isDragging s"
  "dragStartPoint (ShowVisuals v s) = dragStartPoint s"
  "dragPlane (ShowVisuals v s) = dragPlane s"
  "dragStartBound (ShowVisuals v s) = dragStartBound s"
  "originalRender (ShowVisuals v s) = originalRender s"
  "viewerRender (ShowVisuals v s) = viewerRender s"
  "localClippingEnabled (ShowVisuals v s) = localClippingEnabled s"
  "clippingPlanes (ShowVisuals v s) = clippingPlanes s"
  "autoClear (ShowVisuals v s) = autoClear s"
  "frames (ShowVisuals v s) = frames s"
  by (simp_all add: ShowVisuals_def)

lemma CreateVisuals_fields [simp]:
  "enabled (CreateVisuals s) = enabled s"
  "bounds (CreateVisuals s) = bounds s"
  "box (CreateVisuals s) = box s"
  "planes (CreateVisuals s) = planes s"
  "overlayVisible (CreateVisuals s) = overlayVisible s"
  "activeFace (CreateVisuals s) = activeFace s"
  "isDragging (CreateVisuals s) = isDragging s"
  "dragStartPoint (CreateVisuals s) = dragStartPoint s"
  "dragPlane (CreateVisuals s) = dragPlane s"
  "dragStartBound (CreateVisuals s) = dragStartBound s"
  "originalRender (CreateVisuals s) = originalRender s"
  "viewerRender (CreateVisuals s) = viewerRender s"
  "localClippingEnabled (CreateVisuals s) = localClippingEnabled s"
  "clippingPlanes (CreateVisuals s) = clippingPlanes s"
  "autoClear (CreateVisuals s) = autoClear s"
  "frames (CreateVisuals s) = frames s"
  by (simp_all add: CreateVisuals_def CreateFaceHandles_closed)

lemma EnableSectionBox_Enable: "EnableSectionBox e s = Enable e s"
  by (simp add: EnableSectionBox_def Enable_def)

lemma set_scene_children:
  "r \<in> set (scene_children s) \<longleftrightarrow>
     (r = EdgesRef \<and> edgesHelper s \<noteq> None) \<or> (\<exists>i < length (faceHandles s). r = HandleRef i)"
  by (auto simp: scene_children_def)

lemma scene_children_hidden:
  assumes "r \<in> set (scene_children s)"
  shows "obj_visible (s\<lparr>edgesHelper := map_option (\<lambda>e. e\<lparr>e_visible := v\<rparr>) (edgesHelper s),
            faceHandles := map (\<lambda>h. h\<lparr>h_visible := v\<rparr>) (faceHandles s)\<rparr>) r = Some v"
  using assms unfolding set_scene_children by auto

lemma current_clip_rendered [simp]: "current_clip (rendered s) = current_clip s"
  by (simp add: current_clip_def split: clip.splits)

lemma obj_visible_cong:
  "edgesHelper s = edgesHelper t \<Longrightarrow> faceHandles s = faceHandles t \<Longrightarrow>
   obj_visible s r = obj_visible t r"
  by (cases r) simp_all

lemma frames_rendered_hooked:
  "originalRender s \<noteq> None \<Longrightarrow> enabled s \<Longrightarrow> overlayChildren s \<noteq> [] \<Longrightarrow>
   frames (rendered s) = frames s @ [MainPass (current_clip s), OverlayPass []]"
  by (simp add: rendered_def overlay_pass_def host_render_def current_clip_def Let_def)

lemma frames_rendered_unhooked:
  "originalRender s = None \<Longrightarrow> frames (rendered s) = frames s @ [MainPass (current_clip s)]"
  by (simp add: rendered_def host_render_def)

lemma rendered_hooked:
  "originalRender s \<noteq> None \<Longrightarrow> enabled s \<Longrightarrow> overlayChildren s \<noteq> [] \<Longrightarrow>
   rendered s = s\<lparr>autoClear := True,
                  frames := frames s @ [MainPass (current_clip s), OverlayPass []]\<rparr>"
  by (auto simp: rendered_def overlay_pass_def host_render_def current_clip_def Let_def)

lemma overlayChildren_CreateVisuals_nonempty:
  "consistent s \<Longrightarrow> overlayChildren (CreateVisuals s) \<noteq> []"
  by (auto simp: CreateVisuals_def CreateFaceHandles_closed consistent_def handles_ok_def
      scene_children_def)

text \<open>
  The flag \<open>enabled\<close> is kept by every method but \<open>Enable\<close>, in any state.
\<close>

lemma Render_enabled: "Render s = Inr t \<Longrightarrow> enabled t = enabled s"
  by (auto simp: Render_def wrapper_def call_original_def seq_Inr overlay_pass_def host_render_def
      Let_def split: option.splits if_splits)

lemma UpdatePlanes_enabled: "UpdatePlanes s = Inr t \<Longrightarrow> enabled t = enabled s"
  by (auto simp: UpdatePlanes_def Let_def split: if_splits)

lemma refresh_enabled:
  "seq (UpdatePlanes (UpdateVisuals s)) Render = Inr t \<Longrightarrow> enabled t = enabled s"
  by (auto simp: seq_Inr dest!: Render_enabled UpdatePlanes_enabled)

lemma SetSectionBox_enabled: "SetSectionBox b s = Inr t \<Longrightarrow> enabled t = enabled s"
  by (auto simp: SetSectionBox_def Let_def dest!: refresh_enabled)

lemma FitToBox_enabled: "FitToBox bb mf s = Inr t \<Longrightarrow> enabled t = enabled s"
  by (auto simp: FitToBox_def Let_def split: option.splits if_splits dest!: refresh_enabled)

lemma SetBox_enabled: "SetBox bb s = Inr t \<Longrightarrow> enabled t = enabled s"
  by (auto simp: SetBox_def Let_def SyncBoundsFromBox_def split: option.splits if_splits
      dest!: refresh_enabled)

lemma StartDrag_enabled: "StartDrag cam i p s = Inr t \<Longrightarrow> enabled t = enabled s"
  by (auto simp: StartDrag_def Let_def split: if_splits dest!: Render_enabled)

lemma UpdateDrag_enabled: "UpdateDrag cam m s = Inr t \<Longrightarrow> enabled t = enabled s"
  by (auto simp: UpdateDrag_def Let_def split: if_splits option.splits dest!: refresh_enabled)

lemma EndDrag_enabled: "EndDrag s = Inr t \<Longrightarrow> enabled t = enabled s"
  by (auto simp: EndDrag_def Let_def split: option.splits dest!: Render_enabled)

lemma OnMouseDown_enabled:
  "OnMouseDown cam m button s = Inr r \<Longrightarrow> enabled (snd r) = enabled s"
  by (auto simp: OnMouseDown_def seq_Inr split: if_splits list.splits dest!: StartDrag_enabled)

lemma OnMouseMove_enabled:
  "OnMouseMove cam m s = Inr r \<Longrightarrow> enabled (snd r) = enabled s"
  by (auto simp: OnMouseMove_def seq_Inr Let_def split: if_splits list.splits
      dest!: UpdateDrag_enabled Render_enabled)

lemma OnMouseUp_enabled: "OnMouseUp s = Inr r \<Longrightarrow> enabled (snd r) = enabled s"
  by (auto simp: OnMouseUp_def seq_Inr split: if_splits dest!: EndDrag_enabled)

lemma Dispose_enabled: "enabled (Dispose s) = enabled s"
  by (simp add: Dispose_def Let_def split: option.splits)

lemma Enable_sets_enabled: "Enable e s = Inr t \<Longrightarrow> enabled t = e"
  by (auto simp: Enable_def Let_def seq_Inr split: if_splits
      dest!: Render_enabled UpdatePlanes_enabled)

section \<open>Enabling and disabling\<close>

lemma Enable_True_hook:
  assumes "consistent s"
  shows "\<exists>s1. Enable True s = Inr s1 \<and> consistent s1 \<and> enabled s1 \<and>
           overlayChildren s1 \<noteq> [] \<and> clippingPlanes s1 = SharedPlanes \<and>
           viewerRender s1 = OverlayWrapper \<and>
           originalRender s1 =
             (case originalRender s of None \<Rightarrow> Some (Bound (viewerRender s)) | Some f \<Rightarrow> Some f) \<and>
           frames s1 = frames s @ [MainPass (planes s1), OverlayPass []]"
proof -
  let ?s3 = "s\<lparr>enabled := True, localClippingEnabled := True, clippingPlanes := SharedPlanes\<rparr>"
  let ?y = "HookRender (replan (ShowVisuals True (CreateVisuals ?s3)))"
  have run: "Enable True s = Inr (rendered ?y)"
    by (rule Enable_True_closed [OF assms])
  have c: "consistent (rendered ?y)"
    using assms
    by (simp add: consistent_HookRender consistent_replan consistent_ShowVisuals
        consistent_CreateVisuals)
  have ne: "overlayChildren ?y \<noteq> []"
    using assms by (simp add: overlayChildren_CreateVisuals_nonempty)
  have hk: "hook_ok s" using assms by (simp add: consistent_def)
  have orig: "originalRender ?y =
      (case originalRender s of None \<Rightarrow> Some (Bound (viewerRender s)) | Some f \<Rightarrow> Some f)"
    by (simp add: HookRender_def split: option.splits)
  have vr: "viewerRender ?y = OverlayWrapper"
    using hk by (auto simp: HookRender_def hook_ok_def)
  have fr: "frames (rendered ?y) = frames ?y @ [MainPass (current_clip ?y), OverlayPass []]"
    using ne orig by (intro frames_rendered_hooked) (simp_all split: option.splits)
  have cc: "current_clip ?y = planes ?y"
    by (simp add: current_clip_def)
  show ?thesis
    unfolding run using c ne orig vr fr cc by simp
qed

lemma Enable_True_fresh:
  assumes "consistent s" and "edgesHelper s = None"
  shows "Enable True s =
     Inr (s\<lparr>enabled := True,
            planes := derived_planes (box s),
            edgesHelper := Some \<lparr>e_position = getCenter (box s),
                                 e_scale = floor_size (getSize (box s)), e_visible = True\<rparr>,
            faceHandles := map (place_handle (box s) (getCenter (box s))
                                  (actualRadius (floor_size (getSize (box s)))))
                             (map new_handle faces),
            overlayChildren := [EdgesRef, HandleRef 0, HandleRef 1, HandleRef 2, HandleRef 3,
                                HandleRef 4, HandleRef 5],
            overlayVisible := True,
            originalRender := (case originalRender s of None \<Rightarrow> Some (Bound (viewerRender s))
                               | Some f \<Rightarrow> Some f),
            viewerRender := OverlayWrapper,
            localClippingEnabled := True,
            clippingPlanes := SharedPlanes,
            autoClear := True,
            frames := frames s @ [MainPass (derived_planes (box s)), OverlayPass []]\<rparr>)"
proof -
  let ?s3 = "s\<lparr>enabled := True, localClippingEnabled := True, clippingPlanes := SharedPlanes\<rparr>"
  let ?c = "CreateVisuals ?s3"
  have fh: "faceHandles s = []" "overlayChildren s = []"
    using assms by (auto simp: consistent_def handles_ok_def scene_children_def)
  have c: "?c = ?s3\<lparr>edgesHelper := Some \<lparr>e_position = getCenter (box s),
                                 e_scale = floor_size (getSize (box s)), e_visible = True\<rparr>,
            faceHandles := map (place_handle (box s) (getCenter (box s))
                                  (actualRadius (floor_size (getSize (box s)))))
                             (map new_handle faces),
            overlayChildren := [EdgesRef, HandleRef 0, HandleRef 1, HandleRef 2, HandleRef 3,
                                HandleRef 4, HandleRef 5]\<rparr>"
    using assms(2) fh
    by (simp add: CreateVisuals_def CreateFaceHandles_closed UpdateVisuals_closed new_edges_def
        eval_nat_numeral)
  have cc: "consistent ?c" using assms(1) by (simp add: consistent_CreateVisuals)
  then have ch: "overlayChildren ?c = scene_children ?c" by (simp add: consistent_def)
  have hk: "hook_ok s" using assms(1) by (simp add: consistent_def)
  have sv: "ShowVisuals True ?c = ?c\<lparr>overlayVisible := True\<rparr>"
    unfolding ShowVisuals_closed [OF ch] unfolding c
    by (simp add: o_def place_handle_def new_handle_def Let_def faces_def)
  show ?thesis
    unfolding Enable_True_closed [OF assms(1)] sv
    using hk unfolding c
    by (cases "originalRender s")
       (simp_all add: rendered_hooked HookRender_def replan_def current_clip_def hook_ok_def)
qed

lemma Enable_False_unhook:
  assumes "consistent s" and "originalRender s = Some f"
  shows "\<exists>s'. Enable False s = Inr s' \<and> viewerRender s' = f \<and> originalRender s' = None \<and>
           frames s' = frames s @ [MainPass []]"
  using assms
  by (simp add: Enable_False_closed UnhookRender_def frames_rendered_unhooked current_clip_def)

lemma Enable_False_result:
  assumes "consistent s"
  shows "\<exists>s'. EnableSectionBox False s = Inr s' \<and> Enable False s = Inr s' \<and>
           clippingPlanes s' = OwnPlanes [] \<and> current_clip s' = [] \<and>
           overlayVisible s' = False \<and>
           (\<forall>r \<in> set (overlayChildren s'). obj_visible s' r = Some False) \<and>
           overlayChildren s' = overlayChildren s \<and>
           bounds s' = bounds s"
proof -
  let ?s1 = "s\<lparr>enabled := False, clippingPlanes := OwnPlanes []\<rparr>"
  let ?hidden = "?s1\<lparr>overlayVisible := False,
       edgesHelper := map_option (\<lambda>e. e\<lparr>e_visible := False\<rparr>) (edgesHelper ?s1),
       faceHandles := map (\<lambda>h. h\<lparr>h_visible := False\<rparr>) (faceHandles ?s1)\<rparr>"
  let ?s' = "rendered (UnhookRender (?hidden\<lparr>isDragging := False, activeFace := None\<rparr>))"
  have ch: "overlayChildren ?s1 = scene_children ?s1"
    using assms by (simp add: consistent_def scene_children_def)
  have run: "Enable False s = Inr ?s'"
    using assms by (simp add: Enable_False_closed ShowVisuals_closed [OF ch])
  have vis: "obj_visible ?s' r = Some False" if "r \<in> set (overlayChildren s)" for r
  proof -
    from that ch have "r \<in> set (scene_children ?s1)" by simp
    then have "obj_visible (?s1\<lparr>edgesHelper := map_option (\<lambda>e. e\<lparr>e_visible := False\<rparr>) (edgesHelper ?s1),
            faceHandles := map (\<lambda>h. h\<lparr>h_visible := False\<rparr>) (faceHandles ?s1)\<rparr>) r = Some False"
      by (rule scene_children_hidden)
    moreover have "obj_visible ?s' r = obj_visible (?s1\<lparr>edgesHelper := map_option (\<lambda>e. e\<lparr>e_visible := False\<rparr>) (edgesHelper ?s1),
            faceHandles := map (\<lambda>h. h\<lparr>h_visible := False\<rparr>) (faceHandles ?s1)\<rparr>) r"
      by (rule obj_visible_cong) simp_all
    ultimately show ?thesis by simp
  qed
  show ?thesis
    unfolding EnableSectionBox_Enable run using vis
    by (simp add: current_clip_def)
qed

section \<open>The concrete states\<close>

lemma map_ident_place [simp]: "map ident (map (place_handle b c r) hs) = map ident hs"
  by (induction hs) simp_all

lemma map_ident_new [simp]: "map ident (map new_handle fs) = fs"
  by (induction fs) simp_all

lemma SectionBox_closed:
  "SectionBox box0 =
     \<lparr>enabled = False,
      bounds = \<lparr>minX = 0, maxX = 1, minY = 0, maxY = 1, minZ = 0, maxZ = 1\<rparr>,
      box = box0,
      planes = [new_Plane, new_Plane, new_Plane, new_Plane, new_Plane, new_Plane],
      edgesHelper = None, faceHandles = [], overlayChildren = [], overlayVisible = True,
      activeFace = None, isDragging = False, dragStartPoint = None, dragPlane = None,
      dragStartBound = None, originalRender = None, viewerRender = HostRender,
      localClippingEnabled = False, clippingPlanes = OwnPlanes [], autoClear = True,
      frames = []\<rparr>"
  by (simp add: SectionBox_def InitPlanes_def eval_nat_numeral)

lemma consistent_demo_enabled: "consistent demo_enabled"
  by (simp add: consistent_defs demo_enabled_def SectionBox_closed derived_planes_def
      eval_nat_numeral o_def)

lemma consistent_demo_dragging: "consistent demo_dragging"
  using consistent_demo_enabled by (simp add: consistent_defs demo_dragging_def)

lemma demo_enabled_fields:
  "enabled demo_enabled" "length (planes demo_enabled) = 6"
  "box demo_enabled = box_of_bounds (bounds demo_enabled)"
  "bounds demo_enabled = unit_bounds" "originalRender demo_enabled \<noteq> None"
  by (simp_all add: demo_enabled_def SectionBox_closed derived_planes_def unit_bounds_def)

lemma demo_dragging_fields:
  "isDragging demo_dragging" "activeFace demo_dragging = Some MinX"
  "faceHandles demo_dragging \<noteq> []"
  "dragPlane demo_dragging = Some (setFromNormalAndCoplanarPoint (Vector3 0 0 1) (Vector3 0 0.5 0.5))"
  "bounds demo_dragging = unit_bounds" "enabled demo_dragging"
  by (simp_all add: demo_dragging_def demo_enabled_def SectionBox_closed faces_def unit_bounds_def)

lemma raycaster_ok_demo_cam: "raycaster_ok demo_cam"
  by (auto simp: raycaster_ok_def demo_cam_def)

lemma unit_box_geometry:
  "getCenter (box_of_bounds unit_bounds) = Vector3 0.5 0.5 0.5"
  "floor_size (getSize (box_of_bounds unit_bounds)) = Vector3 1 1 1"
  "actualRadius (Vector3 1 1 1) = 0.1"
  by (simp_all add: getCenter_def getSize_def isEmpty_def floor_size_def actualRadius_def
      box_of_bounds_def unit_bounds_def Vector3_def handleSize_def Let_def)

lemma place_handle_twice [simp]:
  "place_handle b c r (place_handle b' c' r' h) = place_handle b c r h"
  by (simp add: place_handle_def Let_def)

lemma place_handle_visible_new [simp]:
  "place_handle b c r ((new_handle fd)\<lparr>h_visible := True\<rparr>) = place_handle b c r (new_handle fd)"
  by (simp add: place_handle_def Let_def new_handle_def)

lemma demo_enabled_reached:
  "seq (EnableSectionBox True (SectionBox empty_box)) (SetSectionBox unit_bounds) = Inr demo_enabled"
proof -
  define a where "a = (SectionBox empty_box)
       \<lparr>enabled := True,
        planes := derived_planes empty_box,
        edgesHelper := Some \<lparr>e_position = getCenter empty_box,
                             e_scale = floor_size (getSize empty_box), e_visible = True\<rparr>,
        faceHandles := map (place_handle empty_box (getCenter empty_box)
                              (actualRadius (floor_size (getSize empty_box))))
                         (map new_handle faces),
        overlayChildren := [EdgesRef, HandleRef 0, HandleRef 1, HandleRef 2, HandleRef 3,
                            HandleRef 4, HandleRef 5],
        overlayVisible := True,
        originalRender := Some (Bound HostRender),
        viewerRender := OverlayWrapper,
        localClippingEnabled := True,
        clippingPlanes := SharedPlanes,
        autoClear := True,
        frames := [MainPass (derived_planes empty_box), OverlayPass []]\<rparr>"
  have c0: "consistent (SectionBox empty_box)" by (rule consistent_SectionBox)
  have "Enable True (SectionBox empty_box) = Inr a"
    unfolding a_def
    by (subst Enable_True_fresh [OF c0]) (simp_all add: SectionBox_closed)
  then have ea: "EnableSectionBox True (SectionBox empty_box) = Inr a"
    by (simp add: EnableSectionBox_Enable)
  have ca: "consistent a"
    using consistent_EnableSectionBox [OF c0, of True] ea by simp
  have fa: "enabled a" "originalRender a \<noteq> None" "overlayChildren a \<noteq> []"
    "clippingPlanes a = SharedPlanes"
    by (simp_all add: a_def)
  have "refreshed (SyncBoxFromBounds (a\<lparr>bounds := unit_bounds\<rparr>)) = demo_enabled"
    unfolding refreshed_def
    apply (subst rendered_hooked)
       apply (simp_all add: fa)
    apply (simp add: replan_def fa UpdateVisuals_closed unit_box_geometry current_clip_def)
    apply (simp add: a_def demo_enabled_def SectionBox_closed unit_bounds_def o_def)
    done
  then show ?thesis
    by (simp add: ea seq_def SetSectionBox_closed [OF ca])
qed

lemma demo_dragging_reached:
  "OnMouseDown demo_cam \<lparr>nx = 0, ny = 0\<rparr> 1 demo_enabled = Inr (True, demo_dragging)"
proof -
  have fa: "enabled demo_enabled" "originalRender demo_enabled \<noteq> None"
    "overlayChildren demo_enabled \<noteq> []" "clippingPlanes demo_enabled = SharedPlanes"
    "faceHandles demo_enabled \<noteq> []" "0 < length (faceHandles demo_enabled)"
    "faceName (faceHandles demo_enabled ! 0) = MinX"
    "bounds demo_enabled = unit_bounds"
    by (simp_all add: demo_enabled_def faces_def SectionBox_closed unit_bounds_def new_handle_def)
  have hit: "intersectObjects demo_cam \<lparr>nx = 0, ny = 0\<rparr> (faceHandles demo_enabled)
      = [(0, Vector3 0 0.5 0.5)]"
    using fa(5) by (simp add: demo_cam_def)
  have "rendered (drag_started demo_cam 0 (Vector3 0 0.5 0.5) demo_enabled) = demo_dragging"
    apply (subst rendered_hooked)
       apply (simp_all add: drag_started_def fa)
    apply (simp add: demo_dragging_def fa current_clip_def demo_cam_def negate_def unit_bounds_def)
    apply (simp add: demo_enabled_def SectionBox_closed Vector3_def unit_bounds_def)
    done
  then show ?thesis
    using fa hit
    by (simp add: OnMouseDown_def seq_def StartDrag_closed [OF consistent_demo_enabled fa(6)])
qed

lemma reachable_demo_dragging: "reachable demo_dragging"
proof -
  have "reachable (SectionBox empty_box)" by (rule reachable.construct)
  moreover obtain a where a: "EnableSectionBox True (SectionBox empty_box) = Inr a"
    "SetSectionBox unit_bounds a = Inr demo_enabled"
    using demo_enabled_reached by (auto simp: seq_Inr)
  ultimately have "reachable demo_enabled"
    by (blast intro: reachable.enable_section_box reachable.set_section_box)
  then show ?thesis
    using demo_dragging_reached raycaster_ok_demo_cam by (blast intro: reachable.mouse_down)
qed

section \<open>The drag update\<close>

text \<open>
  A drag update that finds its intersection writes \<open>dragged_bound\<close> to the bound of
  the active face and refreshes the box, the visuals and the planes.
\<close>

lemma UpdateDrag_result:
  assumes "consistent s" and "isDragging s" and "activeFace s = Some f" and "faceHandles s \<noteq> []"
    and "dragPlane s = Some pl" and "intersectPlane cam m pl = Some p"
  shows "\<exists>sp sb. dragStartPoint s = Some sp \<and> dragStartBound s = Some sb \<and>
           UpdateDrag cam m s =
             Inr (refreshed (SyncBoxFromBounds
                    (s\<lparr>bounds := set_bound f (dragged_bound f sb sp p (bounds s)) (bounds s)\<rparr>)))"
proof -
  from assms(1,4) have "map ident (faceHandles s) = faces"
    by (auto simp: consistent_def handles_ok_def)
  then obtain h where h: "find (\<lambda>h. faceName h = f) (faceHandles s) = Some h"
    and hk: "key (side_of h) (axis_of h) = f"
    using find_handle by blast
  from hk have sd: "side_of h = face_side f" and ax: "axis_of h = face_axis f"
    by auto
  from assms(1,3) obtain sp sb where sp: "dragStartPoint s = Some sp"
    and sb: "dragStartBound s = Some sb"
    by (auto simp: consistent_def drag_ok_def)
  have "clamp_bound h (fl (sb + fl (get_comp p (axis_of h) - get_comp sp (axis_of h)))) (bounds s)
      = dragged_bound f sb sp p (bounds s)"
    by (simp add: clamp_bound_def dragged_bound_def sd ax Let_def)
  with UpdateDrag_closed [OF assms(1,2,3,5,6) h sp sb] sp sb show ?thesis
    by simp
qed

text \<open>
  The limits of the clamp. The double that \<open>0.01\<close> denotes lies above one hundredth;
  the rounded limit lies within one rounding error of the exact one, and on the near side
  of an opposite bound that is a double.
\<close>

lemma hundredth_le_fl: "0.01 \<le> fl 0.01"
  by (simp add: fl_hundredth)

lemma fl_hundredth_nonneg: "0 \<le> fl 0.01"
  by (simp add: fl_hundredth)

lemma limit_below:
  "fl (x - fl 0.01) + 0.01 \<le> x + max (\<bar>x - fl 0.01\<bar> / 2 ^ 53) (2 powi (- 1075))"
  using fl_error [of "x - fl 0.01"] hundredth_le_fl by linarith

lemma limit_above:
  "x + 0.01 \<le> fl (x + fl 0.01) + max (\<bar>x + fl 0.01\<bar> / 2 ^ 53) (2 powi (- 1075))"
  using fl_error [of "x + fl 0.01"] hundredth_le_fl by linarith

lemma limit_le:
  assumes "is_double x"
  shows "fl (x - fl 0.01) \<le> x"
proof -
  have "x - fl 0.01 \<le> x" using fl_hundredth_nonneg by simp
  from fl_mono [OF this] assms show ?thesis by (simp add: is_double_def)
qed

lemma limit_ge:
  assumes "is_double x"
  shows "x \<le> fl (x + fl 0.01)"
proof -
  have "x \<le> x + fl 0.01" using fl_hundredth_nonneg by simp
  from fl_mono [OF this] assms show ?thesis by (simp add: is_double_def)
qed

lemma is_double_dragged_bound [simp]: "is_double (dragged_bound f sb sp p bs)"
  by (simp add: dragged_bound_def Let_def is_double_min_max)

text \<open>
  The values of the examples: a drag of \<open>minX\<close> from \<open>0\<close> to \<open>x = 100\<close> and to
  \<open>x = 0.25\<close> in the unit box, to \<open>x = 100\<close> in the thin box, and to
  \<open>x = 2 ^ 54\<close> in a box with \<open>maxX = 2 ^ 53\<close>, where the limit
  \<open>maxX - 0.01\<close> rounds to \<open>maxX\<close> itself and the two bounds meet.
\<close>

lemma demo_dragging_start:
  "dragStartPoint demo_dragging = Some (Vector3 0 0.5 0.5)"
  "dragStartBound demo_dragging = Some 0"
  by (simp_all add: demo_dragging_def)

lemma dragged_bound_demo_far:
  "dragged_bound MinX 0 (Vector3 0 0.5 0.5) (Vector3 100 0.5 0.5) unit_bounds
     = 8917127262193582 / 2 ^ 53"
  by (simp add: dragged_bound_def unit_bounds_def Vector3_def fl_hundredth fl_hundred)
    (subst fl_eq [where e = "- 53"]; simp add: roundTiesToEven_def)

lemma dragged_bound_demo_quarter:
  "dragged_bound MinX 0 (Vector3 0 0.5 0.5) (Vector3 0.25 0.5 0.5) unit_bounds = 0.25"
  by (simp add: dragged_bound_def unit_bounds_def Vector3_def fl_hundredth fl_quarter)
    (subst fl_eq [where e = "- 53"]; simp add: roundTiesToEven_def)

lemma dragged_bound_thin:
  "dragged_bound MinX 0 (Vector3 0 0.5 0.5) (Vector3 100 0.5 0.5) thin_bounds
     = 4611686018427388 / 2 ^ 58"
  by (simp add: dragged_bound_def thin_bounds_def Vector3_def fl_hundredth fl_hundred
      fl_thin_reduced)
    (subst fl_eq [where e = "- 58"]; simp add: roundTiesToEven_def)

lemma fl_large: "fl 18014398509481984 = 18014398509481984"
  by (subst fl_eq [where e = 2]) (simp_all add: roundTiesToEven_def)

lemma dragged_bound_touches:
  "dragged_bound MinX 0 (Vector3 0 0 0) (Vector3 (2 ^ 54) 0 0)
     \<lparr>minX = 0, maxX = 2 ^ 53, minY = 0, maxY = 1, minZ = 0, maxZ = 1\<rparr> = 2 ^ 53"
  by (simp add: dragged_bound_def Vector3_def fl_hundredth fl_large)
    (subst fl_eq [where e = 0]; simp add: roundTiesToEven_def)

lemma reachable_demo_enabled: "reachable demo_enabled"
proof -
  have "reachable (SectionBox empty_box)" by (rule reachable.construct)
  moreover obtain a where a: "EnableSectionBox True (SectionBox empty_box) = Inr a"
    "SetSectionBox unit_bounds a = Inr demo_enabled"
    using demo_enabled_reached by (auto simp: seq_Inr)
  ultimately show ?thesis
    by (blast intro: reachable.enable_section_box reachable.set_section_box)
qed

text \<open>
  The press on the handle of \<open>maxX\<close>, and a drag of \<open>maxX\<close> from \<open>1\<close> to
  \<open>x = - 100\<close> in the unit box.
\<close>

lemma raycaster_ok_demo_cam_max: "raycaster_ok demo_cam_max"
  by (auto simp: raycaster_ok_def demo_cam_max_def)

lemma demo_dragging_max_reached:
  "OnMouseDown demo_cam_max \<lparr>nx = 1, ny = 0\<rparr> 1 demo_enabled = Inr (True, demo_dragging_max)"
proof -
  have fa: "enabled demo_enabled" "length (faceHandles demo_enabled) = 6"
    by (simp_all add: demo_enabled_def faces_def)
  then have hit: "intersectObjects demo_cam_max \<lparr>nx = 1, ny = 0\<rparr> (faceHandles demo_enabled)
      = [(1, Vector3 1 0.5 0.5)]"
    by (simp add: demo_cam_max_def)
  from fa have i: "Suc 0 < length (faceHandles demo_enabled)" by simp
  show ?thesis
    using fa hit
    by (simp add: OnMouseDown_def seq_def StartDrag_closed [OF consistent_demo_enabled i]
        demo_dragging_max_def)
qed

lemma reachable_demo_dragging_max: "reachable demo_dragging_max"
  using reachable_demo_enabled demo_dragging_max_reached raycaster_ok_demo_cam_max
  by (blast intro: reachable.mouse_down)

lemma consistent_demo_dragging_max: "consistent demo_dragging_max"
  using reachable_demo_dragging_max by (rule reachable_consistent)

lemma demo_dragging_max_fields:
  "isDragging demo_dragging_max" "activeFace demo_dragging_max = Some MaxX"
  "faceHandles demo_dragging_max \<noteq> []"
  "dragPlane demo_dragging_max = Some (setFromNormalAndCoplanarPoint (Vector3 0 0 1) (Vector3 1 0.5 0.5))"
  "bounds demo_dragging_max = unit_bounds"
  "dragStartPoint demo_dragging_max = Some (Vector3 1 0.5 0.5)"
  "dragStartBound demo_dragging_max = Some 1"
  by (simp_all add: demo_dragging_max_def drag_started_def demo_enabled_def SectionBox_closed
      faces_def unit_bounds_def new_handle_def demo_cam_max_def negate_def Vector3_def)

lemma fl_hundredth_double:
  "fl (5764607523034235 / 576460752303423488) = 5764607523034235 / 576460752303423488"
  using fl_idem [of "1/100"] by (simp add: fl_hundredth)

lemma fl_minus_hundred: "fl (- 100) = - 100"
  by (simp add: fl_minus fl_hundred)

lemma fl_101: "fl 101 = 101"
  by (subst fl_eq [where e = "- 46"]) (simp_all add: roundTiesToEven_def)

lemma dragged_bound_demo_max:
  "dragged_bound MaxX 1 (Vector3 1 0.5 0.5) (Vector3 (- 100) 0.5 0.5) unit_bounds
     = 5764607523034235 / 2 ^ 59"
  by (simp add: dragged_bound_def unit_bounds_def Vector3_def fl_hundredth fl_minus_hundred
      fl_minus [of 101, simplified] fl_101 fl_hundredth_double)

section \<open>Dragging against the opposite bound\<close>

text \<open>
  Claim C1 says that after every drag update that found its intersection the dragged axis
  satisfies \<open>min + 0.01 \<le> max\<close>. The clamp computes its limit in double precision,
  and the rounded limit can lie less than \<open>0.01\<close> from the opposite bound. With
  \<open>maxX = 0.026\<close> the difference \<open>maxX - 0.01\<close> falls halfway between two doubles
  and is rounded up, to \<open>4611686018427388 / 2 ^ 58\<close>, which prints as \<open>0.016\<close>. A drag
  of \<open>minX\<close> past \<open>maxX\<close> stores that limit, and then \<open>minX + 0.01\<close> exceeds
  \<open>maxX\<close>, as an exact sum and as the rounded sum \<open>0.026000000000000002\<close> of the
  program. The run: on the enabled box \<open>demo_enabled\<close>, \<open>SetSectionBox\<close> with
  \<open>thin_bounds\<close>, a primary-button press on the handle of \<open>minX\<close>, and a drag
  update with the pointer ray at \<open>x = 100\<close>.
\<close>

theorem UpdateDrag_margin_counterexample:
  "\<exists>s1 s2 s3. reachable demo_enabled \<and>
      SetSectionBox thin_bounds demo_enabled = Inr s1 \<and>
      OnMouseDown demo_cam \<lparr>nx = 0, ny = 0\<rparr> 1 s1 = Inr (True, s2) \<and>
      reachable s2 \<and> isDragging s2 \<and> activeFace s2 = Some MinX \<and>
      dragPlane s2 = Some (setFromNormalAndCoplanarPoint (Vector3 0 0 1) (Vector3 0 0.5 0.5)) \<and>
      intersectPlane demo_cam \<lparr>nx = 100, ny = 1\<rparr>
        (setFromNormalAndCoplanarPoint (Vector3 0 0 1) (Vector3 0 0.5 0.5))
          = Some (Vector3 100 0.5 0.5) \<and>
      UpdateDrag demo_cam \<lparr>nx = 100, ny = 1\<rparr> s2 = Inr s3 \<and>
      maxX (bounds s3) = 7493989779944505 / 2 ^ 58 \<and>
      minX (bounds s3) = 4611686018427388 / 2 ^ 58 \<and>
      maxX (bounds s3) < minX (bounds s3) + 0.01 \<and>
      maxX (bounds s3) < fl (minX (bounds s3) + fl 0.01)"
proof -
  define s1 where "s1 = refreshed (SyncBoxFromBounds (demo_enabled\<lparr>bounds := thin_bounds\<rparr>))"
  define s2 where "s2 = rendered (drag_started demo_cam 0 (Vector3 0 0.5 0.5) s1)"
  have set: "SetSectionBox thin_bounds demo_enabled = Inr s1"
    unfolding s1_def by (rule SetSectionBox_closed [OF consistent_demo_enabled])
  have c1: "consistent s1"
    unfolding s1_def using consistent_demo_enabled by (simp add: consistent_refreshed)
  have hs: "faceHandles s1 \<noteq> []"
    by (simp add: s1_def refreshed_def demo_enabled_def faces_def)
  with c1 have "map ident (faceHandles s1) = faces"
    by (auto simp: consistent_def handles_ok_def)
  then obtain h1 h2 h3 h4 h5 h6 where "faceHandles s1 = [h1, h2, h3, h4, h5, h6]"
    and "ident h1 = faces ! 0"
    by (rule faces_handles)
  then have f1: "0 < length (faceHandles s1)" "faceName (faceHandles s1 ! 0) = MinX"
    by (simp_all add: ident_def faces_def)
  have e1: "enabled s1" "bounds s1 = thin_bounds"
    by (simp_all add: s1_def demo_enabled_fields)
  have hit: "intersectObjects demo_cam \<lparr>nx = 0, ny = 0\<rparr> (faceHandles s1) = [(0, Vector3 0 0.5 0.5)]"
    using hs by (simp add: demo_cam_def)
  have down: "OnMouseDown demo_cam \<lparr>nx = 0, ny = 0\<rparr> 1 s1 = Inr (True, s2)"
    using hs e1 hit by (simp add: OnMouseDown_def seq_def StartDrag_closed [OF c1 f1(1)] s2_def)
  have r2: "reachable s2"
    using reachable_demo_enabled set down raycaster_ok_demo_cam
    by (blast intro: reachable.set_section_box reachable.mouse_down)
  then have c2: "consistent s2" by (rule reachable_consistent)
  have d2: "isDragging s2" "activeFace s2 = Some MinX" "faceHandles s2 \<noteq> []"
    "dragPlane s2 = Some (setFromNormalAndCoplanarPoint (Vector3 0 0 1) (Vector3 0 0.5 0.5))"
    "dragStartPoint s2 = Some (Vector3 0 0.5 0.5)" "dragStartBound s2 = Some 0"
    "bounds s2 = thin_bounds"
    using hs f1 e1
    by (simp_all add: s2_def drag_started_def demo_cam_def negate_def Vector3_def thin_bounds_def)
  have ip: "intersectPlane demo_cam \<lparr>nx = 100, ny = 1\<rparr>
     (setFromNormalAndCoplanarPoint (Vector3 0 0 1) (Vector3 0 0.5 0.5)) = Some (Vector3 100 0.5 0.5)"
    by (simp add: demo_cam_def)
  from UpdateDrag_result [OF c2 d2(1,2,3,4) ip] obtain sp sb where
    sp: "dragStartPoint s2 = Some sp" and sb: "dragStartBound s2 = Some sb"
    and run: "UpdateDrag demo_cam \<lparr>nx = 100, ny = 1\<rparr> s2 =
      Inr (refreshed (SyncBoxFromBounds (s2\<lparr>bounds := set_bound MinX
        (dragged_bound MinX sb sp (Vector3 100 0.5 0.5) (bounds s2)) (bounds s2)\<rparr>)))"
    by blast
  define s3 where "s3 = refreshed (SyncBoxFromBounds (s2\<lparr>bounds := set_bound MinX
        (dragged_bound MinX sb sp (Vector3 100 0.5 0.5) (bounds s2)) (bounds s2)\<rparr>))"
  from sp sb d2(5,6) have start: "sp = Vector3 0 0.5 0.5" "sb = 0" by simp_all
  have "minX (bounds s3) = dragged_bound MinX 0 (Vector3 0 0.5 0.5) (Vector3 100 0.5 0.5) thin_bounds"
    by (simp add: s3_def start d2(7))
  also have "\<dots> = 4611686018427388 / 2 ^ 58" by (rule dragged_bound_thin)
  finally have mn: "minX (bounds s3) = 4611686018427388 / 2 ^ 58" .
  have "maxX (bounds s3) = fl 0.026"
    by (simp add: s3_def d2(7) thin_bounds_def)
  also have "\<dots> = 7493989779944505 / 2 ^ 58" by (rule fl_thin)
  finally have mx: "maxX (bounds s3) = 7493989779944505 / 2 ^ 58" .
  have "(7493989779944505::real) / 2 ^ 58 < 4611686018427388 / 2 ^ 58 + 0.01" by simp
  then have 1: "maxX (bounds s3) < minX (bounds s3) + 0.01"
    by (simp only: mn mx)
  have "(7493989779944505::real) / 2 ^ 58 < fl (4611686018427388 / 2 ^ 58 + fl 0.01)"
    unfolding fl_sum_thin by simp
  then have 2: "maxX (bounds s3) < fl (minX (bounds s3) + fl 0.01)"
    by (simp only: mn mx)
  from run have run: "UpdateDrag demo_cam \<lparr>nx = 100, ny = 1\<rparr> s2 = Inr s3"
    by (simp only: s3_def)
  from 1 2 show ?thesis
    using reachable_demo_enabled set down r2 d2 ip run mn mx by blast
qed

text \<open>
  Claim C1, as amended. After a drag update that found its intersection, however far the
  pointer moved, the dragged bound is a double held at the rounded limit: a min-side face
  at or below \<open>fl (max - fl 0.01)\<close>, a max-side face at or above
  \<open>fl (min + fl 0.01)\<close>, and the opposite bound stays as it was. Hence
  \<open>min + 0.01 \<le> max\<close> holds up to the rounding error of the limit, which is at most
  the fraction \<open>2 ^ - 53\<close> of the limit (and \<open>2 ^ - 1075\<close> for a subnormal limit); and
  the dragged bound never crosses an opposite bound that is a double, though the two may
  meet. The session is a consistent state that is dragging a face and still has its
  handles.
\<close>

theorem UpdateDrag_keeps_rounded_margin:
  assumes "consistent s" and "isDragging s" and "activeFace s = Some f" and "faceHandles s \<noteq> []"
    and "dragPlane s = Some pl" and "intersectPlane cam m pl = Some p"
  shows "\<exists>s'. UpdateDrag cam m s = Inr s' \<and>
           is_double (get_bound (bounds s') f) \<and>
           (face_side f = SideMin \<longrightarrow>
              get_bound (bounds s') (key SideMax (face_axis f))
                = get_bound (bounds s) (key SideMax (face_axis f)) \<and>
              get_bound (bounds s') f
                \<le> fl (get_bound (bounds s) (key SideMax (face_axis f)) - fl 0.01) \<and>
              get_bound (bounds s') f + 0.01
                \<le> get_bound (bounds s') (key SideMax (face_axis f))
                  + max (\<bar>get_bound (bounds s) (key SideMax (face_axis f)) - fl 0.01\<bar> / 2 ^ 53)
                      (2 powi (- 1075)) \<and>
              (is_double (get_bound (bounds s) (key SideMax (face_axis f))) \<longrightarrow>
                 get_bound (bounds s') f \<le> get_bound (bounds s') (key SideMax (face_axis f)))) \<and>
           (face_side f = SideMax \<longrightarrow>
              get_bound (bounds s') (key SideMin (face_axis f))
                = get_bound (bounds s) (key SideMin (face_axis f)) \<and>
              fl (get_bound (bounds s) (key SideMin (face_axis f)) + fl 0.01)
                \<le> get_bound (bounds s') f \<and>
              get_bound (bounds s') (key SideMin (face_axis f)) + 0.01
                \<le> get_bound (bounds s') f
                  + max (\<bar>get_bound (bounds s) (key SideMin (face_axis f)) + fl 0.01\<bar> / 2 ^ 53)
                      (2 powi (- 1075)) \<and>
              (is_double (get_bound (bounds s) (key SideMin (face_axis f))) \<longrightarrow>
                 get_bound (bounds s') (key SideMin (face_axis f)) \<le> get_bound (bounds s') f))"
proof -
  from UpdateDrag_result [OF assms] obtain sp sb where
    run: "UpdateDrag cam m s = Inr (refreshed (SyncBoxFromBounds
            (s\<lparr>bounds := set_bound f (dragged_bound f sb sp p (bounds s)) (bounds s)\<rparr>)))"
    by blast
  let ?v = "dragged_bound f sb sp p (bounds s)"
  show ?thesis
  proof (cases "face_side f")
    case SideMin
    let ?opp = "get_bound (bounds s) (key SideMax (face_axis f))"
    from SideMin have ne: "key SideMax (face_axis f) \<noteq> f" by (cases f) simp_all
    from SideMin have 1: "?v \<le> fl (?opp - fl 0.01)"
      by (simp add: dragged_bound_def Let_def)
    with limit_below [of ?opp]
    have 2: "?v + 0.01 \<le> ?opp + max (\<bar>?opp - fl 0.01\<bar> / 2 ^ 53) (2 powi (- 1075))"
      by linarith
    have 3: "is_double ?opp \<longrightarrow> ?v \<le> ?opp"
      using 1 limit_le [of ?opp] by auto
    show ?thesis
      unfolding run using SideMin ne 1 2 3 by simp
  next
    case SideMax
    let ?opp = "get_bound (bounds s) (key SideMin (face_axis f))"
    from SideMax have ne: "key SideMin (face_axis f) \<noteq> f" by (cases f) simp_all
    from SideMax have 1: "fl (?opp + fl 0.01) \<le> ?v"
      by (simp add: dragged_bound_def Let_def)
    with limit_above [of ?opp]
    have 2: "?opp + 0.01 \<le> ?v + max (\<bar>?opp + fl 0.01\<bar> / 2 ^ 53) (2 powi (- 1075))"
      by linarith
    have 3: "is_double ?opp \<longrightarrow> ?opp \<le> ?v"
      using 1 limit_ge [of ?opp] by auto
    show ?thesis
      unfolding run using SideMax ne 1 2 3 by simp
  qed
qed

text \<open>
  The theorem at the press on \<open>minX\<close> in the unit box, with the pointer dragged to
  \<open>x = 100\<close>, far past \<open>maxX = 1\<close>: the limit, and the new \<open>minX\<close>, is the double
  \<open>8917127262193582 / 2 ^ 53\<close>, which prints as \<open>0.99\<close>. And at the press on
  \<open>maxX\<close>, with the pointer dragged to \<open>x = - 100\<close>, far past \<open>minX = 0\<close>: the
  limit, and the new \<open>maxX\<close>, is the double \<open>5764607523034235 / 2 ^ 59\<close>, which
  prints as \<open>0.01\<close>.
\<close>

theorem UpdateDrag_keeps_rounded_margin_witness:
  "(consistent demo_dragging \<and> isDragging demo_dragging \<and> activeFace demo_dragging = Some MinX \<and>
   faceHandles demo_dragging \<noteq> [] \<and>
   dragPlane demo_dragging =
     Some (setFromNormalAndCoplanarPoint (Vector3 0 0 1) (Vector3 0 0.5 0.5)) \<and>
   intersectPlane demo_cam \<lparr>nx = 100, ny = 1\<rparr>
     (setFromNormalAndCoplanarPoint (Vector3 0 0 1) (Vector3 0 0.5 0.5)) = Some (Vector3 100 0.5 0.5) \<and>
   maxX (bounds demo_dragging) = 1 \<and> is_double 1 \<and>
   fl (1 - fl 0.01) = 8917127262193582 / 2 ^ 53 \<and>
   (\<exists>s'. UpdateDrag demo_cam \<lparr>nx = 100, ny = 1\<rparr> demo_dragging = Inr s' \<and>
      is_double (minX (bounds s')) \<and> maxX (bounds s') = 1 \<and>
      minX (bounds s') = 8917127262193582 / 2 ^ 53 \<and>
      minX (bounds s') \<le> fl (1 - fl 0.01) \<and>
      minX (bounds s') + 0.01 \<le> maxX (bounds s') + 1 / 2 ^ 53 \<and>
      minX (bounds s') \<le> maxX (bounds s'))) \<and>
   (consistent demo_dragging_max \<and> isDragging demo_dragging_max \<and>
   activeFace demo_dragging_max = Some MaxX \<and> faceHandles demo_dragging_max \<noteq> [] \<and>
   dragPlane demo_dragging_max =
     Some (setFromNormalAndCoplanarPoint (Vector3 0 0 1) (Vector3 1 0.5 0.5)) \<and>
   intersectPlane demo_cam_max \<lparr>nx = - 100, ny = 1\<rparr>
     (setFromNormalAndCoplanarPoint (Vector3 0 0 1) (Vector3 1 0.5 0.5))
       = Some (Vector3 (- 100) 0.5 0.5) \<and>
   minX (bounds demo_dragging_max) = 0 \<and> is_double 0 \<and>
   fl (0 + fl 0.01) = 5764607523034235 / 2 ^ 59 \<and>
   (\<exists>s'. UpdateDrag demo_cam_max \<lparr>nx = - 100, ny = 1\<rparr> demo_dragging_max = Inr s' \<and>
      is_double (maxX (bounds s')) \<and> minX (bounds s') = 0 \<and>
      maxX (bounds s') = 5764607523034235 / 2 ^ 59 \<and>
      fl (0 + fl 0.01) \<le> maxX (bounds s') \<and>
      minX (bounds s') + 0.01 \<le> maxX (bounds s') + 1 / 2 ^ 53 \<and>
      minX (bounds s') \<le> maxX (bounds s')))"
  (is "?min_side \<and> ?max_side")
proof
  show ?min_side
  proof -
    have ip: "intersectPlane demo_cam \<lparr>nx = 100, ny = 1\<rparr>
       (setFromNormalAndCoplanarPoint (Vector3 0 0 1) (Vector3 0 0.5 0.5)) = Some (Vector3 100 0.5 0.5)"
      by (simp add: demo_cam_def)
    have one: "is_double 1" by (simp add: is_double_def fl_one)
    have lim: "fl (1 - fl 0.01) = 8917127262193582 / 2 ^ 53"
      by (rule fl_limit_one)
    have err: "max (\<bar>1 - fl 0.01\<bar> / 2 ^ 53) (2 powi (- 1075)) \<le> 1 / 2 ^ 53"
      by (simp add: fl_hundredth)
    have mx: "maxX (bounds demo_dragging) = 1"
      by (simp add: demo_dragging_fields unit_bounds_def)
    from UpdateDrag_keeps_rounded_margin [OF consistent_demo_dragging demo_dragging_fields(1,2,3,4) ip]
    obtain s' where run: "UpdateDrag demo_cam \<lparr>nx = 100, ny = 1\<rparr> demo_dragging = Inr s'"
      and dbl: "is_double (minX (bounds s'))" and opp: "maxX (bounds s') = 1"
      and le: "minX (bounds s') \<le> fl (1 - fl 0.01)"
      and mg: "minX (bounds s') + 0.01
                 \<le> maxX (bounds s') + max (\<bar>1 - fl 0.01\<bar> / 2 ^ 53) (2 powi (- 1075))"
      and ord: "minX (bounds s') \<le> maxX (bounds s')"
      using one mx by auto
    from UpdateDrag_result [OF consistent_demo_dragging demo_dragging_fields(1,2,3,4) ip]
    obtain sp sb where sp: "dragStartPoint demo_dragging = Some sp"
      and sb: "dragStartBound demo_dragging = Some sb"
      and res: "UpdateDrag demo_cam \<lparr>nx = 100, ny = 1\<rparr> demo_dragging =
        Inr (refreshed (SyncBoxFromBounds (demo_dragging\<lparr>bounds := set_bound MinX
          (dragged_bound MinX sb sp (Vector3 100 0.5 0.5) (bounds demo_dragging))
          (bounds demo_dragging)\<rparr>)))"
      by blast
    from sp sb demo_dragging_start have start: "sp = Vector3 0 0.5 0.5" "sb = 0" by simp_all
    from run res have s': "s' = refreshed (SyncBoxFromBounds (demo_dragging\<lparr>bounds := set_bound MinX
          (dragged_bound MinX sb sp (Vector3 100 0.5 0.5) (bounds demo_dragging))
          (bounds demo_dragging)\<rparr>))"
      by simp
    have "minX (bounds s') =
        dragged_bound MinX sb sp (Vector3 100 0.5 0.5) (bounds demo_dragging)"
      unfolding s' by simp
    also have "\<dots> = dragged_bound MinX 0 (Vector3 0 0.5 0.5) (Vector3 100 0.5 0.5) unit_bounds"
      by (simp only: start demo_dragging_fields(5))
    also have "\<dots> = 8917127262193582 / 2 ^ 53" by (rule dragged_bound_demo_far)
    finally have val: "minX (bounds s') = 8917127262193582 / 2 ^ 53" .
    from mg err have mg': "minX (bounds s') + 0.01 \<le> maxX (bounds s') + 1 / 2 ^ 53"
      by (rule order_trans [OF _ add_left_mono])
    show ?thesis
      using consistent_demo_dragging demo_dragging_fields(1,2,3,4) ip one lim mx run dbl opp val le
        mg' ord
      by blast
  qed
  show ?max_side
  proof -
    have ip: "intersectPlane demo_cam_max \<lparr>nx = - 100, ny = 1\<rparr>
       (setFromNormalAndCoplanarPoint (Vector3 0 0 1) (Vector3 1 0.5 0.5))
         = Some (Vector3 (- 100) 0.5 0.5)"
      by (simp add: demo_cam_max_def)
    have zero: "is_double 0" by (simp add: is_double_def)
    have lim: "fl (0 + fl 0.01) = 5764607523034235 / 2 ^ 59"
      by (simp add: fl_hundredth fl_hundredth_double)
    have err: "max (\<bar>0 + fl 0.01\<bar> / 2 ^ 53) (2 powi (- 1075)) \<le> 1 / 2 ^ 53"
      by (simp add: fl_hundredth)
    have mn: "minX (bounds demo_dragging_max) = 0"
      by (simp add: demo_dragging_max_fields unit_bounds_def)
    from UpdateDrag_keeps_rounded_margin [OF consistent_demo_dragging_max
      demo_dragging_max_fields(1,2,3,4) ip]
    obtain s' where run: "UpdateDrag demo_cam_max \<lparr>nx = - 100, ny = 1\<rparr> demo_dragging_max = Inr s'"
      and dbl: "is_double (maxX (bounds s'))" and opp: "minX (bounds s') = 0"
      and le: "fl (0 + fl 0.01) \<le> maxX (bounds s')"
      and mg: "minX (bounds s') + 0.01
                 \<le> maxX (bounds s') + max (\<bar>0 + fl 0.01\<bar> / 2 ^ 53) (2 powi (- 1075))"
      and ord: "minX (bounds s') \<le> maxX (bounds s')"
      using zero mn by auto
    from mg err have mg': "minX (bounds s') + 0.01 \<le> maxX (bounds s') + 1 / 2 ^ 53"
      by (rule order_trans [OF _ add_left_mono])
    from UpdateDrag_result [OF consistent_demo_dragging_max demo_dragging_max_fields(1,2,3,4) ip]
    obtain sp sb where sp: "dragStartPoint demo_dragging_max = Some sp"
      and sb: "dragStartBound demo_dragging_max = Some sb"
      and res: "UpdateDrag demo_cam_max \<lparr>nx = - 100, ny = 1\<rparr> demo_dragging_max =
        Inr (refreshed (SyncBoxFromBounds (demo_dragging_max\<lparr>bounds := set_bound MaxX
          (dragged_bound MaxX sb sp (Vector3 (- 100) 0.5 0.5) (bounds demo_dragging_max))
          (bounds demo_dragging_max)\<rparr>)))"
      by blast
    from sp sb demo_dragging_max_fields(6,7) have start: "sp = Vector3 1 0.5 0.5" "sb = 1"
      by simp_all
    from run res have s': "s' = refreshed (SyncBoxFromBounds (demo_dragging_max\<lparr>bounds :=
          set_bound MaxX
          (dragged_bound MaxX sb sp (Vector3 (- 100) 0.5 0.5) (bounds demo_dragging_max))
          (bounds demo_dragging_max)\<rparr>))"
      by simp
    have "maxX (bounds s') =
        dragged_bound MaxX sb sp (Vector3 (- 100) 0.5 0.5) (bounds demo_dragging_max)"
      unfolding s' by simp
    also have "\<dots> = dragged_bound MaxX 1 (Vector3 1 0.5 0.5) (Vector3 (- 100) 0.5 0.5) unit_bounds"
      by (simp only: start demo_dragging_max_fields(5))
    also have "\<dots> = 5764607523034235 / 2 ^ 59" by (rule dragged_bound_demo_max)
    finally have val: "maxX (bounds s') = 5764607523034235 / 2 ^ 59" .
    show ?thesis
      using consistent_demo_dragging_max demo_dragging_max_fields(1,2,3,4) ip zero lim mn run dbl opp
        val le mg' ord
      by blast
  qed
qed

section \<open>The six clip planes\<close>

text \<open>
  Claim C2. While the section box is enabled and its box is in step with the bounds,
  \<open>UpdatePlanes\<close> leaves exactly six planes, one pair per axis, with the components
  \<open>(1, 0, 0, -minX)\<close>, \<open>(-1, 0, 0, maxX)\<close>, \<open>(0, 1, 0, -minY)\<close>,
  \<open>(0, -1, 0, maxY)\<close>, \<open>(0, 0, 1, -minZ)\<close>, \<open>(0, 0, -1, maxZ)\<close>. For each plane,
  \<open>dot (normal, p) + constant\<close> is \<open>0\<close> at every point \<open>p\<close> of its face of the box
  and positive at every point strictly inside the box.
\<close>

theorem UpdatePlanes_derives_six_planes:
  assumes "enabled s" and "length (planes s) = 6" and "box s = box_of_bounds (bounds s)"
  shows "\<exists>s'. UpdatePlanes s = Inr s' \<and>
           planes s' =
             [setComponents 1 0 0 (- minX (bounds s)), setComponents (- 1) 0 0 (maxX (bounds s)),
              setComponents 0 1 0 (- minY (bounds s)), setComponents 0 (- 1) 0 (maxY (bounds s)),
              setComponents 0 0 1 (- minZ (bounds s)), setComponents 0 0 (- 1) (maxZ (bounds s))] \<and>
           length (planes s') = 6 \<and>
           (\<forall>f p. on_face (box s) f p \<longrightarrow>
              distanceToPoint (planes s' ! plane_index f) p = 0) \<and>
           (\<forall>p. strictly_inside (box s) p \<longrightarrow>
              (\<forall>pl \<in> set (planes s'). distanceToPoint pl p > 0))"
proof -
  have run: "UpdatePlanes s = Inr (s\<lparr>planes := derived_planes (box s)\<rparr>)"
    using assms(1,2) by (simp add: UpdatePlanes_closed replan_def)
  have faces: "distanceToPoint (derived_planes (box s) ! plane_index f) p = 0"
    if "on_face (box s) f p" for f p
    using that
    by (cases f)
       (simp_all add: on_face_def face_bound_def derived_planes_def distanceToPoint_def
          setComponents_def dot_def Vector3_def)
  have inside: "distanceToPoint pl p > 0"
    if "strictly_inside (box s) p" and "pl \<in> set (derived_planes (box s))" for pl p
    using that
    by (auto simp: strictly_inside_def derived_planes_def distanceToPoint_def
          setComponents_def dot_def Vector3_def)
  show ?thesis
    unfolding run using faces inside
    by (simp add: assms(3) derived_planes_def box_of_bounds_def Vector3_def)
qed

text \<open>
  The theorem at \<open>demo_enabled\<close>, with a point of the face \<open>maxY\<close> and a point
  strictly inside the unit box.
\<close>

theorem UpdatePlanes_derives_six_planes_witness:
  "enabled demo_enabled \<and> length (planes demo_enabled) = 6 \<and>
   box demo_enabled = box_of_bounds (bounds demo_enabled) \<and>
   (\<exists>s'. UpdatePlanes demo_enabled = Inr s' \<and>
      planes s' =
        [setComponents 1 0 0 0, setComponents (- 1) 0 0 1, setComponents 0 1 0 0,
         setComponents 0 (- 1) 0 1, setComponents 0 0 1 0, setComponents 0 0 (- 1) 1] \<and>
      on_face (box demo_enabled) MaxY (Vector3 0.25 1 0.75) \<and>
      distanceToPoint (planes s' ! plane_index MaxY) (Vector3 0.25 1 0.75) = 0 \<and>
      strictly_inside (box demo_enabled) (Vector3 0.25 0.5 0.75) \<and>
      list_all (\<lambda>pl. distanceToPoint pl (Vector3 0.25 0.5 0.75) > 0) (planes s'))"
proof -
  have f: "on_face (box demo_enabled) MaxY (Vector3 0.25 1 0.75)"
    and i: "strictly_inside (box demo_enabled) (Vector3 0.25 0.5 0.75)"
    by (simp_all add: demo_enabled_fields on_face_def in_box_def face_bound_def
        strictly_inside_def box_of_bounds_def unit_bounds_def Vector3_def)
  from UpdatePlanes_derives_six_planes [OF demo_enabled_fields(1,2,3)]
  obtain s' where run: "UpdatePlanes demo_enabled = Inr s'"
    and pl: "planes s' =
        [setComponents 1 0 0 (- minX (bounds demo_enabled)),
         setComponents (- 1) 0 0 (maxX (bounds demo_enabled)),
         setComponents 0 1 0 (- minY (bounds demo_enabled)),
         setComponents 0 (- 1) 0 (maxY (bounds demo_enabled)),
         setComponents 0 0 1 (- minZ (bounds demo_enabled)),
         setComponents 0 0 (- 1) (maxZ (bounds demo_enabled))]"
    and fa: "\<forall>f p. on_face (box demo_enabled) f p \<longrightarrow>
              distanceToPoint (planes s' ! plane_index f) p = 0"
    and ins: "\<forall>p. strictly_inside (box demo_enabled) p \<longrightarrow>
              (\<forall>pl \<in> set (planes s'). distanceToPoint pl p > 0)"
    by blast
  from fa f have d: "distanceToPoint (planes s' ! plane_index MaxY) (Vector3 0.25 1 0.75) = 0"
    by blast
  from ins i have a: "list_all (\<lambda>pl. distanceToPoint pl (Vector3 0.25 0.5 0.75) > 0) (planes s')"
    unfolding list_all_iff by blast
  from pl have pl': "planes s' =
        [setComponents 1 0 0 0, setComponents (- 1) 0 0 1, setComponents 0 1 0 0,
         setComponents 0 (- 1) 0 1, setComponents 0 0 1 0, setComponents 0 0 (- 1) 1]"
    by (simp add: demo_enabled_fields unit_bounds_def)
  show ?thesis
    using demo_enabled_fields(1,2,3) run pl' f d i a by blast
qed

section \<open>Disabling\<close>

text \<open>
  Claim C3. Disabling the section box, by \<open>Enable (false)\<close> or by
  \<open>EnableSectionBox (false)\<close>, leaves the renderer with the empty list of clip
  planes, sets \<open>visible = false\<close> on the overlay scene and on every object in it, removes
  none of them, and changes none of the six bounds.
\<close>

theorem disable_clears_clip_planes_and_hides_overlay:
  assumes "consistent s"
  shows "\<exists>s'. EnableSectionBox False s = Inr s' \<and> Enable False s = Inr s' \<and>
           clippingPlanes s' = OwnPlanes [] \<and> current_clip s' = [] \<and>
           overlayVisible s' = False \<and>
           (\<forall>r \<in> set (overlayChildren s'). obj_visible s' r = Some False) \<and>
           overlayChildren s' = overlayChildren s \<and>
           bounds s' = bounds s"
  using assms by (rule Enable_False_result)

text \<open>
  The theorem at \<open>demo_dragging\<close>: seven objects are in the overlay scene.
\<close>

theorem disable_clears_clip_planes_and_hides_overlay_witness:
  "consistent demo_dragging \<and>
   (\<exists>s'. EnableSectionBox False demo_dragging = Inr s' \<and> Enable False demo_dragging = Inr s' \<and>
      clippingPlanes s' = OwnPlanes [] \<and> current_clip s' = [] \<and> overlayVisible s' = False \<and>
      overlayChildren s' = [EdgesRef, HandleRef 0, HandleRef 1, HandleRef 2, HandleRef 3,
                            HandleRef 4, HandleRef 5] \<and>
      list_all (\<lambda>r. obj_visible s' r = Some False) (overlayChildren s') \<and>
      bounds s' = unit_bounds)"
proof -
  have "overlayChildren demo_dragging = [EdgesRef, HandleRef 0, HandleRef 1, HandleRef 2,
      HandleRef 3, HandleRef 4, HandleRef 5]"
    by (simp add: demo_dragging_def demo_enabled_def)
  with disable_clears_clip_planes_and_hides_overlay [OF consistent_demo_dragging]
  show ?thesis
    using consistent_demo_dragging demo_dragging_fields(5) by (auto simp: list_all_iff)
qed

section \<open>The render hook\<close>

text \<open>
  Claim C4 says that enabling twice installs one render hook, and that disabling
  restores the host's draw entry point exactly and hides the overlay objects without
  removing them. The entry point is not restored exactly: \<open>HookRender\<close> saves
  \<open>viewer.Render.bind (viewer)\<close>, and \<open>UnhookRender\<close> installs that bound function,
  which is another function value than the one that was there. After the constructor,
  \<open>EnableSectionBox (true)\<close> and \<open>EnableSectionBox (false)\<close> the entry point is the
  host's draw method bound to the viewer, not the draw method.
\<close>

theorem unhook_installs_bound_copy_counterexample:
  "map_sum id viewerRender
     (seq (EnableSectionBox True (SectionBox empty_box)) (EnableSectionBox False))
     = Inr (Bound HostRender) \<and>
   viewerRender (SectionBox empty_box) = HostRender \<and>
   map_sum id viewerRender
     (seq (EnableSectionBox True (SectionBox empty_box)) (EnableSectionBox False))
     \<noteq> Inr (viewerRender (SectionBox empty_box))"
proof -
  have v0: "viewerRender (SectionBox empty_box) = HostRender"
    "originalRender (SectionBox empty_box) = None"
    by (simp_all add: SectionBox_closed)
  from Enable_True_hook [OF consistent_SectionBox, of empty_box] v0
  obtain s1 where s1: "Enable True (SectionBox empty_box) = Inr s1" "consistent s1"
    "originalRender s1 = Some (Bound HostRender)"
    by auto
  from Enable_False_unhook [OF s1(2,3)]
  obtain s2 where s2: "Enable False s1 = Inr s2" "viewerRender s2 = Bound HostRender"
    by blast
  have "map_sum id viewerRender
     (seq (EnableSectionBox True (SectionBox empty_box)) (EnableSectionBox False))
     = Inr (Bound HostRender)"
    by (simp add: EnableSectionBox_Enable s1 s2 seq_def)
  with v0 show ?thesis by simp
qed

text \<open>
  Claim C4, as amended. From a consistent state without the hook, enabling twice
  installs the wrapper once: after the first and after the second call
  \<open>viewer.Render\<close> is the wrapper and \<open>originalRender\<close> is the entry point of before,
  bound to the viewer, and the render of the second call draws the main scene once and
  the overlay once. Disabling then installs that bound function as the entry point and
  clears \<open>originalRender\<close>; in any state a render through the bound function does
  what a render through the entry point of before does, the host's draw of the main
  scene and nothing else. The overlay scene keeps its children, all with
  \<open>visible = false\<close>.
\<close>

theorem hook_once_and_unhook:
  assumes "consistent s" and "originalRender s = None"
  shows "\<exists>s1 s2 s3. Enable True s = Inr s1 \<and> Enable True s1 = Inr s2 \<and> Enable False s2 = Inr s3 \<and>
           viewerRender s1 = OverlayWrapper \<and> originalRender s1 = Some (Bound (viewerRender s)) \<and>
           viewerRender s2 = OverlayWrapper \<and> originalRender s2 = Some (Bound (viewerRender s)) \<and>
           frames s2 = frames s1 @ [MainPass (planes s2), OverlayPass []] \<and>
           viewerRender s3 = Bound (viewerRender s) \<and> originalRender s3 = None \<and>
           (\<forall>t. viewerRender t = viewerRender s \<longrightarrow> Render t = Inr (host_render t)) \<and>
           (\<forall>t. viewerRender t = viewerRender s3 \<longrightarrow> Render t = Inr (host_render t)) \<and>
           frames s3 = frames s2 @ [MainPass []] \<and>
           overlayChildren s3 = overlayChildren s2 \<and> overlayChildren s3 \<noteq> [] \<and>
           (\<forall>r \<in> set (overlayChildren s3). obj_visible s3 r = Some False)"
proof -
  from Enable_True_hook [OF assms(1)] obtain s1 where s1: "Enable True s = Inr s1"
    "consistent s1" "viewerRender s1 = OverlayWrapper"
    "originalRender s1 = Some (Bound (viewerRender s))"
    using assms(2) by auto
  from Enable_True_hook [OF s1(2)] obtain s2 where s2: "Enable True s1 = Inr s2"
    "consistent s2" "viewerRender s2 = OverlayWrapper"
    "originalRender s2 = Some (Bound (viewerRender s))" "overlayChildren s2 \<noteq> []"
    "frames s2 = frames s1 @ [MainPass (planes s2), OverlayPass []]"
    using s1(4) by auto
  from Enable_False_result [OF s2(2)] obtain s3 where
    s3: "Enable False s2 = Inr s3" "overlayChildren s3 = overlayChildren s2"
    "\<forall>r \<in> set (overlayChildren s3). obj_visible s3 r = Some False"
    by blast
  have ch: "overlayChildren (s2\<lparr>enabled := False, clippingPlanes := OwnPlanes []\<rparr>) =
      scene_children (s2\<lparr>enabled := False, clippingPlanes := OwnPlanes []\<rparr>)"
    using s2(2) by (simp add: consistent_def scene_children_def)
  have s3': "viewerRender s3 = Bound (viewerRender s)" "originalRender s3 = None"
    "frames s3 = frames s2 @ [MainPass []]"
    using s3(1) s2(3,4) unfolding Enable_False_closed [OF s2(2)] ShowVisuals_closed [OF ch]
    by (auto simp: UnhookRender_def frames_rendered_unhooked current_clip_def)
  have nw: "\<not> calls_wrapper (viewerRender s)"
    using assms by (simp add: consistent_def hook_ok_def)
  have before: "\<forall>t. viewerRender t = viewerRender s \<longrightarrow> Render t = Inr (host_render t)"
    using nw by (simp add: Render_def)
  have after: "\<forall>t. viewerRender t = viewerRender s3 \<longrightarrow> Render t = Inr (host_render t)"
    using nw s3'(1) by (simp add: Render_def)
  show ?thesis
    using s1 s2 s3 s3' before after by (intro exI [of _ s1] exI [of _ s2] exI [of _ s3]) simp
qed

text \<open>
  The theorem from the state of the constructor, where the entry point is the host's
  own draw method.
\<close>

theorem hook_once_and_unhook_witness:
  "consistent (SectionBox empty_box) \<and> originalRender (SectionBox empty_box) = None \<and>
   (\<exists>s1 s2 s3. Enable True (SectionBox empty_box) = Inr s1 \<and> Enable True s1 = Inr s2 \<and>
      Enable False s2 = Inr s3 \<and>
      viewerRender s1 = OverlayWrapper \<and> originalRender s1 = Some (Bound HostRender) \<and>
      viewerRender s2 = OverlayWrapper \<and> originalRender s2 = Some (Bound HostRender) \<and>
      frames s2 = frames s1 @ [MainPass (planes s2), OverlayPass []] \<and>
      viewerRender s3 = Bound HostRender \<and> originalRender s3 = None \<and>
      Render (SectionBox empty_box) = Inr (host_render (SectionBox empty_box)) \<and>
      Render s3 = Inr (host_render s3) \<and>
      frames s3 = frames s2 @ [MainPass []] \<and>
      overlayChildren s3 = overlayChildren s2 \<and> overlayChildren s3 \<noteq> [])"
proof -
  have v0: "viewerRender (SectionBox empty_box) = HostRender"
    "originalRender (SectionBox empty_box) = None"
    by (simp_all add: SectionBox_closed)
  from hook_once_and_unhook [OF consistent_SectionBox v0(2)] v0 consistent_SectionBox [of empty_box]
  show ?thesis
    by (simp only:) blast
qed

section \<open>Fitting to a bounding box\<close>

text \<open>
  Claim C5 says that \<open>FitToBox\<close> ignores a box that is \<open>null\<close> or empty, where empty
  is read as degenerate or of volume zero, and that otherwise it sets the bounds to the
  box grown by \<open>size * marginFactor\<close> on each axis. The test of the code is
  \<open>isEmpty\<close>, which holds only when the maximum lies below the minimum on some axis:
  a box of volume zero whose corners are in order is fitted like any other. For the box
  with both corners at \<open>(2, 2, 2)\<close> the bounds of the constructor become \<open>2\<close>.
\<close>

theorem FitToBox_zero_volume_counterexample:
  "vx (getSize point_box) * vy (getSize point_box) * vz (getSize point_box) = 0 \<and>
   map_sum id bounds (FitToBox (Some point_box) 0.05 (SectionBox empty_box)) =
     Inr \<lparr>minX = 2, maxX = 2, minY = 2, maxY = 2, minZ = 2, maxZ = 2\<rparr> \<and>
   bounds (SectionBox empty_box) =
     \<lparr>minX = 0, maxX = 1, minY = 0, maxY = 1, minZ = 0, maxZ = 1\<rparr> \<and>
   FitToBox (Some point_box) 0.05 (SectionBox empty_box) \<noteq> Inr (SectionBox empty_box)"
proof -
  have ne: "\<not> isEmpty point_box"
    by (simp add: isEmpty_def point_box_def Vector3_def)
  have sz: "getSize point_box = Vector3 0 0 0"
    by (simp add: getSize_def ne) (simp add: point_box_def Vector3_def)
  have run: "map_sum id bounds (FitToBox (Some point_box) 0.05 (SectionBox empty_box)) =
     Inr \<lparr>minX = 2, maxX = 2, minY = 2, maxY = 2, minZ = 2, maxZ = 2\<rparr>"
    by (simp add: FitToBox_closed [OF consistent_SectionBox ne] sz)
       (simp add: point_box_def Vector3_def)
  have b0: "bounds (SectionBox empty_box) =
     \<lparr>minX = 0, maxX = 1, minY = 0, maxY = 1, minZ = 0, maxZ = 1\<rparr>"
    by (simp add: SectionBox_closed)
  have "FitToBox (Some point_box) 0.05 (SectionBox empty_box) \<noteq> Inr (SectionBox empty_box)"
  proof
    assume "FitToBox (Some point_box) 0.05 (SectionBox empty_box) = Inr (SectionBox empty_box)"
    with run b0 show False by simp
  qed
  with sz run b0 show ?thesis by (simp add: Vector3_def)
qed

text \<open>
  Claim C5, as amended. \<open>FitToBox\<close> changes nothing when the box is \<open>null\<close> or when
  \<open>isEmpty\<close> holds of it, that is, when its maximum lies below its minimum on some
  axis. For every other box \<open>b\<close>, boxes of volume zero included, and every margin
  factor \<open>m\<close> it sets, on each axis, \<open>min = b.min - size (b) * m\<close> and
  \<open>max = b.max + size (b) * m\<close>, with \<open>size (b) = b.max - b.min\<close>; with the factor
  \<open>0\<close> the bounds are the corners of \<open>b\<close>.
\<close>

theorem FitToBox_fits_or_ignores:
  assumes "consistent s"
  shows "FitToBox None mf s = Inr s \<and>
         (isEmpty b \<longrightarrow> FitToBox (Some b) mf s = Inr s) \<and>
         (\<not> isEmpty b \<longrightarrow>
            (\<exists>s'. FitToBox (Some b) mf s = Inr s' \<and>
               bounds s' =
                 \<lparr>minX = vx (bmin b) - vx (getSize b) * mf, maxX = vx (bmax b) + vx (getSize b) * mf,
                  minY = vy (bmin b) - vy (getSize b) * mf, maxY = vy (bmax b) + vy (getSize b) * mf,
                  minZ = vz (bmin b) - vz (getSize b) * mf, maxZ = vz (bmax b) + vz (getSize b) * mf\<rparr> \<and>
               getSize b = Vector3 (vx (bmax b) - vx (bmin b)) (vy (bmax b) - vy (bmin b))
                             (vz (bmax b) - vz (bmin b))) \<and>
            (\<exists>s'. FitToBox (Some b) 0 s = Inr s' \<and>
               bounds s' =
                 \<lparr>minX = vx (bmin b), maxX = vx (bmax b), minY = vy (bmin b),
                  maxY = vy (bmax b), minZ = vz (bmin b), maxZ = vz (bmax b)\<rparr>))"
  using assms by (simp add: FitToBox_closed getSize_def) (simp add: FitToBox_def)

text \<open>
  The theorem from the state of the constructor: \<open>null\<close>, an empty box, and the box
  from \<open>(-2, -2, -2)\<close> to \<open>(2, 2, 2)\<close> with the factors \<open>0.1\<close> and \<open>0\<close>.
\<close>

theorem FitToBox_fits_or_ignores_witness:
  "consistent (SectionBox empty_box) \<and> isEmpty empty_box \<and>
   \<not> isEmpty \<lparr>bmin = Vector3 (- 2) (- 2) (- 2), bmax = Vector3 2 2 2\<rparr> \<and>
   FitToBox None 0.1 (SectionBox empty_box) = Inr (SectionBox empty_box) \<and>
   FitToBox (Some empty_box) 0.1 (SectionBox empty_box) = Inr (SectionBox empty_box) \<and>
   (\<exists>s'. FitToBox (Some \<lparr>bmin = Vector3 (- 2) (- 2) (- 2), bmax = Vector3 2 2 2\<rparr>) 0.1
            (SectionBox empty_box) = Inr s' \<and>
      bounds s' = \<lparr>minX = - 2.4, maxX = 2.4, minY = - 2.4, maxY = 2.4, minZ = - 2.4, maxZ = 2.4\<rparr>) \<and>
   (\<exists>s'. FitToBox (Some \<lparr>bmin = Vector3 (- 2) (- 2) (- 2), bmax = Vector3 2 2 2\<rparr>) 0
            (SectionBox empty_box) = Inr s' \<and>
      bounds s' = \<lparr>minX = - 2, maxX = 2, minY = - 2, maxY = 2, minZ = - 2, maxZ = 2\<rparr>)"
proof -
  have e: "isEmpty empty_box"
    and n: "\<not> isEmpty \<lparr>bmin = Vector3 (- 2) (- 2) (- 2), bmax = Vector3 2 2 2\<rparr>"
    by (simp_all add: isEmpty_def empty_box_def Vector3_def)
  from FitToBox_fits_or_ignores [OF consistent_SectionBox, of "0.1" empty_box empty_box]
    FitToBox_fits_or_ignores [OF consistent_SectionBox, of "0.1" empty_box
      "\<lparr>bmin = Vector3 (- 2) (- 2) (- 2), bmax = Vector3 2 2 2\<rparr>"]
    e n consistent_SectionBox [of empty_box]
  show ?thesis
    by (auto simp: Vector3_def)
qed

section \<open>Setting and reading the bounds\<close>

text \<open>
  Claim C6. \<open>SetSectionBox (b)\<close> followed by \<open>GetSectionBox ()\<close> answers the six
  numbers of \<open>b\<close> unchanged, whether or not a minimum of \<open>b\<close> exceeds its maximum.
  \<open>SetSectionBox\<close> leaves the flag \<open>enabled\<close> as it was, and so do \<open>FitToBox\<close>,
  \<open>SetBox\<close>, the three mouse handlers and \<open>Dispose\<close>; \<open>EnableSectionBox (e)\<close>
  sets it to \<open>e\<close>.
\<close>

theorem SetSectionBox_then_GetSectionBox:
  assumes "consistent s"
  shows "\<exists>s'. SetSectionBox b s = Inr s' \<and>
           GetSectionBox s' =
             \<lparr>i_enabled = enabled s, i_minX = minX b, i_maxX = maxX b, i_minY = minY b,
              i_maxY = maxY b, i_minZ = minZ b, i_maxZ = maxZ b\<rparr> \<and>
           enabled s' = enabled s \<and>
           (\<forall>bb mf t. FitToBox bb mf s = Inr t \<longrightarrow> enabled t = enabled s) \<and>
           (\<forall>bb t. SetBox bb s = Inr t \<longrightarrow> enabled t = enabled s) \<and>
           (\<forall>cam m button r. OnMouseDown cam m button s = Inr r \<longrightarrow> enabled (snd r) = enabled s) \<and>
           (\<forall>cam m r. OnMouseMove cam m s = Inr r \<longrightarrow> enabled (snd r) = enabled s) \<and>
           (\<forall>r. OnMouseUp s = Inr r \<longrightarrow> enabled (snd r) = enabled s) \<and>
           enabled (Dispose s) = enabled s \<and>
           (\<forall>e. \<exists>t. EnableSectionBox e s = Inr t \<and> enabled t = e)"
proof -
  have "\<exists>t. EnableSectionBox e s = Inr t \<and> enabled t = e" for e
    using consistent_EnableSectionBox [OF assms, of e] Enable_sets_enabled [of e s]
    by (auto simp: EnableSectionBox_Enable)
  then show ?thesis
    using assms
    by (simp add: SetSectionBox_closed GetSectionBox_def FitToBox_enabled SetBox_enabled
        OnMouseDown_enabled OnMouseMove_enabled OnMouseUp_enabled Dispose_enabled)
qed

text \<open>
  The theorem at \<open>demo_enabled\<close>, with bounds whose \<open>minX\<close> exceeds \<open>maxX\<close>.
\<close>

theorem SetSectionBox_then_GetSectionBox_witness:
  "consistent demo_enabled \<and>
   (\<exists>s'. SetSectionBox \<lparr>minX = 3, maxX = - 2, minY = 0, maxY = 5, minZ = 1, maxZ = 1\<rparr> demo_enabled
            = Inr s' \<and>
      GetSectionBox s' =
        \<lparr>i_enabled = True, i_minX = 3, i_maxX = - 2, i_minY = 0, i_maxY = 5, i_minZ = 1,
         i_maxZ = 1\<rparr>)"
  using SetSectionBox_then_GetSectionBox [OF consistent_demo_enabled,
      of "\<lparr>minX = 3, maxX = - 2, minY = 0, maxY = 5, minZ = 1, maxZ = 1\<rparr>"]
    consistent_demo_enabled demo_enabled_fields(1)
  by auto

section \<open>The end of a drag\<close>

text \<open>
  Claim C7 says that every way from dragging to idle, the release of the button as well
  as disabling the section box during the drag, resets the colour of the active handle
  and discards the whole drag session. \<open>EndDrag\<close> does so. The branch of \<open>Enable\<close>
  that disables clears only \<open>isDragging\<close> and \<open>activeFace\<close>: at \<open>demo_dragging\<close>,
  after \<open>EnableSectionBox (false)\<close> the start point, the drag plane and the start
  bound are still those of the drag and the handle of \<open>minX\<close> still has the active
  colour, while after \<open>OnMouseUp\<close> all of them are cleared.
\<close>

theorem disable_mid_drag_keeps_session_data:
  "map_sum id drag_session (EnableSectionBox False demo_dragging) =
     Inr (False, None, Some (Vector3 0 0.5 0.5),
          Some (setFromNormalAndCoplanarPoint (Vector3 0 0 1) (Vector3 0 0.5 0.5)), Some 0,
          [handleActiveColor, handleColor, handleColor, handleColor, handleColor, handleColor]) \<and>
   map_sum id (\<lambda>r. (fst r, drag_session (snd r))) (OnMouseUp demo_dragging) =
     Inr (True, False, None, None, None, None,
          [handleColor, handleColor, handleColor, handleColor, handleColor, handleColor])"
proof -
  have ch: "overlayChildren (demo_dragging\<lparr>enabled := False, clippingPlanes := OwnPlanes []\<rparr>) =
      scene_children (demo_dragging\<lparr>enabled := False, clippingPlanes := OwnPlanes []\<rparr>)"
    using consistent_demo_dragging by (simp add: consistent_def scene_children_def)
  have colors: "map h_color (faceHandles demo_dragging) =
      [handleActiveColor, handleColor, handleColor, handleColor, handleColor, handleColor]"
    by (simp add: demo_dragging_def demo_enabled_def faces_def new_handle_def)
  have names: "map faceName (faceHandles demo_dragging) = [MinX, MaxX, MinY, MaxY, MinZ, MaxZ]"
    by (simp add: demo_dragging_def demo_enabled_def faces_def new_handle_def)
  have d: "isDragging demo_dragging" "activeFace demo_dragging = Some MinX"
    "dragStartPoint demo_dragging = Some (Vector3 0 0.5 0.5)"
    "dragPlane demo_dragging =
       Some (setFromNormalAndCoplanarPoint (Vector3 0 0 1) (Vector3 0 0.5 0.5))"
    "dragStartBound demo_dragging = Some 0"
    by (simp_all add: demo_dragging_def)
  have 1: "map_sum id drag_session (EnableSectionBox False demo_dragging) =
     Inr (False, None, Some (Vector3 0 0.5 0.5),
          Some (setFromNormalAndCoplanarPoint (Vector3 0 0 1) (Vector3 0 0.5 0.5)), Some 0,
          [handleActiveColor, handleColor, handleColor, handleColor, handleColor, handleColor])"
    using colors d
    by (simp add: EnableSectionBox_Enable Enable_False_closed [OF consistent_demo_dragging]
        ShowVisuals_closed [OF ch] drag_session_def o_def)
  obtain h1 h2 h3 h4 h5 h6 where hs: "faceHandles demo_dragging = [h1, h2, h3, h4, h5, h6]"
    using names by (auto simp: map_eq_Cons_conv)
  have 2: "map_sum id (\<lambda>r. (fst r, drag_session (snd r))) (OnMouseUp demo_dragging) =
     Inr (True, False, None, None, None, None,
          [handleColor, handleColor, handleColor, handleColor, handleColor, handleColor])"
    using colors names d hs
    by (simp add: OnMouseUp_def EndDrag_closed [OF consistent_demo_dragging] seq_def
        drag_ended_def drag_session_def)
  from 1 2 show ?thesis by simp
qed

section \<open>What the handlers answer\<close>

text \<open>
  Claim C8. A mouse handler answers \<open>true\<close> only for a press of the primary button
  that hits a handle, or during a drag, and \<open>false\<close> otherwise, also when the pointer
  hovers over a handle without a drag. On a consistent state \<open>OnMouseDown\<close> answers
  whether the box is enabled, has handles, the button is the primary one and the ray hits
  a handle; \<open>OnMouseMove\<close> answers whether the box is enabled, has handles and a drag
  is in progress; \<open>OnMouseUp\<close> answers whether a drag is in progress. After
  \<open>EnableSectionBox (false)\<close>, during a drag or not, \<open>OnMouseUp\<close> answers
  \<open>false\<close>, throws nothing and leaves the state as it is.
\<close>

theorem handlers_report_consumption:
  assumes "consistent s" and "raycaster_ok cam"
  shows "(\<exists>s'. OnMouseDown cam m button s =
            Inr (enabled s \<and> faceHandles s \<noteq> [] \<and> button = 1 \<and>
                 intersectObjects cam m (faceHandles s) \<noteq> [], s')) \<and>
         (\<exists>s'. OnMouseMove cam m s =
            Inr (enabled s \<and> faceHandles s \<noteq> [] \<and> isDragging s, s')) \<and>
         (\<exists>s'. OnMouseUp s = Inr (isDragging s, s')) \<and>
         (\<exists>s1. EnableSectionBox False s = Inr s1 \<and> OnMouseUp s1 = Inr (False, s1))"
proof -
  have "\<exists>s1. EnableSectionBox False s = Inr s1 \<and> OnMouseUp s1 = Inr (False, s1)"
    using assms(1)
    by (simp add: EnableSectionBox_Enable Enable_False_closed OnMouseUp_def)
  then show ?thesis
    using OnMouseDown_result [OF assms, of m button] OnMouseMove_result [OF assms, of m]
      OnMouseUp_result [OF assms(1)]
    by blast
qed

text \<open>
  The theorem at \<open>demo_enabled\<close>, where no drag is in progress (a press that hits a
  handle, a press of another button, a press that misses, a hover over a handle and a
  release), and at \<open>demo_dragging\<close>, where one is.
\<close>

theorem handlers_report_consumption_witness:
  "consistent demo_dragging \<and> consistent demo_enabled \<and> raycaster_ok demo_cam \<and>
   isDragging demo_dragging \<and> \<not> isDragging demo_enabled \<and>
   (\<exists>s'. OnMouseDown demo_cam \<lparr>nx = 0, ny = 0\<rparr> 1 demo_enabled = Inr (True, s')) \<and>
   (\<exists>s'. OnMouseDown demo_cam \<lparr>nx = 0, ny = 0\<rparr> 3 demo_enabled = Inr (False, s')) \<and>
   (\<exists>s'. OnMouseDown demo_cam \<lparr>nx = 1, ny = 0\<rparr> 1 demo_enabled = Inr (False, s')) \<and>
   (\<exists>s'. OnMouseMove demo_cam \<lparr>nx = 0, ny = 0\<rparr> demo_enabled = Inr (False, s')) \<and>
   (\<exists>s'. OnMouseUp demo_enabled = Inr (False, s')) \<and>
   (\<exists>s'. OnMouseMove demo_cam \<lparr>nx = 0, ny = 0\<rparr> demo_dragging = Inr (True, s')) \<and>
   (\<exists>s'. OnMouseUp demo_dragging = Inr (True, s')) \<and>
   (\<exists>s1. EnableSectionBox False demo_dragging = Inr s1 \<and> OnMouseUp s1 = Inr (False, s1))"
proof -
  have idle: "\<not> isDragging demo_enabled" "faceHandles demo_enabled \<noteq> []"
    by (simp_all add: demo_enabled_def SectionBox_closed faces_def)
  have hit: "intersectObjects demo_cam \<lparr>nx = 0, ny = 0\<rparr> (faceHandles demo_enabled) \<noteq> []"
    and miss: "intersectObjects demo_cam \<lparr>nx = 1, ny = 0\<rparr> (faceHandles demo_enabled) = []"
    using idle(2) by (simp_all add: demo_cam_def)
  note idle_thm = handlers_report_consumption [OF consistent_demo_enabled raycaster_ok_demo_cam]
  note drag_thm = handlers_report_consumption [OF consistent_demo_dragging raycaster_ok_demo_cam]
  from idle_thm [of "\<lparr>nx = 0, ny = 0\<rparr>" 1] idle_thm [of "\<lparr>nx = 0, ny = 0\<rparr>" 3]
    idle_thm [of "\<lparr>nx = 1, ny = 0\<rparr>" 1] drag_thm [of "\<lparr>nx = 0, ny = 0\<rparr>" 1]
    idle hit miss demo_enabled_fields(1) demo_dragging_fields
    consistent_demo_enabled consistent_demo_dragging raycaster_ok_demo_cam
  show ?thesis
    by simp
qed

section \<open>A pointer ray that misses the drag plane\<close>

text \<open>
  Claim C9. During a drag, when the pointer ray does not meet the drag plane,
  \<open>UpdateDrag\<close> leaves the whole state as it is: bounds, box, planes, drag session and
  visuals, and no render is asked for. \<open>OnMouseMove\<close> then answers \<open>true\<close> with
  the same state.
\<close>

theorem UpdateDrag_without_intersection:
  assumes "isDragging s" and "activeFace s = Some f" and "dragPlane s = Some pl"
    and "intersectPlane cam m pl = None"
  shows "UpdateDrag cam m s = Inr s \<and>
         (enabled s \<and> faceHandles s \<noteq> [] \<longrightarrow> OnMouseMove cam m s = Inr (True, s))"
  using assms by (simp add: UpdateDrag_def OnMouseMove_def seq_def)

text \<open>
  The theorem at \<open>demo_dragging\<close> with the pointer at \<open>y = 0\<close>, where the ray of the
  camera misses the plane.
\<close>

theorem UpdateDrag_without_intersection_witness:
  "isDragging demo_dragging \<and> activeFace demo_dragging = Some MinX \<and>
   dragPlane demo_dragging =
     Some (setFromNormalAndCoplanarPoint (Vector3 0 0 1) (Vector3 0 0.5 0.5)) \<and>
   intersectPlane demo_cam \<lparr>nx = 7, ny = 0\<rparr>
     (setFromNormalAndCoplanarPoint (Vector3 0 0 1) (Vector3 0 0.5 0.5)) = None \<and>
   enabled demo_dragging \<and> faceHandles demo_dragging \<noteq> [] \<and>
   UpdateDrag demo_cam \<lparr>nx = 7, ny = 0\<rparr> demo_dragging = Inr demo_dragging \<and>
   OnMouseMove demo_cam \<lparr>nx = 7, ny = 0\<rparr> demo_dragging = Inr (True, demo_dragging)"
proof -
  have ip: "intersectPlane demo_cam \<lparr>nx = 7, ny = 0\<rparr>
     (setFromNormalAndCoplanarPoint (Vector3 0 0 1) (Vector3 0 0.5 0.5)) = None"
    by (simp add: demo_cam_def)
  show ?thesis
    using UpdateDrag_without_intersection [OF demo_dragging_fields(1,2,4) ip]
      demo_dragging_fields ip
    by simp
qed

section \<open>What a drag update writes\<close>

text \<open>
  Claim C10. A drag update that finds its intersection writes one of the six bounds,
  the one the active face names, and the value it writes there is \<open>dragged_bound\<close>:
  the start bound moved by the travel of the pointer and held against the opposite bound.
  The other five bounds and the flag \<open>enabled\<close> stay as they were, and afterwards the
  box is in step with the bounds: its minimum is \<open>(minX, minY, minZ)\<close> and its maximum
  \<open>(maxX, maxY, maxZ)\<close>.
\<close>

theorem UpdateDrag_writes_one_bound:
  assumes "consistent s" and "isDragging s" and "activeFace s = Some f" and "faceHandles s \<noteq> []"
    and "dragPlane s = Some pl" and "intersectPlane cam m pl = Some p"
  shows "\<exists>s' sp sb. UpdateDrag cam m s = Inr s' \<and>
           dragStartPoint s = Some sp \<and> dragStartBound s = Some sb \<and>
           bounds s' = set_bound f (dragged_bound f sb sp p (bounds s)) (bounds s) \<and>
           get_bound (bounds s') f = dragged_bound f sb sp p (bounds s) \<and>
           (\<forall>g. g \<noteq> f \<longrightarrow> get_bound (bounds s') g = get_bound (bounds s) g) \<and>
           enabled s' = enabled s \<and>
           bmin (box s') = Vector3 (minX (bounds s')) (minY (bounds s')) (minZ (bounds s')) \<and>
           bmax (box s') = Vector3 (maxX (bounds s')) (maxY (bounds s')) (maxZ (bounds s'))"
proof -
  from UpdateDrag_result [OF assms] obtain sp sb where
    "dragStartPoint s = Some sp" and "dragStartBound s = Some sb"
    and "UpdateDrag cam m s = Inr (refreshed (SyncBoxFromBounds
            (s\<lparr>bounds := set_bound f (dragged_bound f sb sp p (bounds s)) (bounds s)\<rparr>)))"
    by blast
  then show ?thesis
    by (simp add: box_of_bounds_def)
qed

text \<open>
  The theorem at \<open>demo_dragging\<close> with the pointer dragged to \<open>x = 0.25\<close>: of the
  unit bounds \<open>minX\<close> goes from \<open>0\<close> to \<open>0.25\<close>.
\<close>

theorem UpdateDrag_writes_one_bound_witness:
  "consistent demo_dragging \<and> isDragging demo_dragging \<and> activeFace demo_dragging = Some MinX \<and>
   faceHandles demo_dragging \<noteq> [] \<and>
   dragPlane demo_dragging =
     Some (setFromNormalAndCoplanarPoint (Vector3 0 0 1) (Vector3 0 0.5 0.5)) \<and>
   intersectPlane demo_cam \<lparr>nx = 0.25, ny = 1\<rparr>
     (setFromNormalAndCoplanarPoint (Vector3 0 0 1) (Vector3 0 0.5 0.5)) = Some (Vector3 0.25 0.5 0.5) \<and>
   bounds demo_dragging = unit_bounds \<and> minX unit_bounds = 0 \<and>
   (\<exists>s'. UpdateDrag demo_cam \<lparr>nx = 0.25, ny = 1\<rparr> demo_dragging = Inr s' \<and>
      bounds s' = unit_bounds\<lparr>minX := 0.25\<rparr> \<and> minX (bounds s') = 0.25 \<and> enabled s' \<and>
      bmin (box s') = Vector3 0.25 0 0 \<and> bmax (box s') = Vector3 1 1 1)"
proof -
  have ip: "intersectPlane demo_cam \<lparr>nx = 0.25, ny = 1\<rparr>
     (setFromNormalAndCoplanarPoint (Vector3 0 0 1) (Vector3 0 0.5 0.5)) = Some (Vector3 0.25 0.5 0.5)"
    by (simp add: demo_cam_def)
  obtain s' sp sb where run: "UpdateDrag demo_cam \<lparr>nx = 0.25, ny = 1\<rparr> demo_dragging = Inr s'"
    and sp: "dragStartPoint demo_dragging = Some sp" and sb: "dragStartBound demo_dragging = Some sb"
    and bs: "bounds s' = set_bound MinX (dragged_bound MinX sb sp (Vector3 0.25 0.5 0.5)
           (bounds demo_dragging)) (bounds demo_dragging)"
    and en: "enabled s' = enabled demo_dragging"
    and bx: "bmin (box s') = Vector3 (minX (bounds s')) (minY (bounds s')) (minZ (bounds s'))"
      "bmax (box s') = Vector3 (maxX (bounds s')) (maxY (bounds s')) (maxZ (bounds s'))"
    using UpdateDrag_writes_one_bound [OF consistent_demo_dragging demo_dragging_fields(1,2,3,4) ip]
    by blast
  from sp sb demo_dragging_start have start: "sp = Vector3 0 0.5 0.5" "sb = 0" by simp_all
  have "dragged_bound MinX sb sp (Vector3 0.25 0.5 0.5) (bounds demo_dragging)
      = dragged_bound MinX 0 (Vector3 0 0.5 0.5) (Vector3 0.25 0.5 0.5) unit_bounds"
    by (simp only: start demo_dragging_fields(5))
  also have "\<dots> = 0.25" by (rule dragged_bound_demo_quarter)
  finally have v: "dragged_bound MinX sb sp (Vector3 0.25 0.5 0.5) (bounds demo_dragging) = 0.25" .
  have b': "bounds s' = unit_bounds\<lparr>minX := 0.25\<rparr>"
    unfolding bs v by (simp add: demo_dragging_fields(5))
  then have "minX (bounds s') = 0.25" "bmin (box s') = Vector3 0.25 0 0"
    "bmax (box s') = Vector3 1 1 1" "minX unit_bounds = 0"
    using bx by (simp_all add: unit_bounds_def)
  moreover have "enabled s'" using en demo_dragging_fields(6) by simp
  ultimately show ?thesis
    using consistent_demo_dragging demo_dragging_fields(1,2,3,4,5) ip run b' by blast
qed

end
